(* ===== verification/Rust_Data.thy ===== *)
theory Rust_Data
  imports Prelude
begin

text \<open>
  The standard data types the Rust sources are written over: 32-byte arrays (\<^verbatim>\<open>[u8; 32]\<close>),
  owned UTF-8 strings (\<^verbatim>\<open>String\<close>) and ordered maps (\<^verbatim>\<open>BTreeMap\<close>). Arrays and strings compare
  lexicographically by bytes, as the derived \<^verbatim>\<open>Ord\<close> instances do.
\<close>

named_theorems btree_simps \<open>facts about ordered maps and their ascending entries\<close>

section \<open>32-byte arrays\<close>

typedef array32 = "{bs :: bytes. length bs = 32}"
  morphisms array_bytes Array32
  by (rule exI [of _ "replicate 32 0"]) simp

lemma length_array_bytes [simp]: "length (array_bytes a) = 32"
  using array_bytes [of a] by simp

lemma array_bytes_eq_iff [simp]: "array_bytes a = array_bytes b \<longleftrightarrow> a = b"
  by (rule array_bytes_inject)

lemma Array32_array_bytes [code abstype]: "Array32 (array_bytes a) = a"
  by (rule array_bytes_inverse)

definition array32_fill :: "u8 \<Rightarrow> array32" where
  "array32_fill b = Array32 (replicate 32 b)"

lemma array_bytes_fill [simp, code abstract]: "array_bytes (array32_fill b) = replicate 32 b"
  by (simp add: array32_fill_def Array32_inverse)

text \<open>The copy of a slice into a zeroed array; \<^verbatim>\<open>copy_from_slice\<close> needs equal lengths.\<close>

definition array32_copy :: "bytes \<Rightarrow> array32" where
  "array32_copy bs = Array32 (take 32 (bs @ replicate 32 0))"

lemma array_bytes_copy [simp, code abstract]:
  "array_bytes (array32_copy bs) = take 32 (bs @ replicate 32 0)"
  by (simp add: array32_copy_def Array32_inverse)

definition array32_of_slice :: "bytes \<Rightarrow> array32 option" where
  "array32_of_slice bs = (if length bs = 32 then Some (array32_copy bs) else None)"

lemma array32_of_slice_Some [simp]: "array32_of_slice bs = Some a \<longleftrightarrow> bs = array_bytes a"
  by (auto simp: array32_of_slice_def simp flip: array_bytes_eq_iff)

lemma array32_of_slice_array_bytes [simp]: "array32_of_slice (array_bytes a) = Some a"
  by simp

lemma array32_of_slice_None [simp]: "array32_of_slice bs = None \<longleftrightarrow> length bs \<noteq> 32"
  by (simp add: array32_of_slice_def)

lemma array32_fill_inject [simp]: "array32_fill a = array32_fill b \<longleftrightarrow> a = b"
  by (simp flip: array_bytes_eq_iff)

instantiation array32 :: equal
begin

definition equal_array32 :: "array32 \<Rightarrow> array32 \<Rightarrow> bool" where
  "equal_array32 a b \<longleftrightarrow> array_bytes a = array_bytes b"

instance by standard (simp add: equal_array32_def)

end

instantiation array32 :: linorder
begin

definition less_eq_array32 :: "array32 \<Rightarrow> array32 \<Rightarrow> bool" where
  "less_eq_array32 a b \<longleftrightarrow> array_bytes a \<le> array_bytes b"

definition less_array32 :: "array32 \<Rightarrow> array32 \<Rightarrow> bool" where
  "less_array32 a b \<longleftrightarrow> array_bytes a < array_bytes b"

instance by standard (auto simp: less_eq_array32_def less_array32_def less_le_not_le)

end

lemma replicate_Suc_less:
  "replicate (Suc n) a < replicate (Suc n) b \<longleftrightarrow> a < (b :: 'a::linorder)"
  by (induction n) auto

lemma array32_fill_less [simp]: "array32_fill a < array32_fill b \<longleftrightarrow> a < b"
  using replicate_Suc_less [of 31 a b] by (simp add: less_array32_def)

lemma array32_fill_le [simp]: "array32_fill a \<le> array32_fill b \<longleftrightarrow> a \<le> b"
  by (simp add: order_le_less)

section \<open>UTF-8 strings\<close>

text \<open>
  \<^verbatim>\<open>String::from_utf8\<close> accepts exactly the well-formed UTF-8 sequences (Unicode, table 3-7): no
  overlong forms, no surrogates, nothing above U+10FFFF.
\<close>

abbreviation in_range :: "nat \<Rightarrow> nat \<Rightarrow> u8 \<Rightarrow> bool" where
  "in_range lo hi b \<equiv> lo \<le> unat b \<and> unat b \<le> hi"

fun utf8_valid :: "bytes \<Rightarrow> bool" where
  "utf8_valid [] = True"
| "utf8_valid (b # bs) =
     (if unat b < 0x80 then utf8_valid bs
      else case bs of
        [] \<Rightarrow> False
      | c # cs \<Rightarrow>
          if in_range 0xC2 0xDF b then in_range 0x80 0xBF c \<and> utf8_valid cs
          else case cs of
            [] \<Rightarrow> False
          | d # ds \<Rightarrow>
              if in_range 0xE0 0xEF b
              then in_range (if unat b = 0xE0 then 0xA0 else 0x80)
                            (if unat b = 0xED then 0x9F else 0xBF) c
                   \<and> in_range 0x80 0xBF d \<and> utf8_valid ds
              else case ds of
                [] \<Rightarrow> False
              | e # es \<Rightarrow>
                  in_range 0xF0 0xF4 b
                  \<and> in_range (if unat b = 0xF0 then 0x90 else 0x80)
                              (if unat b = 0xF4 then 0x8F else 0xBF) c
                  \<and> in_range 0x80 0xBF d \<and> in_range 0x80 0xBF e \<and> utf8_valid es)"

lemma utf8_valid_ascii: "\<forall>b \<in> set bs. unat b < 0x80 \<Longrightarrow> utf8_valid bs"
  by (induction bs) auto

typedef rstring = "{bs. utf8_valid bs}"
  morphisms str_bytes RString
  by (rule exI [of _ "[]"]) simp

lemma utf8_valid_str_bytes [simp]: "utf8_valid (str_bytes s)"
  using str_bytes [of s] by simp

lemma str_bytes_eq_iff [simp]: "str_bytes s = str_bytes t \<longleftrightarrow> s = t"
  by (rule str_bytes_inject)

lemma RString_str_bytes [code abstype]: "RString (str_bytes s) = s"
  by (rule str_bytes_inverse)

definition string_of_valid :: "bytes \<Rightarrow> rstring" where
  "string_of_valid bs = RString (if utf8_valid bs then bs else [])"

lemma str_bytes_of_valid [simp, code abstract]:
  "str_bytes (string_of_valid bs) = (if utf8_valid bs then bs else [])"
  by (simp add: string_of_valid_def RString_inverse)

definition from_utf8 :: "bytes \<Rightarrow> rstring option" where
  "from_utf8 bs = (if utf8_valid bs then Some (string_of_valid bs) else None)"

lemma from_utf8_Some [simp]: "from_utf8 bs = Some s \<longleftrightarrow> bs = str_bytes s"
  by (auto simp: from_utf8_def simp flip: str_bytes_eq_iff)

lemma from_utf8_None [simp]: "from_utf8 bs = None \<longleftrightarrow> \<not> utf8_valid bs"
  by (simp add: from_utf8_def)

lemma utf8_valid_append: "utf8_valid a \<Longrightarrow> utf8_valid b \<Longrightarrow> utf8_valid (a @ b)"
proof (induction a rule: utf8_valid.induct)
  case (2 x xs)
  show ?case
  proof (cases "unat x < 0x80")
    case True
    with 2 show ?thesis by simp
  next
    case x: False
    with 2 obtain c cs where xs: "xs = c # cs" by (cases xs) auto
    show ?thesis
    proof (cases "in_range 0xC2 0xDF x")
      case True
      with 2 x xs show ?thesis by simp
    next
      case x2: False
      with 2 x xs obtain d ds where cs: "cs = d # ds" by (cases cs) auto
      show ?thesis
      proof (cases "in_range 0xE0 0xEF x")
        case True
        with 2 x x2 xs cs show ?thesis by simp
      next
        case x3: False
        with 2 x x2 xs cs obtain e es where "ds = e # es" by (cases ds) auto
        with 2 x x2 x3 xs cs show ?thesis by simp
      qed
    qed
  qed
qed simp

definition str_append :: "rstring \<Rightarrow> rstring \<Rightarrow> rstring" where
  "str_append s t = string_of_valid (str_bytes s @ str_bytes t)"

lemma str_bytes_append [simp]: "str_bytes (str_append s t) = str_bytes s @ str_bytes t"
  by (simp add: str_append_def utf8_valid_append)

text \<open>A string literal of the source, given by its ASCII characters.\<close>

definition ascii_bytes :: "string \<Rightarrow> bytes" where
  "ascii_bytes = map (\<lambda>c. word_of_nat (of_char c mod 128))"

lemma utf8_valid_ascii_bytes [simp]: "utf8_valid (ascii_bytes s)"
proof -
  have "unat (word_of_nat (of_char c mod 128) :: u8) < 0x80" for c :: char
  proof -
    have "(of_char c mod 128 :: nat) < 128" by simp
    then show ?thesis by (simp add: unat_of_nat)
  qed
  then show ?thesis
    by (intro utf8_valid_ascii) (auto simp: ascii_bytes_def)
qed

definition str_lit :: "string \<Rightarrow> rstring" where
  "str_lit s = string_of_valid (ascii_bytes s)"

lemma str_bytes_lit [simp]: "str_bytes (str_lit s) = ascii_bytes s"
  by (simp add: str_lit_def)

lemma str_lit_eq_iff [simp]: "str_lit s = str_lit t \<longleftrightarrow> ascii_bytes s = ascii_bytes t"
  by (simp flip: str_bytes_eq_iff)

instantiation rstring :: equal
begin

definition equal_rstring :: "rstring \<Rightarrow> rstring \<Rightarrow> bool" where
  "equal_rstring a b \<longleftrightarrow> str_bytes a = str_bytes b"

instance by standard (simp add: equal_rstring_def)

end

instantiation rstring :: linorder
begin

definition less_eq_rstring :: "rstring \<Rightarrow> rstring \<Rightarrow> bool" where
  "less_eq_rstring a b \<longleftrightarrow> str_bytes a \<le> str_bytes b"

definition less_rstring :: "rstring \<Rightarrow> rstring \<Rightarrow> bool" where
  "less_rstring a b \<longleftrightarrow> str_bytes a < str_bytes b"

instance by standard (auto simp: less_eq_rstring_def less_rstring_def less_le_not_le)

end

section \<open>Ordered maps\<close>

text \<open>
  A \<^verbatim>\<open>BTreeMap\<close> is a finite map; its iterator yields the entries in ascending key order,
  which is \<open>sorted_list_of_fmap\<close>. \<^verbatim>\<open>insert\<close> is \<open>fmupd\<close>, \<^verbatim>\<open>remove\<close> is \<open>fmdrop\<close> and
  \<^verbatim>\<open>append\<close> is \<open>fmadd\<close> (the appended entries win).
\<close>

abbreviation entries :: "('k::linorder, 'v) fmap \<Rightarrow> ('k \<times> 'v) list" where
  "entries \<equiv> sorted_list_of_fmap"

abbreviation fm_len :: "('k, 'v) fmap \<Rightarrow> nat" where
  "fm_len m \<equiv> fcard (fmdom m)"

lemma map_fst_entries [btree_simps]: "map fst (entries m) = sorted_list_of_fset (fmdom m)"
  by (simp add: sorted_list_of_fmap_def o_def)

lemma distinct_entries [simp]: "distinct (map fst (entries m))"
  by (simp add: map_fst_entries sorted_list_of_fset.rep_eq)

lemma sorted_entries [simp]: "sorted (map fst (entries m))"
  by (simp add: map_fst_entries sorted_list_of_fset.rep_eq)

lemma length_entries [btree_simps]: "length (entries m) = fm_len m"
proof -
  have "length (entries m) = card (set (map fst (entries m)))"
    using distinct_card [OF distinct_entries [of m]] by simp
  then show ?thesis by (simp add: map_fst_entries fcard.rep_eq)
qed

lemma map_of_entries [btree_simps]: "map_of (entries m) = fmlookup m"
proof
  fix k
  have "map_of (map (\<lambda>k. (k, the (fmlookup m k))) ks) k
      = (if k \<in> set ks then Some (the (fmlookup m k)) else None)" for ks
    by (induction ks) auto
  then show "map_of (entries m) k = fmlookup m k"
    by (cases "fmlookup m k") (auto simp: sorted_list_of_fmap_def fmlookup_dom_iff fmdom_notI)
qed

lemma set_entries [btree_simps]: "(k, v) \<in> set (entries m) \<longleftrightarrow> fmlookup m k = Some v"
  using map_of_eq_Some_iff [OF distinct_entries [of m]] by (simp add: map_of_entries)

lemma entries_fmempty [simp]: "entries fmempty = []"
  by (simp add: sorted_list_of_fmap_def sorted_list_of_fset.rep_eq)

text \<open>Filling an empty map from a list with distinct keys, one \<^verbatim>\<open>insert\<close> per pair.\<close>

definition insert_all :: "('k \<times> 'v) list \<Rightarrow> ('k, 'v) fmap \<Rightarrow> ('k, 'v) fmap" where
  "insert_all = fold (\<lambda>(k, v). fmupd k v)"

lemma insert_all_simps [simp]:
  "insert_all [] m = m"
  "insert_all ((k, v) # kvs) m = insert_all kvs (fmupd k v m)"
  by (simp_all add: insert_all_def)

lemma insert_all_lookup:
  "distinct (map fst kvs) \<Longrightarrow>
   fmlookup (insert_all kvs m) k =
     (case map_of kvs k of Some v \<Rightarrow> Some v | None \<Rightarrow> fmlookup m k)"
proof (induction kvs arbitrary: m)
  case Nil
  then show ?case by simp
next
  case (Cons kv kvs)
  obtain k' v' where kv: "kv = (k', v')" by (cases kv)
  have "map_of kvs k' = None"
    using Cons.prems kv by (simp add: map_of_eq_None_iff)
  with Cons kv show ?case by (auto split: option.splits)
qed

lemma insert_all_entries [btree_simps]: "insert_all (entries m) fmempty = m"
  by (rule fmap_ext) (simp add: insert_all_lookup map_of_entries split: option.splits)

text \<open>Ascending entries of a map built by inserting a fresh key: used to evaluate closed maps.\<close>

lemma sorted_list_of_fset_finsert [btree_simps]:
  "x |\<notin>| S \<Longrightarrow> sorted_list_of_fset (finsert x S) = insort x (sorted_list_of_fset S)"
  by (simp add: sorted_list_of_fset.rep_eq sorted_list_of_set_insert)

lemma fm_len_fmupd [btree_simps]:
  "fm_len (fmupd k v m) = (if k |\<in>| fmdom m then fm_len m else Suc (fm_len m))"
  by (simp add: finsert_absorb fcard_finsert_disjoint)

lemma fm_len_fmdrop [btree_simps]:
  "fm_len (fmdrop k m) = (if k |\<in>| fmdom m then fm_len m - 1 else fm_len m)"
  by (simp add: fcard.rep_eq)

end
