(* ===== verification/Bytesrepr.thy ===== *)
theory Bytesrepr
  imports Rust_Data
begin

text \<open>
  \<^verbatim>\<open>types/src/bytesrepr.rs\<close>: the serialization every stored value and every message goes through.
  An implementation of \<^verbatim>\<open>ToBytes\<close> is a function \<open>'a \<Rightarrow> (bytes, bytesrepr_error) result\<close> and one
  of \<^verbatim>\<open>FromBytes\<close> a function \<open>bytes \<Rightarrow> ('a \<times> bytes, bytesrepr_error) result\<close> that also returns
  the bytes it did not consume; the generic implementations take those of their components as
  arguments. Allocation is taken to succeed, so the \<^verbatim>\<open>try_reserve_exact\<close> calls are transparent.

  The locale \<open>codec\<close> is the contract of the two traits: what was written is read back, whatever
  follows it in the stream. Every implementation of the development interprets it.
\<close>

named_theorems codec_intros \<open>codec instances of the serializers\<close>

section \<open>Errors and the trait contract\<close>

datatype bytesrepr_error = EarlyEndOfStream | FormattingError | LeftOverBytes | OutOfMemoryError

type_synonym 'a ser = "'a \<Rightarrow> (bytes, bytesrepr_error) result"
type_synonym 'a de = "bytes \<Rightarrow> ('a \<times> bytes, bytesrepr_error) result"

definition deserialize :: "'a de \<Rightarrow> bytes \<Rightarrow> ('a, bytesrepr_error) result" where
  "deserialize de bs =
     and_then (de bs) (\<lambda>(t, remainder). if remainder = [] then Ok t else Err LeftOverBytes)"

definition safe_split_at :: "bytes \<Rightarrow> nat \<Rightarrow> (bytes \<times> bytes, bytesrepr_error) result" where
  "safe_split_at bs n =
     (if length bs < n then Err EarlyEndOfStream else Ok (take n bs, drop n bs))"

lemma safe_split_at_append [simp]: "length bs = n \<Longrightarrow> safe_split_at (bs @ rest) n = Ok (bs, rest)"
  by (simp add: safe_split_at_def)

locale codec =
  fixes ser :: "'a ser" and de :: "'a de" and valid :: "'a \<Rightarrow> bool"
  assumes roundtrip: "valid x \<Longrightarrow> ser x = Ok bs \<Longrightarrow> de (bs @ rest) = Ok (x, rest)"
begin

lemma deserialize_ser: "valid x \<Longrightarrow> ser x = Ok bs \<Longrightarrow> deserialize de bs = Ok x"
  using roundtrip [of x bs "[]"] by (simp add: deserialize_def)

lemma ser_inj: "valid x \<Longrightarrow> valid y \<Longrightarrow> ser x = Ok bs \<Longrightarrow> ser y = Ok bs \<Longrightarrow> x = y"
  using deserialize_ser [of x bs] deserialize_ser [of y bs] by simp

text \<open>No encoding is a proper prefix of another one.\<close>

lemma ser_prefix_free:
  assumes "valid x" "valid y" "ser x = Ok bs" "ser y = Ok cs" "prefix bs cs"
  shows "x = y" "bs = cs"
proof -
  obtain r where cs: "cs = bs @ r" using assms(5) by (auto elim: prefixE)
  have "de (bs @ r) = Ok (x, r)" using assms(1,3) by (rule roundtrip)
  moreover have "de (cs @ []) = Ok (y, [])" using assms(2,4) by (rule roundtrip)
  ultimately show "x = y" "bs = cs" using cs by simp_all
qed

end

section \<open>Repetition in a stream\<close>

text \<open>\<^verbatim>\<open>for _ in 0..size\<close> over a stream, and \<^verbatim>\<open>collect::<Result<Vec<_>, _>>()\<close> followed by \<^verbatim>\<open>flatten\<close>.\<close>

fun de_n :: "'a de \<Rightarrow> nat \<Rightarrow> ('a list) de" where
  "de_n de 0 bs = Ok ([], bs)"
| "de_n de (Suc n) bs =
     and_then (de bs) (\<lambda>(x, rem). and_then (de_n de n rem) (\<lambda>(xs, rem'). Ok (x # xs, rem')))"

fun ser_concat :: "'a ser \<Rightarrow> ('a list) ser" where
  "ser_concat ser [] = Ok []"
| "ser_concat ser (x # xs) =
     and_then (ser x) (\<lambda>b. and_then (ser_concat ser xs) (\<lambda>bs. Ok (b @ bs)))"

context codec
begin

lemma de_n_ser_concat:
  "\<forall>x \<in> set xs. valid x \<Longrightarrow> ser_concat ser xs = Ok bs \<Longrightarrow>
   de_n de (length xs) (bs @ rest) = Ok (xs, rest)"
proof (induction xs arbitrary: bs)
  case (Cons x xs)
  then obtain b c where "ser x = Ok b" "ser_concat ser xs = Ok c" "bs = b @ c"
    by (auto simp: result_simps)
  then show ?case using Cons roundtrip [of x b "c @ rest"] by simp
qed simp

end

lemma length_ser_concat:
  assumes "ser_concat ser xs = Ok bs" "\<And>x b. ser x = Ok b \<Longrightarrow> length b = n"
  shows "length bs = n * length xs"
  using assms(1)
proof (induction xs arbitrary: bs)
  case (Cons x xs)
  then obtain b c where "ser x = Ok b" "ser_concat ser xs = Ok c" "bs = b @ c"
    by (auto simp: result_simps)
  then show ?case using Cons.IH assms(2) by simp
qed simp

section \<open>Primitive types\<close>

definition u8_to_bytes :: "u8 ser" where
  "u8_to_bytes b = Ok [b]"

fun u8_from_bytes :: "u8 de" where
  "u8_from_bytes [] = Err EarlyEndOfStream"
| "u8_from_bytes (b # rem) = Ok (b, rem)"

definition bool_to_bytes :: "bool ser" where
  "bool_to_bytes b = u8_to_bytes (if b then 1 else 0)"

fun bool_from_bytes :: "bool de" where
  "bool_from_bytes [] = Err EarlyEndOfStream"
| "bool_from_bytes (b # rem) =
     (if b = 1 then Ok (True, rem) else if b = 0 then Ok (False, rem) else Err FormattingError)"

text \<open>The fixed-width integers, \<^verbatim>\<open>n\<close> little-endian bytes each.\<close>

definition int_to_bytes :: "nat \<Rightarrow> ('n::len word) ser" where
  "int_to_bytes n w = Ok (to_le_bytes n w)"

definition int_from_bytes :: "nat \<Rightarrow> ('n::len word) de" where
  "int_from_bytes n bs =
     and_then (safe_split_at bs n) (\<lambda>(b, rem). Ok (from_le_bytes b, rem))"

definition i32_to_bytes :: "i32 ser" where "i32_to_bytes = int_to_bytes 4"
definition i32_from_bytes :: "i32 de" where "i32_from_bytes = int_from_bytes 4"
definition u32_to_bytes :: "u32 ser" where "u32_to_bytes = int_to_bytes 4"
definition u32_from_bytes :: "u32 de" where "u32_from_bytes = int_from_bytes 4"
definition u64_to_bytes :: "u64 ser" where "u64_to_bytes = int_to_bytes 8"
definition u64_from_bytes :: "u64 de" where "u64_from_bytes = int_from_bytes 8"
definition i64_to_bytes :: "i64 ser" where "i64_to_bytes = int_to_bytes 8"
definition i64_from_bytes :: "i64 de" where "i64_from_bytes = int_from_bytes 8"

lemmas int_codec_defs = int_to_bytes_def int_from_bytes_def
  i32_to_bytes_def i32_from_bytes_def u32_to_bytes_def u32_from_bytes_def
  u64_to_bytes_def u64_from_bytes_def i64_to_bytes_def i64_from_bytes_def

definition unit_to_bytes :: "unit ser" where
  "unit_to_bytes u = Ok []"

definition unit_from_bytes :: "unit de" where
  "unit_from_bytes bs = Ok ((), bs)"

interpretation u8c: codec u8_to_bytes u8_from_bytes "\<lambda>_. True"
  by unfold_locales (auto simp: u8_to_bytes_def)

interpretation boolc: codec bool_to_bytes bool_from_bytes "\<lambda>_. True"
  by unfold_locales (auto simp: bool_to_bytes_def u8_to_bytes_def split: if_splits)

lemma int_codec:
  "LENGTH('n) = 8 * n \<Longrightarrow> codec int_to_bytes_n int_from_bytes_n (\<lambda>_. True)"
  if "int_to_bytes_n = (int_to_bytes n :: ('n::len word) ser)"
    and "int_from_bytes_n = (int_from_bytes n :: ('n::len word) de)"
  by unfold_locales (auto simp: that int_codec_defs from_to_le_bytes)

interpretation i32c: codec i32_to_bytes i32_from_bytes "\<lambda>_. True"
  by (rule int_codec [OF i32_to_bytes_def i32_from_bytes_def]) simp

interpretation u32c: codec u32_to_bytes u32_from_bytes "\<lambda>_. True"
  by (rule int_codec [OF u32_to_bytes_def u32_from_bytes_def]) simp

interpretation u64c: codec u64_to_bytes u64_from_bytes "\<lambda>_. True"
  by (rule int_codec [OF u64_to_bytes_def u64_from_bytes_def]) simp

interpretation i64c: codec i64_to_bytes i64_from_bytes "\<lambda>_. True"
  by (rule int_codec [OF i64_to_bytes_def i64_from_bytes_def]) simp

interpretation unitc: codec unit_to_bytes unit_from_bytes "\<lambda>_. True"
  by unfold_locales (auto simp: unit_to_bytes_def unit_from_bytes_def)

lemma u32_to_bytes_Ok [simp]: "u32_to_bytes w = Ok (to_le_bytes 4 w)"
  by (simp add: int_codec_defs)

lemma u32_from_bytes_append [simp]: "u32_from_bytes (to_le_bytes 4 w @ rest) = Ok (w, rest)"
  using u32c.roundtrip [of w "to_le_bytes 4 w" rest] by simp

section \<open>Length-prefixed vectors\<close>

text \<open>\<^verbatim>\<open>self.len() as u32\<close>: the length is truncated to 32 bits.\<close>

definition len_prefix :: "nat \<Rightarrow> bytes" where
  "len_prefix n = to_le_bytes 4 (word_of_nat n :: u32)"

lemma length_len_prefix [simp]: "length (len_prefix n) = 4"
  by (simp add: len_prefix_def)

lemma u32_from_len_prefix [simp]:
  "u32_from_bytes (len_prefix n @ rest) = Ok (word_of_nat n, rest)"
  by (simp add: len_prefix_def)

lemma unat_len [simp]: "n \<le> u32_max \<Longrightarrow> unat (word_of_nat n :: u32) = n"
  by (simp add: unat_of_nat)

definition vec_u8_to_bytes :: "bytes ser" where
  "vec_u8_to_bytes v =
     (if length v \<ge> u32_max - 4 then Err OutOfMemoryError
      else Ok (len_prefix (length v) @ v))"

definition vec_u8_from_bytes :: "bytes de" where
  "vec_u8_from_bytes bs =
     and_then (u32_from_bytes bs) (\<lambda>(size, rem). safe_split_at rem (unat size))"

interpretation vec_u8c: codec vec_u8_to_bytes vec_u8_from_bytes "\<lambda>_. True"
  by unfold_locales (auto simp: vec_u8_to_bytes_def vec_u8_from_bytes_def split: if_splits)

text \<open>The common shape of \<^verbatim>\<open>FromBytes for Vec<T>\<close> and of the unchecked \<^verbatim>\<open>ToBytes for Vec<T>\<close>.\<close>

definition vec_from_bytes :: "'a de \<Rightarrow> ('a list) de" where
  "vec_from_bytes de bs =
     and_then (u32_from_bytes bs) (\<lambda>(size, stream). de_n de (unat size) stream)"

definition vec_to_bytes :: "'a ser \<Rightarrow> ('a list) ser" where
  "vec_to_bytes ser xs =
     and_then (ser_concat ser xs) (\<lambda>bs. Ok (len_prefix (length xs) @ bs))"

lemma vec_roundtrip:
  assumes "codec ser de valid" "\<forall>x \<in> set xs. valid x" "length xs \<le> u32_max"
    and "ser_concat ser xs = Ok bs"
  shows "vec_from_bytes de (len_prefix (length xs) @ bs @ rest) = Ok (xs, rest)"
  using assms by (simp add: vec_from_bytes_def codec.de_n_ser_concat)

lemma vec_codec [codec_intros]:
  "codec ser de valid \<Longrightarrow>
   codec (vec_to_bytes ser) (vec_from_bytes de)
     (\<lambda>xs. length xs \<le> u32_max \<and> (\<forall>x \<in> set xs. valid x))"
  by (rule codec.intro) (auto simp: vec_to_bytes_def result_simps vec_roundtrip)

definition vec_i32_to_bytes :: "(i32 list) ser" where
  "vec_i32_to_bytes v =
     (if length v * 4 \<ge> u32_max - 4 then Err OutOfMemoryError else vec_to_bytes i32_to_bytes v)"

definition vec_i32_from_bytes :: "(i32 list) de" where
  "vec_i32_from_bytes = vec_from_bytes i32_from_bytes"

interpretation vec_i32c: codec vec_i32_to_bytes vec_i32_from_bytes "\<lambda>_. True"
proof unfold_locales
  fix x bs rest
  assume "vec_i32_to_bytes x = Ok bs"
  then have "vec_to_bytes i32_to_bytes x = Ok bs" "length x \<le> u32_max"
    by (auto simp: vec_i32_to_bytes_def split: if_splits)
  then show "vec_i32_from_bytes (bs @ rest) = Ok (x, rest)"
    using codec.roundtrip [OF vec_codec [OF i32c.codec_axioms]]
    by (auto simp: vec_i32_from_bytes_def)
qed

definition vec_vec_u8_to_bytes :: "(bytes list) ser" where
  "vec_vec_u8_to_bytes v =
     (let serialized_len = sum_list (map length v) + 4 * (length v + 1)
      in if serialized_len > u32_max then Err OutOfMemoryError
         else vec_to_bytes vec_u8_to_bytes v)"

definition vec_vec_u8_from_bytes :: "(bytes list) de" where
  "vec_vec_u8_from_bytes = vec_from_bytes vec_u8_from_bytes"

interpretation vec_vec_u8c: codec vec_vec_u8_to_bytes vec_vec_u8_from_bytes "\<lambda>_. True"
proof unfold_locales
  fix x bs rest
  assume "vec_vec_u8_to_bytes x = Ok bs"
  then have "vec_to_bytes vec_u8_to_bytes x = Ok bs" "length x \<le> u32_max"
    by (auto simp: vec_vec_u8_to_bytes_def Let_def split: if_splits)
  then show "vec_vec_u8_from_bytes (bs @ rest) = Ok (x, rest)"
    using codec.roundtrip [OF vec_codec [OF vec_u8c.codec_axioms]]
    by (auto simp: vec_vec_u8_from_bytes_def)
qed

section \<open>Arrays\<close>

text \<open>
  \<^verbatim>\<open>[T; N]\<close>: the length, checked on reading, and the elements; \<open>size_of\<close> is \<^verbatim>\<open>size_of::<T>()\<close>. The byte arrays
  of length 4, 5, 8 and 32 are specialised to their bare bytes.
\<close>

definition array_to_bytes :: "nat \<Rightarrow> nat \<Rightarrow> 'a ser \<Rightarrow> ('a list) ser" where
  "array_to_bytes N size_of ser xs =
     (if N * size_of \<ge> u32_max then Err OutOfMemoryError
      else and_then (ser_concat ser xs) (\<lambda>bs. Ok (len_prefix N @ bs)))"

definition array_from_bytes :: "nat \<Rightarrow> 'a de \<Rightarrow> ('a list) de" where
  "array_from_bytes N de bs =
     and_then (u32_from_bytes bs) (\<lambda>(size, remainder).
       if size \<noteq> word_of_nat N then Err FormattingError else de_n de N remainder)"

lemma array_codec [codec_intros]:
  "codec ser de valid \<Longrightarrow>
   codec (array_to_bytes N size_of ser) (array_from_bytes N de)
     (\<lambda>xs. length xs = N \<and> (\<forall>x \<in> set xs. valid x))"
  by (rule codec.intro)
    (auto simp: array_to_bytes_def array_from_bytes_def result_simps codec.de_n_ser_concat
      split: if_splits)

definition array32_to_bytes :: "array32 ser" where
  "array32_to_bytes a = Ok (array_bytes a)"

definition array32_from_bytes :: "array32 de" where
  "array32_from_bytes bs =
     and_then (safe_split_at bs 32) (\<lambda>(b, rem).
       and_then (expect (array32_of_slice b)) (\<lambda>a. Ok (a, rem)))"

interpretation array32c: codec array32_to_bytes array32_from_bytes "\<lambda>_. True"
  by unfold_locales (auto simp: array32_to_bytes_def array32_from_bytes_def)

lemma array32_from_bytes_no_panic: "array32_from_bytes bs \<noteq> Panic"
  by (auto simp: array32_from_bytes_def safe_split_at_def array32_of_slice_def)

section \<open>Strings, options, results, tuples\<close>

definition str_to_bytes :: "rstring ser" where
  "str_to_bytes s =
     (if length (str_bytes s) \<ge> u32_max - 4 then Err OutOfMemoryError
      else vec_u8_to_bytes (str_bytes s))"

definition string_from_bytes :: "rstring de" where
  "string_from_bytes bs =
     and_then (vec_u8_from_bytes bs) (\<lambda>(b, rem).
       and_then (ok_or (from_utf8 b) FormattingError) (\<lambda>s. Ok (s, rem)))"

interpretation strc: codec str_to_bytes string_from_bytes "\<lambda>_. True"
proof unfold_locales
  fix x bs rest
  assume "str_to_bytes x = Ok bs"
  then have "vec_u8_from_bytes (bs @ rest) = Ok (str_bytes x, rest)"
    by (auto simp: str_to_bytes_def intro!: vec_u8c.roundtrip split: if_splits)
  moreover have "from_utf8 (str_bytes x) = Some x" by simp
  ultimately show "string_from_bytes (bs @ rest) = Ok (x, rest)"
    by (simp add: string_from_bytes_def del: from_utf8_Some)
qed

definition vec_string_to_bytes :: "(rstring list) ser" where
  "vec_string_to_bytes = vec_to_bytes str_to_bytes"

definition vec_string_from_bytes :: "(rstring list) de" where
  "vec_string_from_bytes = vec_from_bytes string_from_bytes"

interpretation vec_stringc: codec vec_string_to_bytes vec_string_from_bytes "\<lambda>v. length v \<le> u32_max"
  using vec_codec [OF strc.codec_axioms] by (simp add: vec_string_to_bytes_def vec_string_from_bytes_def)

fun option_to_bytes :: "'a ser \<Rightarrow> ('a option) ser" where
  "option_to_bytes ser (Some v) =
     and_then (ser v) (\<lambda>value.
       if length value \<ge> u32_max - 1 then Err OutOfMemoryError else Ok (1 # value))"
| "option_to_bytes ser None = Ok [0]"

definition option_from_bytes :: "'a de \<Rightarrow> ('a option) de" where
  "option_from_bytes de bs =
     and_then (u8_from_bytes bs) (\<lambda>(tag, rem).
       if tag = 0 then Ok (None, rem)
       else if tag = 1 then and_then (de rem) (\<lambda>(t, rem'). Ok (Some t, rem'))
       else Err FormattingError)"

lemma option_codec [codec_intros]:
  "codec ser de valid \<Longrightarrow>
   codec (option_to_bytes ser) (option_from_bytes de) (pred_option valid)"
proof (rule codec.intro)
  fix x bs rest
  assume "codec ser de valid" "pred_option valid x" "option_to_bytes ser x = Ok bs"
  then show "option_from_bytes de (bs @ rest) = Ok (x, rest)"
    by (cases x; clarsimp simp: result_simps split: if_splits)
      (simp_all add: option_from_bytes_def codec.roundtrip)
qed

text \<open>The serialized \<^verbatim>\<open>Result\<close> is a value of a sum type (\<open>Inr\<close> for \<^verbatim>\<open>Ok\<close>).\<close>

fun result_to_bytes :: "'a ser \<Rightarrow> 'b ser \<Rightarrow> ('b + 'a) ser" where
  "result_to_bytes ser_t ser_e (Inr t) = and_then (ser_t t) (\<lambda>value. Ok (1 # value))"
| "result_to_bytes ser_t ser_e (Inl e) = and_then (ser_e e) (\<lambda>value. Ok (0 # value))"

definition result_from_bytes :: "'a de \<Rightarrow> 'b de \<Rightarrow> ('b + 'a) de" where
  "result_from_bytes de_t de_e bs =
     and_then (u8_from_bytes bs) (\<lambda>(variant, rem).
       if variant = 0 then and_then (de_e rem) (\<lambda>(v, rem'). Ok (Inl v, rem'))
       else if variant = 1 then and_then (de_t rem) (\<lambda>(v, rem'). Ok (Inr v, rem'))
       else Err FormattingError)"

lemma result_codec [codec_intros]:
  assumes "codec ser_t de_t vt" "codec ser_e de_e ve"
  shows "codec (result_to_bytes ser_t ser_e) (result_from_bytes de_t de_e) (pred_sum ve vt)"
proof (rule codec.intro)
  fix x bs rest
  assume "pred_sum ve vt x" "result_to_bytes ser_t ser_e x = Ok bs"
  then show "result_from_bytes de_t de_e (bs @ rest) = Ok (x, rest)"
    using assms
    by (cases x; clarsimp simp: result_simps) (simp_all add: result_from_bytes_def codec.roundtrip)
qed

definition pair_to_bytes :: "'a ser \<Rightarrow> 'b ser \<Rightarrow> ('a \<times> 'b) ser" where
  "pair_to_bytes s1 s2 t =
     and_then (s1 (fst t)) (\<lambda>b1. and_then (s2 (snd t)) (\<lambda>b2. Ok (b1 @ b2)))"

definition pair_from_bytes :: "'a de \<Rightarrow> 'b de \<Rightarrow> ('a \<times> 'b) de" where
  "pair_from_bytes d1 d2 bs =
     and_then (d1 bs) (\<lambda>(t1, rem). and_then (d2 rem) (\<lambda>(t2, rem'). Ok ((t1, t2), rem')))"

lemma pair_codec [codec_intros]:
  "codec s1 d1 v1 \<Longrightarrow> codec s2 d2 v2 \<Longrightarrow>
   codec (pair_to_bytes s1 s2) (pair_from_bytes d1 d2) (pred_prod v1 v2)"
  by (rule codec.intro)
    (auto simp: pair_to_bytes_def pair_from_bytes_def result_simps codec.roundtrip)

definition triple_to_bytes :: "'a ser \<Rightarrow> 'b ser \<Rightarrow> 'c ser \<Rightarrow> ('a \<times> 'b \<times> 'c) ser" where
  "triple_to_bytes s1 s2 s3 t =
     and_then (s1 (fst t)) (\<lambda>b1. and_then (s2 (fst (snd t))) (\<lambda>b2.
       and_then (s3 (snd (snd t))) (\<lambda>b3. Ok (b1 @ b2 @ b3))))"

definition triple_from_bytes :: "'a de \<Rightarrow> 'b de \<Rightarrow> 'c de \<Rightarrow> ('a \<times> 'b \<times> 'c) de" where
  "triple_from_bytes d1 d2 d3 bs =
     and_then (d1 bs) (\<lambda>(t1, rem). and_then (d2 rem) (\<lambda>(t2, rem').
       and_then (d3 rem') (\<lambda>(t3, rem''). Ok ((t1, t2, t3), rem''))))"

lemma triple_codec [codec_intros]:
  "codec s1 d1 v1 \<Longrightarrow> codec s2 d2 v2 \<Longrightarrow> codec s3 d3 v3 \<Longrightarrow>
   codec (triple_to_bytes s1 s2 s3) (triple_from_bytes d1 d2 d3) (pred_prod v1 (pred_prod v2 v3))"
  by (rule codec.intro)
    (auto simp: triple_to_bytes_def triple_from_bytes_def result_simps codec.roundtrip)

section \<open>Ordered maps\<close>

text \<open>
  The iterator of a \<^verbatim>\<open>BTreeMap\<close> is ascending. The capacity guard reads the lower bound of the
  size hint of a fresh \<^verbatim>\<open>flatten\<close>, which is 0.
\<close>

definition btree_to_bytes :: "'k ser \<Rightarrow> 'v ser \<Rightarrow> (('k::linorder, 'v) fmap) ser" where
  "btree_to_bytes ser_k ser_v m =
     and_then (ser_concat (pair_to_bytes ser_k ser_v) (entries m)) (\<lambda>bs.
       let lower_bound = 0 in
       if lower_bound \<ge> u32_max - 4 then Err OutOfMemoryError
       else Ok (len_prefix (fm_len m) @ bs))"

fun btree_from_entries ::
    "'k de \<Rightarrow> 'v de \<Rightarrow> nat \<Rightarrow> ('k, 'v) fmap \<Rightarrow> (('k, 'v) fmap) de" where
  "btree_from_entries de_k de_v 0 m stream = Ok (m, stream)"
| "btree_from_entries de_k de_v (Suc n) m stream =
     and_then (de_k stream) (\<lambda>(k, rem). and_then (de_v rem) (\<lambda>(v, rem').
       btree_from_entries de_k de_v n (fmupd k v m) rem'))"

definition btree_from_bytes :: "'k de \<Rightarrow> 'v de \<Rightarrow> (('k::linorder, 'v) fmap) de" where
  "btree_from_bytes de_k de_v bs =
     and_then (u32_from_bytes bs) (\<lambda>(num_keys, stream).
       btree_from_entries de_k de_v (unat num_keys) fmempty stream)"

lemma btree_from_entries_de_n:
  "btree_from_entries de_k de_v n m stream =
     and_then (de_n (pair_from_bytes de_k de_v) n stream) (\<lambda>(kvs, rem). Ok (insert_all kvs m, rem))"
proof (induction n arbitrary: m stream)
  case 0
  then show ?case by simp
next
  case (Suc n)
  then show ?case by (simp add: pair_from_bytes_def and_then_assoc case_prod_unfold)
qed

lemma btree_codec [codec_intros]:
  assumes "codec ser_k de_k vk" "codec ser_v de_v vv"
  shows "codec (btree_to_bytes ser_k ser_v) (btree_from_bytes de_k de_v)
     (\<lambda>m. fm_len m \<le> u32_max \<and> (\<forall>kv \<in> set (entries m). pred_prod vk vv kv))"
proof (rule codec.intro)
  fix m bs rest
  assume v: "fm_len m \<le> u32_max \<and> (\<forall>kv \<in> set (entries m). pred_prod vk vv kv)"
    and "btree_to_bytes ser_k ser_v m = Ok bs"
  then obtain b where b: "ser_concat (pair_to_bytes ser_k ser_v) (entries m) = Ok b"
    and bs: "bs = len_prefix (fm_len m) @ b"
    by (auto simp: btree_to_bytes_def result_simps split: if_splits)
  have "de_n (pair_from_bytes de_k de_v) (fm_len m) (b @ rest) = Ok (entries m, rest)"
    using codec.de_n_ser_concat [OF pair_codec [OF assms], of "entries m" b rest] v b
    by (simp add: length_entries)
  then show "btree_from_bytes de_k de_v (bs @ rest) = Ok (m, rest)"
    using v bs by (simp add: btree_from_bytes_def btree_from_entries_de_n insert_all_entries)
qed

end
