(* ===== verification/Trie.thy ===== *)
theory Trie
  imports Bytesrepr
begin

text \<open>
  \<^verbatim>\<open>engine-storage/src/trie/mod.rs\<close> and the hash newtype of \<^verbatim>\<open>engine-shared/src/newtypes/mod.rs\<close>: the
  elements of the Merkle trie and their serialization. A pointer block, an array of \<^verbatim>\<open>RADIX\<close> = 256
  entries that is indexed by bytes only, is a function on bytes. The 32 byte BLAKE2b digest of the
  \<^verbatim>\<open>blake2\<close> crate is an argument \<open>H\<close> of the functions that hash.
\<close>

section \<open>Elements\<close>

type_synonym blake2b_hash = array32

definition blake2b_to_bytes :: "blake2b_hash ser" where "blake2b_to_bytes h = array32_to_bytes h"
definition blake2b_from_bytes :: "blake2b_hash de" where "blake2b_from_bytes = array32_from_bytes"

datatype pointer = LeafPointer blake2b_hash | NodePointer blake2b_hash

fun pointer_hash :: "pointer \<Rightarrow> blake2b_hash" where
  "pointer_hash (LeafPointer h) = h"
| "pointer_hash (NodePointer h) = h"

fun pointer_update :: "pointer \<Rightarrow> blake2b_hash \<Rightarrow> pointer" where
  "pointer_update (LeafPointer _) h = LeafPointer h"
| "pointer_update (NodePointer _) h = NodePointer h"

fun pointer_tag :: "pointer \<Rightarrow> u32" where
  "pointer_tag (LeafPointer _) = 0"
| "pointer_tag (NodePointer _) = 1"

definition pointer_to_bytes :: "pointer ser" where
  "pointer_to_bytes p =
     and_then (blake2b_to_bytes (pointer_hash p)) (\<lambda>hash_bytes.
       and_then (u32_to_bytes (pointer_tag p)) (\<lambda>tag_bytes. Ok (tag_bytes @ hash_bytes)))"

definition pointer_from_bytes :: "pointer de" where
  "pointer_from_bytes bs =
     and_then (u32_from_bytes bs) (\<lambda>(tag, rem).
       if tag = 0 then and_then (blake2b_from_bytes rem) (\<lambda>(h, rem). Ok (LeafPointer h, rem))
       else if tag = 1 then and_then (blake2b_from_bytes rem) (\<lambda>(h, rem). Ok (NodePointer h, rem))
       else Err FormattingError)"

type_synonym pointer_block = "u8 \<Rightarrow> pointer option"

definition RADIX :: nat where "RADIX = 256"

definition pointer_block_new :: pointer_block where
  "pointer_block_new = (\<lambda>_. None)"

definition from_indexed_pointers :: "(u8 \<times> pointer) list \<Rightarrow> pointer_block" where
  "from_indexed_pointers ips = foldl (\<lambda>ret (idx, ptr). ret(idx := Some ptr)) pointer_block_new ips"

text \<open>The array behind a pointer block; an optional pointer takes 33 bytes of memory.\<close>

definition block_list :: "pointer_block \<Rightarrow> pointer option list" where
  "block_list pb = map (\<lambda>i. pb (word_of_nat i)) [0..<RADIX]"

definition list_block :: "pointer option list \<Rightarrow> pointer_block" where
  "list_block xs = (\<lambda>i. xs ! unat i)"

definition pointer_block_to_bytes :: "pointer_block ser" where
  "pointer_block_to_bytes pb = array_to_bytes RADIX 33 (option_to_bytes pointer_to_bytes) (block_list pb)"

definition pointer_block_from_bytes :: "pointer_block de" where
  "pointer_block_from_bytes bs =
     and_then (array_from_bytes RADIX (option_from_bytes pointer_from_bytes) bs) (\<lambda>(arr, rem).
       Ok (list_block arr, rem))"

datatype ('k, 'v) trie =
    Leaf 'k 'v
  | Node pointer_block
  | Extension bytes pointer

fun trie_tag :: "('k, 'v) trie \<Rightarrow> u32" where
  "trie_tag (Leaf _ _) = 0"
| "trie_tag (Node _) = 1"
| "trie_tag (Extension _ _) = 2"

definition trie_node :: "(u8 \<times> pointer) list \<Rightarrow> ('k, 'v) trie" where
  "trie_node ips = Node (from_indexed_pointers ips)"

fun trie_key :: "('k, 'v) trie \<Rightarrow> 'k option" where
  "trie_key (Leaf k _) = Some k"
| "trie_key _ = None"

definition trie_to_bytes :: "'k ser \<Rightarrow> 'v ser \<Rightarrow> (('k, 'v) trie) ser" where
  "trie_to_bytes ser_k ser_v t =
     (case t of
        Leaf k v \<Rightarrow>
          and_then (ser_k k) (\<lambda>key_bytes. and_then (ser_v v) (\<lambda>value_bytes.
            if length key_bytes + length value_bytes > u32_max - 4 then Err OutOfMemoryError
            else and_then (u32_to_bytes (trie_tag t)) (\<lambda>tag_bytes.
              Ok (tag_bytes @ key_bytes @ value_bytes))))
      | Node pb \<Rightarrow>
          and_then (pointer_block_to_bytes pb) (\<lambda>pointer_block_bytes.
            and_then (u32_to_bytes (trie_tag t)) (\<lambda>tag_bytes.
              Ok (tag_bytes @ pointer_block_bytes)))
      | Extension affix p \<Rightarrow>
          and_then (vec_u8_to_bytes affix) (\<lambda>affix_bytes.
            and_then (pointer_to_bytes p) (\<lambda>pointer_bytes.
              if length affix_bytes + length pointer_bytes > u32_max - 4 then Err OutOfMemoryError
              else and_then (u32_to_bytes (trie_tag t)) (\<lambda>tag_bytes.
                Ok (tag_bytes @ affix_bytes @ pointer_bytes)))))"

definition trie_from_bytes :: "'k de \<Rightarrow> 'v de \<Rightarrow> (('k, 'v) trie) de" where
  "trie_from_bytes de_k de_v bs =
     and_then (u32_from_bytes bs) (\<lambda>(tag, rem).
       if tag = 0 then
         and_then (de_k rem) (\<lambda>(k, rem). and_then (de_v rem) (\<lambda>(v, rem). Ok (Leaf k v, rem)))
       else if tag = 1 then
         and_then (pointer_block_from_bytes rem) (\<lambda>(pb, rem). Ok (Node pb, rem))
       else if tag = 2 then
         and_then (vec_u8_from_bytes rem) (\<lambda>(a, rem).
           and_then (pointer_from_bytes rem) (\<lambda>(p, rem). Ok (Extension a p, rem)))
       else Err FormattingError)"

definition create_hashed_empty_trie ::
    "(bytes \<Rightarrow> blake2b_hash) \<Rightarrow> (('k, 'v) trie) ser \<Rightarrow>
     (blake2b_hash \<times> ('k, 'v) trie, bytesrepr_error) result" where
  "create_hashed_empty_trie H ser =
     (let root = Node pointer_block_new
      in and_then (ser root) (\<lambda>root_bytes. Ok (H root_bytes, root)))"

section \<open>Round trips\<close>

lemma length_block_list [simp]: "length (block_list pb) = RADIX"
  by (simp add: block_list_def)

lemma list_block_list [simp]: "list_block (block_list pb) = pb"
proof
  fix i :: u8
  have "unat i < 256" using unat_lt_pow [of i] by simp
  then show "list_block (block_list pb) i = pb i"
    by (simp add: list_block_def block_list_def RADIX_def)
qed

interpretation pointerc: codec pointer_to_bytes pointer_from_bytes "\<lambda>_. True"
proof unfold_locales
  fix p bs rest
  assume "pointer_to_bytes p = Ok bs"
  then show "pointer_from_bytes (bs @ rest) = Ok (p, rest)"
    by (cases p; clarsimp simp: pointer_to_bytes_def blake2b_to_bytes_def result_simps)
      (simp_all add: pointer_from_bytes_def blake2b_from_bytes_def array32c.roundtrip)
qed

interpretation pointer_blockc: codec pointer_block_to_bytes pointer_block_from_bytes "\<lambda>_. True"
proof unfold_locales
  fix pb bs rest
  assume "pointer_block_to_bytes pb = Ok bs"
  then have "array_from_bytes RADIX (option_from_bytes pointer_from_bytes) (bs @ rest) =
      Ok (block_list pb, rest)"
    unfolding pointer_block_to_bytes_def
    by (rule codec.roundtrip [OF array_codec [OF option_codec [OF pointerc.codec_axioms]], rotated])
      (simp add: pred_option_def)
  then show "pointer_block_from_bytes (bs @ rest) = Ok (pb, rest)"
    by (simp add: pointer_block_from_bytes_def)
qed

definition trie_valid :: "('k \<Rightarrow> bool) \<Rightarrow> ('v \<Rightarrow> bool) \<Rightarrow> ('k, 'v) trie \<Rightarrow> bool" where
  "trie_valid vk vv t \<longleftrightarrow> (case t of Leaf k v \<Rightarrow> vk k \<and> vv v | _ \<Rightarrow> True)"

lemma trie_codec [codec_intros]:
  assumes "codec ser_k de_k vk" "codec ser_v de_v vv"
  shows "codec (trie_to_bytes ser_k ser_v) (trie_from_bytes de_k de_v) (trie_valid vk vv)"
proof (rule codec.intro)
  fix t bs rest
  assume "trie_valid vk vv t" "trie_to_bytes ser_k ser_v t = Ok bs"
  then show "trie_from_bytes de_k de_v (bs @ rest) = Ok (t, rest)"
    using assms
    by (cases t; clarsimp simp: trie_to_bytes_def result_simps trie_valid_def split: if_splits)
      (simp_all add: trie_from_bytes_def codec.roundtrip pointer_blockc.roundtrip
        vec_u8c.roundtrip pointerc.roundtrip)
qed

text \<open>Serialization of pointers and nodes always succeeds, that of extensions with a short affix too.\<close>

lemma pointer_to_bytes_Ok: "\<exists>b. pointer_to_bytes p = Ok b \<and> length b = 36"
  by (simp add: pointer_to_bytes_def blake2b_to_bytes_def array32_to_bytes_def)

lemma option_pointer_to_bytes_Ok: "\<exists>b. option_to_bytes pointer_to_bytes p = Ok b"
proof (cases p)
  case (Some q)
  then show ?thesis using pointer_to_bytes_Ok [of q] by auto
qed simp

lemma ser_concat_Ok: "(\<And>x. \<exists>b. ser x = Ok b) \<Longrightarrow> \<exists>b. ser_concat ser xs = Ok b"
proof (induction xs)
  case (Cons x xs)
  then obtain b c where "ser x = Ok b" "ser_concat ser xs = Ok c" by blast
  then show ?case by simp
qed simp

lemma node_to_bytes_Ok: "\<exists>b. trie_to_bytes ser_k ser_v (Node pb) = Ok b"
  using ser_concat_Ok [of "option_to_bytes pointer_to_bytes" "block_list pb"]
    option_pointer_to_bytes_Ok
  by (auto simp: trie_to_bytes_def pointer_block_to_bytes_def array_to_bytes_def RADIX_def)

lemma extension_to_bytes_Ok:
  "length a \<le> 1000 \<Longrightarrow> \<exists>b. trie_to_bytes ser_k ser_v (Extension a p) = Ok b"
  using pointer_to_bytes_Ok [of p] by (auto simp: trie_to_bytes_def vec_u8_to_bytes_def)

end
