(* ===== verification/Trie_Ops.thy ===== *)
theory Trie_Ops
  imports Trie
begin

text \<open>
  \<^verbatim>\<open>engine-storage/src/trie_store/operations/mod.rs\<close>: reading from and writing to a Merkle trie held in a
  store. The operations take the store's \<open>get\<close> and \<open>put\<close> (the trait \<^verbatim>\<open>TrieStore\<close> with a transaction), the
  serializers of keys and of trie elements and the hash function \<open>H\<close> as arguments. The loops of
  \<^verbatim>\<open>read\<close> and \<^verbatim>\<open>scan\<close> may run forever on a store whose pointers form a cycle, so they are partial functions
  and \<open>None\<close> is a loop that does not end. Logging of metrics is left out.

  The file holds the definitions; \<open>Trie_Correct\<close> has the theorems.
\<close>

datatype storage_error = BytesRepr bytesrepr_error | PoisonError

type_synonym ('k, 'v) getter = "blake2b_hash \<Rightarrow> (('k, 'v) trie option, storage_error) result"
type_synonym ('s, 'k, 'v) putter =
  "'s \<Rightarrow> blake2b_hash \<Rightarrow> ('k, 'v) trie \<Rightarrow> (unit, storage_error) result \<times> 's"
type_synonym ('k, 'v) parents = "(u8 \<times> ('k, 'v) trie) list"

section \<open>Read\<close>

datatype 'v read_result = Found 'v | NotFound | RootNotFound

partial_function (option) read_loop ::
    "('k, 'v) getter \<Rightarrow> 'k \<Rightarrow> bytes \<Rightarrow> nat \<Rightarrow> ('k, 'v) trie \<Rightarrow>
     ('v read_result, storage_error) result option" where
  "read_loop get key path depth current =
     (case current of
        Leaf leaf_key leaf_value \<Rightarrow>
          Some (Ok (if key = leaf_key then Found leaf_value else NotFound))
      | Node pointer_block \<Rightarrow>
          if \<not> depth < length path then Some Panic
          else (case pointer_block (path ! depth) of
              Some pointer \<Rightarrow>
                (case get (pointer_hash pointer) of
                   Ok (Some next) \<Rightarrow> read_loop get key path (depth + 1) next
                 | Ok None \<Rightarrow> Some Panic
                 | Err e \<Rightarrow> Some (Err e)
                 | Panic \<Rightarrow> Some Panic)
            | None \<Rightarrow> Some (Ok NotFound))
      | Extension affix pointer \<Rightarrow>
          if length path < depth + length affix then Some Panic
          else if take (length affix) (drop depth path) = affix then
            (case get (pointer_hash pointer) of
               Ok (Some next) \<Rightarrow> read_loop get key path (depth + length affix) next
             | Ok None \<Rightarrow> Some Panic
             | Err e \<Rightarrow> Some (Err e)
             | Panic \<Rightarrow> Some Panic)
          else Some (Ok NotFound))"

definition trie_read ::
    "('k, 'v) getter \<Rightarrow> 'k ser \<Rightarrow> blake2b_hash \<Rightarrow> 'k \<Rightarrow> ('v read_result, storage_error) result option"
where
  "trie_read get key_to_bytes root key =
     (case map_err BytesRepr (key_to_bytes key) of
        Ok path \<Rightarrow>
          (case get root of
             Ok (Some current) \<Rightarrow> read_loop get key path 0 current
           | Ok None \<Rightarrow> Some (Ok RootNotFound)
           | Err e \<Rightarrow> Some (Err e)
           | Panic \<Rightarrow> Some Panic)
      | Err e \<Rightarrow> Some (Err e)
      | Panic \<Rightarrow> Some Panic)"

section \<open>Scan\<close>

text \<open>A \<^verbatim>\<open>TrieScan\<close> is the pair of its tip and its parents.\<close>

type_synonym ('k, 'v) trie_scan = "('k, 'v) trie \<times> ('k, 'v) parents"

partial_function (option) scan_loop ::
    "('k, 'v) getter \<Rightarrow> bytes \<Rightarrow> nat \<Rightarrow> ('k, 'v) trie \<Rightarrow> ('k, 'v) parents \<Rightarrow>
     (('k, 'v) trie_scan, storage_error) result option" where
  "scan_loop get path depth current acc =
     (case current of
        Leaf leaf_key leaf_value \<Rightarrow> Some (Ok (Leaf leaf_key leaf_value, acc))
      | Node pointer_block \<Rightarrow>
          if \<not> depth < length path then Some Panic
          else (case pointer_block (path ! depth) of
              Some pointer \<Rightarrow>
                (case get (pointer_hash pointer) of
                   Ok (Some next) \<Rightarrow>
                     scan_loop get path (depth + 1) next (acc @ [(path ! depth, Node pointer_block)])
                 | Ok None \<Rightarrow> Some Panic
                 | Err e \<Rightarrow> Some (Err e)
                 | Panic \<Rightarrow> Some Panic)
            | None \<Rightarrow> Some (Ok (Node pointer_block, acc)))
      | Extension affix pointer \<Rightarrow>
          if length path < depth + length affix then Some Panic
          else if take (length affix) (drop depth path) \<noteq> affix then
            Some (Ok (Extension affix pointer, acc))
          else
            (case get (pointer_hash pointer) of
               Ok (Some next) \<Rightarrow>
                 if \<not> depth < length path then Some Panic
                 else scan_loop get path (depth + length affix) next
                        (acc @ [(path ! depth, Extension affix pointer)])
             | Ok None \<Rightarrow> Some Panic
             | Err e \<Rightarrow> Some (Err e)
             | Panic \<Rightarrow> Some Panic))"

definition scan ::
    "('k, 'v) getter \<Rightarrow> bytes \<Rightarrow> ('k, 'v) trie \<Rightarrow> (('k, 'v) trie_scan, storage_error) result option" where
  "scan get key_bytes root = scan_loop get key_bytes 0 root []"

section \<open>Rehashing\<close>

text \<open>The pointer a node keeps to an element.\<close>

fun tip_pointer :: "('k, 'v) trie \<Rightarrow> blake2b_hash \<Rightarrow> pointer" where
  "tip_pointer (Leaf _ _) tip_hash = LeafPointer tip_hash"
| "tip_pointer (Node _) tip_hash = NodePointer tip_hash"
| "tip_pointer (Extension _ _) tip_hash = NodePointer tip_hash"

fun rehash_loop ::
    "(bytes \<Rightarrow> blake2b_hash) \<Rightarrow> (('k, 'v) trie) ser \<Rightarrow> ('k, 'v) trie \<Rightarrow> blake2b_hash \<Rightarrow>
     (blake2b_hash \<times> ('k, 'v) trie) list \<Rightarrow> ('k, 'v) parents \<Rightarrow>
     ((blake2b_hash \<times> ('k, 'v) trie) list, bytesrepr_error) result" where
  "rehash_loop H ser tip tip_hash ret [] = Ok ret"
| "rehash_loop H ser tip tip_hash ret ((index, parent) # rest) =
     (case parent of
        Leaf _ _ \<Rightarrow> Panic
      | Node pointer_block \<Rightarrow>
          let tip' = Node (pointer_block(index := Some (tip_pointer tip tip_hash)))
          in and_then (ser tip') (\<lambda>node_bytes.
            rehash_loop H ser tip' (H node_bytes) (ret @ [(H node_bytes, tip')]) rest)
      | Extension affix pointer \<Rightarrow>
          let tip' = Extension affix (pointer_update pointer tip_hash)
          in and_then (ser tip') (\<lambda>extension_bytes.
            rehash_loop H ser tip' (H extension_bytes) (ret @ [(H extension_bytes, tip')]) rest))"

definition rehash ::
    "(bytes \<Rightarrow> blake2b_hash) \<Rightarrow> (('k, 'v) trie) ser \<Rightarrow> ('k, 'v) trie \<Rightarrow> ('k, 'v) parents \<Rightarrow>
     ((blake2b_hash \<times> ('k, 'v) trie) list, bytesrepr_error) result" where
  "rehash H ser tip parents =
     and_then (ser tip) (\<lambda>trie_bytes.
       rehash_loop H ser tip (H trie_bytes) [(H trie_bytes, tip)] (rev parents))"

section \<open>Paths and parents\<close>

definition common_prefix :: "'a list \<Rightarrow> 'a list \<Rightarrow> 'a list" where
  "common_prefix ls rs = map fst (takeWhile (\<lambda>(l, r). l = r) (zip ls rs))"

fun get_parents_path :: "('k, 'v) parents \<Rightarrow> bytes" where
  "get_parents_path [] = []"
| "get_parents_path ((index, element) # rest) =
     (case element of Extension affix _ \<Rightarrow> affix | _ \<Rightarrow> [index]) @ get_parents_path rest"

fun is_node :: "('k, 'v) trie \<Rightarrow> bool" where
  "is_node (Node _) = True"
| "is_node _ = False"

definition add_node_to_parents ::
    "bytes \<Rightarrow> ('k, 'v) trie \<Rightarrow> ('k, 'v) parents \<Rightarrow> (('k, 'v) parents, bytesrepr_error) result" where
  "add_node_to_parents path_to_leaf new_parent_node parents =
     (if \<not> is_node new_parent_node then Panic
      else
        let path_to_node = get_parents_path parents;
            current_path = common_prefix path_to_leaf path_to_node
        in if current_path \<noteq> path_to_node then Panic
           else
             let depth = length path_to_node
             in if \<not> depth < length path_to_leaf then Panic
                else Ok (parents @ [(path_to_leaf ! depth, new_parent_node)]))"

definition reparent_leaf ::
    "(bytes \<Rightarrow> blake2b_hash) \<Rightarrow> (('k, 'v) trie) ser \<Rightarrow> bytes \<Rightarrow> bytes \<Rightarrow> ('k, 'v) parents \<Rightarrow>
     (('k, 'v) trie \<times> ('k, 'v) parents, bytesrepr_error) result" where
  "reparent_leaf H ser new_leaf_path existing_leaf_path parents =
     (if parents = [] then Panic
      else case last parents of
        (child_index, Node pointer_block) \<Rightarrow>
          let shared_path = common_prefix new_leaf_path existing_leaf_path
          in if \<not> length shared_path < length existing_leaf_path then Panic
             else
               let index = existing_leaf_path ! length shared_path
               in case pointer_block child_index of
                    None \<Rightarrow> Panic
                  | Some existing_leaf_pointer \<Rightarrow>
                      let new_node = trie_node [(index, existing_leaf_pointer)];
                          parents' = butlast parents @ [(child_index, Node pointer_block)];
                          parents_path = get_parents_path parents'
                      in if length shared_path < length parents_path then Panic
                         else
                           let affix = drop (length parents_path) shared_path
                           in if affix \<noteq> [] then
                                and_then (ser new_node) (\<lambda>new_node_bytes.
                                  Ok (new_node, parents' @
                                    [(child_index,
                                      Extension affix (NodePointer (H new_node_bytes)))]))
                              else Ok (new_node, parents')
      | _ \<Rightarrow> Panic)"

text \<open>A \<^verbatim>\<open>SplitResult\<close>: the new node, the parents and the child extension with its hash, if any.\<close>

definition split_extension ::
    "(bytes \<Rightarrow> blake2b_hash) \<Rightarrow> (('k, 'v) trie) ser \<Rightarrow> bytes \<Rightarrow> ('k, 'v) trie \<Rightarrow> ('k, 'v) parents \<Rightarrow>
     (('k, 'v) trie \<times> ('k, 'v) parents \<times> (blake2b_hash \<times> ('k, 'v) trie) option,
      bytesrepr_error) result" where
  "split_extension H ser new_leaf_path existing_extension parents =
     (case existing_extension of
        Extension affix pointer \<Rightarrow>
          let parents_path = get_parents_path parents;
              existing_extension_path = parents_path @ affix;
              shared_path = common_prefix new_leaf_path existing_extension_path
          in if length shared_path < length parents_path then Panic
             else
               let parent_extension_affix = drop (length parents_path) shared_path
               in if length affix < length parent_extension_affix + 1 then Panic
                  else
                    let child_extension_affix = drop (length parent_extension_affix + 1) affix
                    in and_then
                         (if child_extension_affix = [] then Ok None
                          else
                            let child_extension = Extension child_extension_affix pointer
                            in and_then (ser child_extension) (\<lambda>child_extension_bytes.
                                 Ok (Some (H child_extension_bytes, child_extension))))
                         (\<lambda>maybe_hashed_child_extension.
                            if \<not> length shared_path < length existing_extension_path then Panic
                            else
                              let index = existing_extension_path ! length shared_path;
                                  new_pointer = (case maybe_hashed_child_extension of
                                      Some (hash, _) \<Rightarrow> NodePointer hash
                                    | None \<Rightarrow> pointer);
                                  new_node = trie_node [(index, new_pointer)]
                              in if parent_extension_affix \<noteq> [] then
                                   and_then (ser new_node) (\<lambda>new_node_bytes.
                                     Ok (new_node,
                                         parents @ [(parent_extension_affix ! 0,
                                           Extension parent_extension_affix
                                             (NodePointer (H new_node_bytes)))],
                                         maybe_hashed_child_extension))
                                 else Ok (new_node, parents, maybe_hashed_child_extension))
      | _ \<Rightarrow> Panic)"

section \<open>Write\<close>

datatype write_result = Written blake2b_hash | AlreadyExists | Write_RootNotFound

text \<open>The \<^verbatim>\<open>match tip\<close> of \<^verbatim>\<open>write\<close>: the elements to store, children before their parents.\<close>

definition new_elements ::
    "(bytes \<Rightarrow> blake2b_hash) \<Rightarrow> 'k ser \<Rightarrow> (('k, 'v) trie) ser \<Rightarrow> 'k \<Rightarrow> 'v \<Rightarrow> bytes \<Rightarrow>
     ('k, 'v) trie \<Rightarrow> ('k, 'v) parents \<Rightarrow>
     ((blake2b_hash \<times> ('k, 'v) trie) list, bytesrepr_error) result" where
  "new_elements H key_to_bytes ser key value path tip parents =
     (let new_leaf = Leaf key value in
      case tip of
        Leaf leaf_key leaf_value \<Rightarrow>
          if new_leaf = tip then Ok []
          else if key = leaf_key \<and> value \<noteq> leaf_value then rehash H ser new_leaf parents
          else if key \<noteq> leaf_key then
            and_then (key_to_bytes leaf_key) (\<lambda>existing_leaf_path.
              and_then (reparent_leaf H ser path existing_leaf_path parents) (\<lambda>(new_node, parents).
                and_then (add_node_to_parents path new_node parents) (\<lambda>parents.
                  rehash H ser new_leaf parents)))
          else Panic
      | Node _ \<Rightarrow>
          and_then (add_node_to_parents path tip parents) (\<lambda>parents.
            rehash H ser new_leaf parents)
      | Extension _ _ \<Rightarrow>
          and_then (split_extension H ser path tip parents)
            (\<lambda>(new_node, parents, maybe_hashed_child_extension).
              and_then (add_node_to_parents path new_node parents) (\<lambda>parents.
                case maybe_hashed_child_extension of
                  Some hashed_extension \<Rightarrow>
                    and_then (rehash H ser new_leaf parents) (\<lambda>els. Ok (hashed_extension # els))
                | None \<Rightarrow> rehash H ser new_leaf parents)))"

text \<open>The loop that stores the elements; the last hash is the new root.\<close>

fun put_all ::
    "('s, 'k, 'v) putter \<Rightarrow> 's \<Rightarrow> blake2b_hash \<Rightarrow> (blake2b_hash \<times> ('k, 'v) trie) list \<Rightarrow>
     (blake2b_hash, storage_error) result \<times> 's" where
  "put_all put s root_hash [] = (Ok root_hash, s)"
| "put_all put s root_hash ((hash, element) # els) =
     (case put s hash element of
        (Ok _, s') \<Rightarrow> put_all put s' hash els
      | (Err e, s') \<Rightarrow> (Err e, s')
      | (Panic, s') \<Rightarrow> (Panic, s'))"

definition trie_write ::
    "('s \<Rightarrow> ('k, 'v) getter) \<Rightarrow> ('s, 'k, 'v) putter \<Rightarrow> (bytes \<Rightarrow> blake2b_hash) \<Rightarrow> 'k ser \<Rightarrow>
     (('k, 'v) trie) ser \<Rightarrow> 's \<Rightarrow> blake2b_hash \<Rightarrow> 'k \<Rightarrow> 'v \<Rightarrow>
     ((write_result, storage_error) result \<times> 's) option" where
  "trie_write get put H key_to_bytes ser s root key value =
     (case get s root of
        Ok None \<Rightarrow> Some (Ok Write_RootNotFound, s)
      | Ok (Some current_root) \<Rightarrow>
          (case map_err BytesRepr (key_to_bytes key) of
             Ok path \<Rightarrow>
               Option.bind (scan (get s) path current_root) (\<lambda>scanned.
                 case and_then scanned (\<lambda>(tip, parents).
                     map_err BytesRepr (new_elements H key_to_bytes ser key value path tip parents)) of
                   Ok els \<Rightarrow>
                     if els = [] then Some (Ok AlreadyExists, s)
                     else (case put_all put s root els of
                         (r, s') \<Rightarrow> Some (and_then r (\<lambda>root_hash. Ok (Written root_hash)), s'))
                 | Err e \<Rightarrow> Some (Err e, s)
                 | Panic \<Rightarrow> Some (Panic, s))
           | Err e \<Rightarrow> Some (Err e, s)
           | Panic \<Rightarrow> Some (Panic, s))
      | Err e \<Rightarrow> Some (Err e, s)
      | Panic \<Rightarrow> Some (Panic, s))"

end
