(* ===== verification/Trie_Correct.thy ===== *)
theory Trie_Correct
  imports Trie_Ops
begin

text \<open>
  Correctness of the trie operations. \<open>trie_repr kb s \<pi> t m\<close> says that the element \<open>t\<close>, found in the
  store \<open>s\<close> at the end of the path \<open>\<pi>\<close>, holds the finite map \<open>m\<close>; \<open>kb\<close> gives the bytes of a key. It also says
  that pointers carry the right tag, that affixes are not empty and that a node below the root has at
  least two children.

  The locale \<open>trie_keys\<close> is what the trie needs of the encoding of keys, \<open>trie_store\<close> what it needs of the
  store. Inside them: a read returns what the map holds and never panics; a write returns the hash
  of a root that represents the updated map, in a store that extends the old one.
\<close>

section \<open>Representation\<close>

type_synonym ('k, 'v) store = "blake2b_hash \<rightharpoonup> ('k, 'v) trie"

definition branching :: "pointer_block \<Rightarrow> bool" where
  "branching pb \<longleftrightarrow> (\<exists>i j. i \<noteq> j \<and> pb i \<noteq> None \<and> pb j \<noteq> None)"

inductive trie_repr :: "('k \<Rightarrow> bytes) \<Rightarrow> ('k, 'v) store \<Rightarrow> bytes \<Rightarrow> ('k, 'v) trie \<Rightarrow> ('k \<rightharpoonup> 'v) \<Rightarrow> bool"
  for kb :: "'k \<Rightarrow> bytes" and s :: "('k, 'v) store" where
  Leaf: "prefix \<pi> (kb k) \<Longrightarrow> trie_repr kb s \<pi> (Leaf k v) [k \<mapsto> v]"
| Node: "\<lbrakk>\<And>i p. pb i = Some p \<Longrightarrow> s (pointer_hash p) = Some (T i);
         \<And>i p. pb i = Some p \<Longrightarrow> p = tip_pointer (T i) (pointer_hash p);
         \<And>i p. pb i = Some p \<Longrightarrow> M i \<noteq> Map.empty;
         \<And>i p. pb i = Some p \<Longrightarrow> trie_repr kb s (\<pi> @ [i]) (T i) (M i);
         \<And>i. pb i = None \<Longrightarrow> M i = Map.empty; \<pi> = [] \<or> branching pb\<rbrakk> \<Longrightarrow>
   trie_repr kb s \<pi> (Node pb) (\<lambda>k. if strict_prefix \<pi> (kb k) then M (kb k ! length \<pi>) k else None)"
| Extension: "\<lbrakk>a \<noteq> []; s h = Some (Node pb); trie_repr kb s (\<pi> @ a) (Node pb) m; m \<noteq> Map.empty\<rbrakk> \<Longrightarrow>
   trie_repr kb s \<pi> (Extension a (NodePointer h)) m"

inductive_cases trie_repr_LeafE: "trie_repr kb s \<pi> (Leaf k v) m"
inductive_cases trie_repr_NodeE: "trie_repr kb s \<pi> (Node pb) m"
inductive_cases trie_repr_ExtensionE: "trie_repr kb s \<pi> (Extension a p) m"

lemma trie_repr_prefix: "trie_repr kb s \<pi> t m \<Longrightarrow> m k = Some v \<Longrightarrow> prefix \<pi> (kb k)"
proof (induction arbitrary: k v rule: trie_repr.induct)
  case (Leaf \<pi> l w)
  then show ?case by (simp split: if_splits)
next
  case (Node pb T M \<pi>)
  then show ?case by (auto simp: strict_prefix_def split: if_splits)
next
  case (Extension a h pb \<pi> m)
  then show ?case by (meson append_prefixD)
qed

lemma trie_repr_None: "trie_repr kb s \<pi> t m \<Longrightarrow> \<not> prefix \<pi> (kb k) \<Longrightarrow> m k = None"
  using trie_repr_prefix by fastforce

lemma trie_repr_Node_strict:
  "trie_repr kb s \<pi> (Node pb) m \<Longrightarrow> m k = Some v \<Longrightarrow> strict_prefix \<pi> (kb k)"
  by (erule trie_repr_NodeE) (auto split: if_splits)

lemma trie_repr_mono: "trie_repr kb s \<pi> t m \<Longrightarrow> s \<subseteq>\<^sub>m s' \<Longrightarrow> trie_repr kb s' \<pi> t m"
proof (induction rule: trie_repr.induct)
  case (Leaf \<pi> k v)
  show ?case using Leaf.hyps by (rule trie_repr.Leaf)
next
  case (Node pb T M \<pi>)
  have "s' (pointer_hash p) = Some (T i)" if "pb i = Some p" for i p
    using Node.hyps(1) [OF that] Node.prems by (auto simp: map_le_def dom_def)
  with Node show ?case by (intro trie_repr.Node [where T = T]) auto
next
  case (Extension a h pb \<pi> m)
  then show ?case by (intro trie_repr.Extension) (auto simp: map_le_def dom_def)
qed

section \<open>Common prefixes\<close>

lemma common_prefix_simps [simp]:
  "common_prefix [] ys = []" "common_prefix xs [] = []"
  "common_prefix (x # xs) (y # ys) = (if x = y then x # common_prefix xs ys else [])"
  by (simp_all add: common_prefix_def)

lemma common_prefix_prefix: "prefix (common_prefix xs ys) xs" "prefix (common_prefix xs ys) ys"
  by (induction xs ys rule: list_induct2') auto

lemma common_prefix_greatest: "prefix zs xs \<Longrightarrow> prefix zs ys \<Longrightarrow> prefix zs (common_prefix xs ys)"
proof (induction zs arbitrary: xs ys)
  case (Cons z zs)
  then show ?case by (cases xs; cases ys) auto
qed simp

lemma common_prefix_absorb: "prefix ys xs \<Longrightarrow> common_prefix xs ys = ys"
  using common_prefix_greatest [of ys xs ys] common_prefix_prefix(2) [of xs ys] prefix_order.antisym
  by blast

lemma common_prefix_short:
  "\<not> prefix xs ys \<Longrightarrow> length (common_prefix xs ys) < length xs"
  "\<not> prefix ys xs \<Longrightarrow> length (common_prefix xs ys) < length ys"
  by (induction xs ys rule: list_induct2') auto

lemma common_prefix_differ:
  "length (common_prefix xs ys) < length xs \<Longrightarrow> length (common_prefix xs ys) < length ys \<Longrightarrow>
   xs ! length (common_prefix xs ys) \<noteq> ys ! length (common_prefix xs ys)"
  by (induction xs ys rule: list_induct2') auto

lemma get_parents_path_append [simp]:
  "get_parents_path (ps @ qs) = get_parents_path ps @ get_parents_path qs"
  by (induction ps rule: get_parents_path.induct) auto

section \<open>Reading\<close>

locale trie_keys =
  fixes kb :: "'k \<Rightarrow> bytes"
  assumes kb_prefix_free: "prefix (kb k) (kb l) \<Longrightarrow> k = l"
    and kb_not_Nil: "kb k \<noteq> []"
    and kb_length_near: "hd (kb k) = hd (kb l) \<Longrightarrow> length (kb l) \<le> length (kb k) + 1"
    and kb_short: "length (kb k) \<le> 1000"
begin

text \<open>A path at which there is a non-empty node is not the whole encoding of a key.\<close>

lemma node_path_strict:
  assumes "trie_repr kb s \<pi> (Node pb) m" "prefix \<pi> (kb k)" "\<pi> = [] \<or> m \<noteq> Map.empty"
  shows "strict_prefix \<pi> (kb k)"
proof (cases "\<pi> = []")
  case True
  then show ?thesis using kb_not_Nil [of k] by (simp add: strict_prefix_def)
next
  case False
  then obtain l v where "m l = Some v" using assms(3) by (auto simp: fun_eq_iff)
  then have "strict_prefix \<pi> (kb l)" by (rule trie_repr_Node_strict [OF assms(1)])
  then show ?thesis using assms(2) kb_prefix_free [of k l] by (auto simp: strict_prefix_def)
qed

text \<open>The slice \<^verbatim>\<open>path[depth..depth + affix.len()]\<close> is in range.\<close>

lemma extension_in_range:
  assumes "trie_repr kb s (\<pi> @ a) (Node pb) m" "m \<noteq> Map.empty" "prefix \<pi> (kb k)" "\<pi> \<noteq> []"
  shows "length \<pi> + length a \<le> length (kb k)"
proof -
  obtain l v where "m l = Some v" using assms(2) by (auto simp: fun_eq_iff)
  then have l: "strict_prefix (\<pi> @ a) (kb l)" by (rule trie_repr_Node_strict [OF assms(1)])
  then have "prefix \<pi> (kb l)" by (meson append_prefixD prefix_order.less_imp_le)
  then have "hd (kb k) = hd (kb l)"
    using assms(3,4) by (metis hd_append2 prefixE)
  then show ?thesis
    using kb_length_near [of k l] prefix_length_less [OF l] by simp
qed

lemma strict_prefix_index:
  "strict_prefix \<pi> xs \<Longrightarrow> length \<pi> < length xs \<and> prefix (\<pi> @ [xs ! length \<pi>]) xs"
  by (auto simp: strict_prefix_def prefix_def nth_append neq_Nil_conv)

lemma read_loop_correct:
  assumes "trie_repr kb s \<pi> t m" "\<And>h. get h = Ok (s h)" "prefix \<pi> (kb k)"
    "\<pi> = [] \<Longrightarrow> is_node t" "\<pi> = [] \<or> m \<noteq> Map.empty"
  shows "read_loop get k (kb k) (length \<pi>) t =
    Some (Ok (case m k of Some v \<Rightarrow> Found v | None \<Rightarrow> NotFound))"
  using assms
proof (induction rule: trie_repr.induct)
  case (Leaf \<pi> l v)
  then show ?case by (subst read_loop.simps) auto
next
  case (Node pb T M \<pi>)
  have st: "strict_prefix \<pi> (kb k)"
    using node_path_strict [OF trie_repr.Node [of pb s T M kb \<pi>] Node.prems(2)] Node by blast
  let ?i = "kb k ! length \<pi>"
  show ?case
  proof (cases "pb ?i")
    case None
    then show ?thesis
      using Node strict_prefix_index [OF st] st by (subst read_loop.simps) simp
  next
    case (Some p)
    have "read_loop get k (kb k) (length (\<pi> @ [?i])) (T ?i) =
        Some (Ok (case M ?i k of Some v \<Rightarrow> Found v | None \<Rightarrow> NotFound))"
      using Node Some strict_prefix_index [OF st] by blast
    then show ?thesis
      using Node.hyps(1) [OF Some] Node.prems strict_prefix_index [OF st] st Some
      by (subst read_loop.simps) simp
  qed
next
  case (Extension a h pb \<pi> m)
  then have "\<pi> \<noteq> []" by auto
  then have len: "length \<pi> + length a \<le> length (kb k)"
    using extension_in_range Extension by blast
  obtain z where z: "kb k = \<pi> @ z" using Extension.prems(2) by (auto elim: prefixE)
  show ?case
  proof (cases "take (length a) (drop (length \<pi>) (kb k)) = a")
    case True
    then have "prefix (\<pi> @ a) (kb k)" using z by (metis append_take_drop_id append_eq_conv_conj prefixI append.assoc)
    then have "read_loop get k (kb k) (length (\<pi> @ a)) (Node pb) =
        Some (Ok (case m k of Some v \<Rightarrow> Found v | None \<Rightarrow> NotFound))"
      using Extension by (intro Extension.IH) auto
    then show ?thesis
      using Extension True len by (subst read_loop.simps) simp
  next
    case False
    then have "\<not> prefix (\<pi> @ a) (kb k)" using z by (auto simp: prefix_def)
    then have "m k = None" using trie_repr_None [OF Extension.hyps(3)] by blast
    then show ?thesis using False len by (subst read_loop.simps) simp
  qed
qed

end

section \<open>Scanning\<close>

text \<open>The parents that lead from an element to a tip, in the store \<open>s\<close>.\<close>

inductive spine :: "('k, 'v) store \<Rightarrow> ('k, 'v) trie \<Rightarrow> ('k, 'v) parents \<Rightarrow> ('k, 'v) trie \<Rightarrow> bool"
  for s :: "('k, 'v) store" where
  Nil: "spine s t [] t"
| Node: "\<lbrakk>pb i = Some p; s (pointer_hash p) = Some t; spine s t ps tip\<rbrakk> \<Longrightarrow>
   spine s (Node pb) ((i, Node pb) # ps) tip"
| Extension: "\<lbrakk>s (pointer_hash p) = Some t; spine s t ps tip\<rbrakk> \<Longrightarrow>
   spine s (Extension a p) ((i, Extension a p) # ps) tip"

fun is_extension :: "('k, 'v) trie \<Rightarrow> bool" where
  "is_extension (Extension _ _) = True"
| "is_extension _ = False"

text \<open>The element below an extension is a node.\<close>

definition tip_fits :: "('k, 'v) parents \<Rightarrow> ('k, 'v) trie \<Rightarrow> bool" where
  "tip_fits ps t \<longleftrightarrow> (ps \<noteq> [] \<and> is_extension (snd (last ps)) \<longrightarrow> is_node t)"

text \<open>Why a scan for the path \<open>path\<close> stops at an element at the end of \<open>\<pi>\<close>.\<close>

fun scan_stops :: "bytes \<Rightarrow> bytes \<Rightarrow> ('k, 'v) trie \<Rightarrow> bool" where
  "scan_stops path \<pi> (Leaf _ _) \<longleftrightarrow> True"
| "scan_stops path \<pi> (Node pb) \<longleftrightarrow> length \<pi> < length path \<and> pb (path ! length \<pi>) = None"
| "scan_stops path \<pi> (Extension a p) \<longleftrightarrow>
     length (\<pi> @ a) \<le> length path \<and> \<not> prefix (\<pi> @ a) path"

definition scan_result ::
    "('k \<Rightarrow> bytes) \<Rightarrow> ('k, 'v) store \<Rightarrow> 'k \<Rightarrow> bytes \<Rightarrow> ('k, 'v) trie \<Rightarrow> ('k \<rightharpoonup> 'v) \<Rightarrow>
     ('k, 'v) trie \<Rightarrow> ('k, 'v) parents \<Rightarrow> ('k \<rightharpoonup> 'v) \<Rightarrow> bool" where
  "scan_result kb s k \<pi> t m tip ps mt \<longleftrightarrow>
     (let \<pi>' = \<pi> @ get_parents_path ps in
      spine s t ps tip \<and> prefix \<pi>' (kb k) \<and> trie_repr kb s \<pi>' tip mt
      \<and> (\<forall>l. prefix \<pi>' (kb l) \<longrightarrow> m l = mt l) \<and> scan_stops (kb k) \<pi>' tip \<and> tip_fits ps tip
      \<and> (\<pi>' = [] \<or> mt \<noteq> Map.empty) \<and> (\<pi>' = [] \<longrightarrow> is_node tip))"

lemma scan_result_here:
  assumes "trie_repr kb s \<pi> t m" "prefix \<pi> (kb k)" "scan_stops (kb k) \<pi> t"
    "\<pi> = [] \<or> m \<noteq> Map.empty" "\<pi> = [] \<longrightarrow> is_node t"
  shows "scan_result kb s k \<pi> t m t [] m"
  using assms by (auto simp: scan_result_def tip_fits_def intro: spine.Nil)

context trie_keys
begin

lemma scan_loop_correct:
  assumes "trie_repr kb s \<pi> t m" "\<And>h. get h = Ok (s h)" "prefix \<pi> (kb k)"
    "\<pi> = [] \<longrightarrow> is_node t" "\<pi> = [] \<or> m \<noteq> Map.empty"
  shows "\<exists>tip ps mt. scan_loop get (kb k) (length \<pi>) t acc = Some (Ok (tip, acc @ ps))
    \<and> scan_result kb s k \<pi> t m tip ps mt"
  using assms
proof (induction arbitrary: acc rule: trie_repr.induct)
  case (Leaf \<pi> l v)
  then have "scan_result kb s k \<pi> (Leaf l v) [l \<mapsto> v] (Leaf l v) [] [l \<mapsto> v]"
    by (intro scan_result_here trie_repr.Leaf) auto
  then show ?case by (subst scan_loop.simps) auto
next
  case (Node pb T M \<pi>)
  let ?m = "\<lambda>k. if strict_prefix \<pi> (kb k) then M (kb k ! length \<pi>) k else None"
  have rep: "trie_repr kb s \<pi> (Node pb) ?m" using Node.hyps by (rule trie_repr.Node)
  have st: "strict_prefix \<pi> (kb k)"
    using node_path_strict [OF rep] Node.prems by blast
  note idx = strict_prefix_index [OF st]
  let ?i = "kb k ! length \<pi>"
  show ?case
  proof (cases "pb ?i")
    case None
    then have "scan_result kb s k \<pi> (Node pb) ?m (Node pb) [] ?m"
      using idx Node.prems by (intro scan_result_here rep) auto
    then show ?thesis using None idx by (subst scan_loop.simps) auto
  next
    case (Some p)
    obtain tip ps mt where sc:
      "scan_loop get (kb k) (length (\<pi> @ [?i])) (T ?i) (acc @ [(?i, Node pb)]) =
        Some (Ok (tip, (acc @ [(?i, Node pb)]) @ ps))"
      "scan_result kb s k (\<pi> @ [?i]) (T ?i) (M ?i) tip ps mt"
      using Node.IH [OF Some Node.prems(1), of "acc @ [(?i, Node pb)]"] idx Node.hyps(3) [OF Some]
      by auto
    have "spine s (Node pb) ((?i, Node pb) # ps) tip"
      using sc(2) Some Node.hyps(1) [OF Some] by (auto simp: scan_result_def Let_def intro: spine.Node)
    moreover have "?m l = mt l" if "prefix (\<pi> @ ?i # get_parents_path ps) (kb l)" for l
      using sc(2) that by (auto simp: scan_result_def Let_def strict_prefix_def nth_append elim!: prefixE)
    moreover have "tip_fits ((?i, Node pb) # ps) tip"
      using sc(2) by (auto simp: scan_result_def tip_fits_def Let_def)
    ultimately have "scan_result kb s k \<pi> (Node pb) ?m tip ((?i, Node pb) # ps) mt"
      using sc(2) by (simp add: scan_result_def Let_def)
    then show ?thesis
      using sc(1) Some idx Node.hyps(1) [OF Some] Node.prems(1) by (subst scan_loop.simps) auto
  qed
next
  case (Extension a h pb \<pi> m)
  let ?t = "Extension a (NodePointer h)"
  have rep: "trie_repr kb s \<pi> ?t m" using Extension.hyps by (rule trie_repr.Extension)
  have ne: "\<pi> \<noteq> []" using Extension.prems by auto
  then have len: "length \<pi> + length a \<le> length (kb k)"
    using extension_in_range Extension by blast
  obtain z where z: "kb k = \<pi> @ z" using Extension.prems(2) by (auto elim: prefixE)
  have pre: "take (length a) (drop (length \<pi>) (kb k)) = a \<longleftrightarrow> prefix (\<pi> @ a) (kb k)"
    using z by (auto simp: prefix_def) (metis append_take_drop_id)
  show ?case
  proof (cases "prefix (\<pi> @ a) (kb k)")
    case False
    then have "scan_result kb s k \<pi> ?t m ?t [] m"
      using len ne Extension by (intro scan_result_here rep) auto
    then show ?thesis using False pre len by (subst scan_loop.simps) auto
  next
    case True
    let ?i = "kb k ! length \<pi>"
    have lt: "length \<pi> < length (kb k)" using Extension.hyps(1) len by (cases a) auto
    obtain tip ps mt where sc:
      "scan_loop get (kb k) (length (\<pi> @ a)) (Node pb) (acc @ [(?i, ?t)]) =
        Some (Ok (tip, (acc @ [(?i, ?t)]) @ ps))"
      "scan_result kb s k (\<pi> @ a) (Node pb) m tip ps mt"
      using Extension.IH [OF Extension.prems(1) True, of "acc @ [(?i, ?t)]"] Extension.hyps by auto
    have "spine s ?t ((?i, ?t) # ps) tip"
      using sc(2) Extension.hyps(2) by (auto simp: scan_result_def Let_def intro: spine.Extension)
    moreover have "tip_fits ((?i, ?t) # ps) tip"
    proof (cases "ps = []")
      case True
      then have "tip = Node pb" using sc(2) by (auto simp: scan_result_def Let_def elim: spine.cases)
      then show ?thesis by (simp add: tip_fits_def)
    next
      case False
      then show ?thesis using sc(2) by (auto simp: scan_result_def tip_fits_def Let_def)
    qed
    ultimately have "scan_result kb s k \<pi> ?t m tip ((?i, ?t) # ps) mt"
      using sc(2) by (auto simp: scan_result_def Let_def)
    then show ?thesis
      using sc(1) True pre len lt Extension.hyps(2) Extension.prems(1) by (subst scan_loop.simps) auto
  qed
qed

end

end
