(* ===== verification/Trie_Write.thy ===== *)
theory Trie_Write
  imports Trie_Correct
begin

text \<open>
  Correctness of writing to the trie. \<open>rebuild h ps t\<close> is the element obtained by replacing the tip below
  the parents \<open>ps\<close> by \<open>t\<close>, and \<open>rebuilt h ps t\<close> the elements created on the way up, \<open>h\<close> being the hash of an
  element: what the loop of \<^verbatim>\<open>rehash\<close> computes. The locale \<open>trie_store\<close> is the contract of the store.
\<close>

section \<open>Rehashing as a function\<close>

fun plug :: "(('k, 'v) trie \<Rightarrow> blake2b_hash) \<Rightarrow> u8 \<times> ('k, 'v) trie \<Rightarrow> ('k, 'v) trie \<Rightarrow> ('k, 'v) trie" where
  "plug h (i, Node pb) t = Node (pb(i := Some (tip_pointer t (h t))))"
| "plug h (i, Extension a p) t = Extension a (pointer_update p (h t))"
| "plug h (i, Leaf _ _) t = t"

definition rebuild ::
    "(('k, 'v) trie \<Rightarrow> blake2b_hash) \<Rightarrow> ('k, 'v) parents \<Rightarrow> ('k, 'v) trie \<Rightarrow> ('k, 'v) trie" where
  "rebuild h ps t = foldr (plug h) ps t"

fun rebuilt ::
    "(('k, 'v) trie \<Rightarrow> blake2b_hash) \<Rightarrow> ('k, 'v) parents \<Rightarrow> ('k, 'v) trie \<Rightarrow> ('k, 'v) trie list" where
  "rebuilt h [] t = [t]"
| "rebuilt h (p # ps) t = rebuilt h ps t @ [rebuild h (p # ps) t]"

lemma rebuild_simps [simp]:
  "rebuild h [] t = t"
  "rebuild h (p # ps) t = plug h p (rebuild h ps t)"
  "rebuild h (ps @ qs) t = rebuild h ps (rebuild h qs t)"
  by (simp_all add: rebuild_def)

lemma rebuilt_not_Nil [simp]: "rebuilt h ps t \<noteq> []"
  by (cases ps) auto

lemma last_rebuilt [simp]: "last (rebuilt h ps t) = rebuild h ps t"
  by (cases ps) auto

lemma rebuild_in_rebuilt: "rebuild h ps t \<in> set (rebuilt h ps t)"
  using last_in_set [of "rebuilt h ps t"] by simp

lemma set_rebuilt_append:
  "set (rebuilt h (ps @ qs) t) = set (rebuilt h qs t) \<union> set (rebuilt h ps (rebuild h qs t))"
proof (induction ps)
  case Nil
  then show ?case using rebuild_in_rebuilt by fastforce
qed auto

lemma rebuilt_Cons: "map f (rebuilt h ps t) = f t # map f (tl (rebuilt h ps t))"
proof -
  have "hd (rebuilt h ps t) = t" by (induction ps) (auto simp: hd_append)
  then show ?thesis by (metis list.collapse list.simps(9) rebuilt_not_Nil)
qed

lemma rebuilt_snoc: "rebuilt h (ps @ [q]) t = t # rebuilt h ps (plug h q t)"
  by (induction ps) auto

text \<open>The hash of an element, of a serializer and a hash function.\<close>

definition trie_hash :: "(bytes \<Rightarrow> blake2b_hash) \<Rightarrow> (('k, 'v) trie) ser \<Rightarrow> ('k, 'v) trie \<Rightarrow> blake2b_hash" where
  "trie_hash H ser t = (case ser t of Ok b \<Rightarrow> H b | _ \<Rightarrow> H [])"

lemma trie_hash_Ok [simp]: "ser t = Ok b \<Longrightarrow> trie_hash H ser t = H b"
  by (simp add: trie_hash_def)

text \<open>Parents that can be written: no leaves, and no overlong affix.\<close>

fun parent_ok :: "('k, 'v) trie \<Rightarrow> bool" where
  "parent_ok (Leaf _ _) = False"
| "parent_ok (Node _) = True"
| "parent_ok (Extension a _) \<longleftrightarrow> length a \<le> 1000"

lemma parent_serializable:
  "parent_ok t \<Longrightarrow> \<exists>b. trie_to_bytes ser_k ser_v t = Ok b"
  using node_to_bytes_Ok extension_to_bytes_Ok by (cases t) auto

lemma parent_ok_plug: "parent_ok u \<Longrightarrow> parent_ok (plug h (i, u) t)"
  by (cases u) auto

lemma rehash_loop_rebuilt:
  fixes ser :: "(('k, 'v) trie) ser"
  assumes "ser = trie_to_bytes ser_k ser_v" "h = trie_hash H ser"
  shows "\<forall>(i, u) \<in> set qs. parent_ok u \<Longrightarrow>
    rehash_loop H ser t (h t) ret qs =
      Ok (ret @ map (\<lambda>u. (h u, u)) (tl (rebuilt h (rev qs) t)))"
proof (induction qs arbitrary: t ret)
  case (Cons q qs)
  obtain i u where q: "q = (i, u)" by fastforce
  have ok: "parent_ok u" using Cons.prems q by auto
  let ?t = "plug h (i, u) t"
  obtain b where b: "ser ?t = Ok b"
    using parent_serializable [OF parent_ok_plug [OF ok]] assms(1) by blast
  have "rehash_loop H ser t (h t) ret (q # qs) = rehash_loop H ser ?t (h ?t) (ret @ [(h ?t, ?t)]) qs"
    using ok b by (cases u) (auto simp: q assms(2) Let_def)
  also have "\<dots> = Ok ((ret @ [(h ?t, ?t)]) @ map (\<lambda>u. (h u, u)) (tl (rebuilt h (rev qs) ?t)))"
    using Cons by (intro Cons.IH) auto
  also have "\<dots> = Ok (ret @ map (\<lambda>u. (h u, u)) (tl (rebuilt h (rev (q # qs)) t)))"
    using rebuilt_Cons [of "\<lambda>u. (h u, u)" h "rev qs" ?t] by (simp add: rebuilt_snoc q)
  finally show ?case .
qed simp

lemma rehash_rebuilt:
  fixes ser :: "(('k, 'v) trie) ser"
  assumes "ser = trie_to_bytes ser_k ser_v" "h = trie_hash H ser" "ser t = Ok b"
    "\<forall>(i, u) \<in> set ps. parent_ok u"
  shows "rehash H ser t ps = Ok (map (\<lambda>u. (h u, u)) (rebuilt h ps t))"
proof -
  have ht: "H b = h t" using assms(2,3) by simp
  show ?thesis
    using assms(3,4) rehash_loop_rebuilt [OF assms(1,2), of "rev ps" t "[(h t, t)]"]
      rebuilt_Cons [of "\<lambda>u. (h u, u)" h ps t]
    by (simp add: rehash_def ht)
qed

section \<open>What a rebuilt trie represents\<close>

lemma spine_is_node: "spine s (Node pb) ps tip \<Longrightarrow> is_node t \<or> ps \<noteq> [] \<Longrightarrow> is_node (rebuild h ps t)"
  by (erule spine.cases) auto

lemma branching_upd: "branching pb \<Longrightarrow> branching (pb(i := Some p))"
  unfolding branching_def by (metis fun_upd_apply option.distinct(1))

context trie_keys
begin

lemma rebuild_repr:
  assumes "spine s t ps tip" "trie_repr kb s \<pi> t m" "s \<subseteq>\<^sub>m s'"
    "\<forall>u \<in> set (rebuilt h ps t'). s' (h u) = Some u"
    "trie_repr kb s' (\<pi> @ get_parents_path ps) t' m'" "m' \<noteq> Map.empty" "tip_fits ps t'"
  shows "trie_repr kb s' \<pi> (rebuild h ps t')
    (\<lambda>k. if prefix (\<pi> @ get_parents_path ps) (kb k) then m' k else m k)"
  using assms
proof (induction arbitrary: \<pi> m rule: spine.induct)
  case (Nil t)
  have "(\<lambda>k. if prefix \<pi> (kb k) then m' k else m k) = m'"
    using trie_repr_None [OF Nil.prems(1)] trie_repr_None [OF Nil.prems(4)] by fastforce
  then show ?case using Nil.prems(4) by simp
next
  case (Node pb i p t ps tip)
  obtain T M where TM: "\<And>i p. pb i = Some p \<Longrightarrow> s (pointer_hash p) = Some (T i)"
    "\<And>i p. pb i = Some p \<Longrightarrow> p = tip_pointer (T i) (pointer_hash p)"
    "\<And>i p. pb i = Some p \<Longrightarrow> M i \<noteq> Map.empty"
    "\<And>i p. pb i = Some p \<Longrightarrow> trie_repr kb s (\<pi> @ [i]) (T i) (M i)"
    "\<And>i. pb i = None \<Longrightarrow> M i = Map.empty"
    "m = (\<lambda>k. if strict_prefix \<pi> (kb k) then M (kb k ! length \<pi>) k else None)"
    "\<pi> = [] \<or> branching pb"
    using Node.prems(1) by (elim trie_repr_NodeE) blast
  let ?t = "rebuild h ps t'" and ?q = "\<pi> @ get_parents_path ((i, Node pb) # ps)"
  let ?mi = "\<lambda>k. if prefix ?q (kb k) then m' k else M i k"
  have "T i = t" using TM(1) [OF Node.hyps(1)] Node.hyps(2) by simp
  then have IH: "trie_repr kb s' (\<pi> @ [i]) ?t ?mi"
    using Node.IH [of "\<pi> @ [i]" "M i"] TM(4) [OF Node.hyps(1)] Node.prems
    by (cases "ps = []") (simp_all add: tip_fits_def)
  have "?mi \<noteq> Map.empty"
  proof -
    obtain l v where l: "m' l = Some v" using Node.prems(5) by (auto simp: fun_eq_iff)
    then have "prefix ?q (kb l)" using trie_repr_prefix [OF Node.prems(4)] by blast
    then show ?thesis using l by (metis option.distinct(1))
  qed
  have st: "s' (h ?t) = Some ?t"
    using Node.prems(3) rebuild_in_rebuilt [of h ps t'] by simp
  let ?M = "M(i := ?mi)" and ?pb = "pb(i := Some (tip_pointer ?t (h ?t)))"
  have hp: "pointer_hash (tip_pointer u x) = x" for u :: "('k, 'v) trie" and x by (cases u) auto
  have "trie_repr kb s' \<pi> (Node ?pb)
      (\<lambda>k. if strict_prefix \<pi> (kb k) then ?M (kb k ! length \<pi>) k else None)"
  proof (rule trie_repr.Node [where T = "T(i := ?t)"])
    fix j q assume j: "?pb j = Some q"
    show "s' (pointer_hash q) = Some ((T(i := ?t)) j)"
      using j TM(1) [of j q] st Node.prems(2) by (auto simp: hp map_le_def dom_def split: if_splits)
    show "q = tip_pointer ((T(i := ?t)) j) (pointer_hash q)"
      using j TM(2) [of j q] by (auto simp: hp split: if_splits)
    show "?M j \<noteq> Map.empty"
      using j TM(3) [of j q] \<open>?mi \<noteq> Map.empty\<close> by (auto split: if_splits)
    show "trie_repr kb s' (\<pi> @ [j]) ((T(i := ?t)) j) (?M j)"
      using j TM(4) [of j q] IH trie_repr_mono [OF _ Node.prems(2)] by (auto split: if_splits)
  next
    fix j assume "?pb j = None"
    then show "?M j = Map.empty" using TM(5) [of j] by (auto split: if_splits)
  next
    show "\<pi> = [] \<or> branching ?pb" using TM(7) by (auto simp: branching_upd)
  qed
  moreover have "(\<lambda>k. if strict_prefix \<pi> (kb k) then ?M (kb k ! length \<pi>) k else None) =
      (\<lambda>k. if prefix ?q (kb k) then m' k else m k)"
  proof
    fix k
    have "strict_prefix \<pi> (kb k) \<and> kb k ! length \<pi> = i" if "prefix ?q (kb k)"
      using that by (auto simp: strict_prefix_def nth_append elim!: prefixE)
    then show "(if strict_prefix \<pi> (kb k) then ?M (kb k ! length \<pi>) k else None) =
        (if prefix ?q (kb k) then m' k else m k)"
      by (auto simp: TM(6))
  qed
  ultimately show ?case by simp
next
  case (Extension p t ps tip a i)
  from Extension.prems(1) obtain g pb where g: "a \<noteq> []" "p = NodePointer g" "s g = Some (Node pb)"
    "trie_repr kb s (\<pi> @ a) (Node pb) m" "m \<noteq> Map.empty"
    by (elim trie_repr_ExtensionE) blast
  let ?t = "rebuild h ps t'" and ?q = "(\<pi> @ a) @ get_parents_path ps"
  let ?m = "\<lambda>k. if prefix ?q (kb k) then m' k else m k"
  have t: "t = Node pb" using Extension.hyps(1) g by simp
  have IH: "trie_repr kb s' (\<pi> @ a) ?t ?m"
    using Extension.IH [of "\<pi> @ a" m] g(4) t Extension.prems
    by (cases "ps = []") (simp_all add: tip_fits_def)
  have "is_node ?t"
    using spine_is_node [of s pb ps tip t' h] Extension.hyps(2) Extension.prems(6) t
    by (cases "ps = []") (simp_all add: tip_fits_def)
  then obtain pb' where pb': "?t = Node pb'" by (cases ?t) auto
  have "?m \<noteq> Map.empty"
  proof -
    obtain l v where l: "m' l = Some v" using Extension.prems(5) by (auto simp: fun_eq_iff)
    then have "prefix ?q (kb l)" using trie_repr_prefix [OF Extension.prems(4)] by simp
    then show ?thesis using l by (metis option.distinct(1))
  qed
  moreover have "s' (h ?t) = Some (Node pb')"
    using Extension.prems(3) rebuild_in_rebuilt [of h ps t'] pb' by simp
  ultimately have "trie_repr kb s' \<pi> (Extension a (NodePointer (h ?t))) ?m"
    using g(1) IH pb' by (intro trie_repr.Extension) auto
  then show ?case by (simp add: g(2))
qed

end

section \<open>New nodes\<close>

lemma trie_node_single [simp]: "trie_node [(i, p)] = Node (pointer_block_new(i := Some p))"
  by (simp add: trie_node_def from_indexed_pointers_def)

lemma pointer_hash_tip [simp]: "pointer_hash (tip_pointer t x) = x"
  by (cases t) auto

lemma trie_repr_empty: "trie_repr kb s [] (Node pointer_block_new) Map.empty"
  using trie_repr.Node [of pointer_block_new s _ "\<lambda>_. Map.empty" kb "[]"]
  by (simp add: pointer_block_new_def)

lemma prefix_snoc_strict: "prefix (\<pi> @ [j]) xs \<Longrightarrow> strict_prefix \<pi> xs \<and> xs ! length \<pi> = j"
  by (auto simp: strict_prefix_def prefix_def nth_append)

lemma trie_repr_node_insert:
  assumes "trie_repr kb s \<pi> (Node pb) m" "pb j = None" "s (pointer_hash q) = Some t"
    "q = tip_pointer t (pointer_hash q)" "trie_repr kb s (\<pi> @ [j]) t m'" "m' \<noteq> Map.empty"
  shows "trie_repr kb s \<pi> (Node (pb(j := Some q))) (m ++ m')"
proof -
  obtain T M where TM: "\<And>i p. pb i = Some p \<Longrightarrow> s (pointer_hash p) = Some (T i)"
    "\<And>i p. pb i = Some p \<Longrightarrow> p = tip_pointer (T i) (pointer_hash p)"
    "\<And>i p. pb i = Some p \<Longrightarrow> M i \<noteq> Map.empty"
    "\<And>i p. pb i = Some p \<Longrightarrow> trie_repr kb s (\<pi> @ [i]) (T i) (M i)"
    "\<And>i. pb i = None \<Longrightarrow> M i = Map.empty"
    "m = (\<lambda>k. if strict_prefix \<pi> (kb k) then M (kb k ! length \<pi>) k else None)"
    "\<pi> = [] \<or> branching pb"
    using assms(1) by (elim trie_repr_NodeE) blast
  have "trie_repr kb s \<pi> (Node (pb(j := Some q)))
      (\<lambda>k. if strict_prefix \<pi> (kb k) then (M(j := m')) (kb k ! length \<pi>) k else None)"
    using assms(3-6) TM(1-5,7) branching_upd [of pb j q]
    by (intro trie_repr.Node [where T = "T(j := t)"]) (auto simp: fun_upd_def split: if_splits)
  moreover have eq: "(if strict_prefix \<pi> (kb k) then (M(j := m')) (kb k ! length \<pi>) k else None) =
      (m ++ m') k" for k
  proof (cases "m' k")
    case None
    then show ?thesis using TM(5) [OF assms(2)] by (auto simp: TM(6) map_add_def)
  next
    case (Some v)
    then have "prefix (\<pi> @ [j]) (kb k)" using trie_repr_prefix [OF assms(5)] by blast
    then show ?thesis using Some prefix_snoc_strict [of \<pi> j "kb k"] by (simp add: map_add_def)
  qed
  ultimately show ?thesis unfolding eq by simp
qed

lemma trie_repr_node_pair:
  assumes "x \<noteq> y" "s (pointer_hash p) = Some t" "p = tip_pointer t (pointer_hash p)"
    "trie_repr kb s (\<pi> @ [x]) t m" "m \<noteq> Map.empty"
    "s (pointer_hash q) = Some u" "q = tip_pointer u (pointer_hash q)"
    "trie_repr kb s (\<pi> @ [y]) u m'" "m' \<noteq> Map.empty"
  shows "trie_repr kb s \<pi> (Node (pointer_block_new(x := Some p, y := Some q))) (m ++ m')"
proof -
  let ?M = "(\<lambda>_. Map.empty)(x := m, y := m')"
  have "trie_repr kb s \<pi> (Node (pointer_block_new(x := Some p, y := Some q)))
      (\<lambda>k. if strict_prefix \<pi> (kb k) then ?M (kb k ! length \<pi>) k else None)"
    using assms
    by (intro trie_repr.Node [where T = "\<lambda>i. if i = y then u else t"])
      (auto simp: pointer_block_new_def branching_def split: if_splits)
  moreover have "(if strict_prefix \<pi> (kb k) then ?M (kb k ! length \<pi>) k else None) = (m ++ m') k" for k
    using prefix_snoc_strict [of \<pi> x "kb k"] prefix_snoc_strict [of \<pi> y "kb k"] assms(1)
      trie_repr_prefix [OF assms(4), of k] trie_repr_prefix [OF assms(8), of k]
    by (cases "m k"; cases "m' k") (auto simp: map_add_def)
  ultimately show ?thesis by simp
qed

lemma trie_repr_leaf_below: "prefix \<pi> (kb k) \<Longrightarrow> trie_repr kb s \<pi> (Leaf k v) [k \<mapsto> v]"
  by (rule trie_repr.Leaf)

text \<open>A node with the old element and a new leaf, below an extension when they share more than the path.\<close>

definition branch :: "u8 \<Rightarrow> bytes \<Rightarrow> blake2b_hash \<Rightarrow> u8 \<Rightarrow> u8 \<Rightarrow> pointer \<Rightarrow> ('k, 'v) parents" where
  "branch ci pa hn y x np =
     (if pa = [] then [] else [(ci, Extension pa (NodePointer hn))])
     @ [(y, Node (pointer_block_new(x := Some np)))]"

lemma branch_repr:
  assumes "prefix ((\<pi> @ pa) @ [y]) (kb k)" "x \<noteq> y"
    "s (pointer_hash np) = Some c" "np = tip_pointer c (pointer_hash np)"
    "trie_repr kb s ((\<pi> @ pa) @ [x]) c mt" "mt \<noteq> Map.empty"
    "\<forall>u \<in> set (rebuilt h (branch ci pa hn y x np) (Leaf k v)). s (h u) = Some u"
  shows "trie_repr kb s \<pi> (rebuild h (branch ci pa hn y x np) (Leaf k v)) (mt(k \<mapsto> v))"
proof -
  let ?pb = "pointer_block_new(x := Some np)" and ?leaf = "Leaf k v"
  let ?q = "tip_pointer ?leaf (h ?leaf)"
  let ?n = "Node (?pb(y := Some ?q))"
  have "?leaf \<in> set (rebuilt h (branch ci pa hn y x np) ?leaf)"
    by (simp add: branch_def)
  then have leaf: "s (h ?leaf) = Some ?leaf" using assms(7) by blast
  have "trie_repr kb s (\<pi> @ pa) ?n (mt ++ [k \<mapsto> v])"
    using assms(1-6) leaf
    by (intro trie_repr_node_pair [where t = c and u = ?leaf] trie_repr_leaf_below) auto
  then have n: "trie_repr kb s (\<pi> @ pa) ?n (mt(k \<mapsto> v))"
    by simp
  show ?thesis
  proof (cases "pa = []")
    case True
    then show ?thesis using n by (simp add: branch_def)
  next
    case False
    then have "?n \<in> set (rebuilt h (branch ci pa hn y x np) ?leaf)"
      by (simp add: branch_def)
    then have "s (h ?n) = Some ?n" using assms(7) by blast
    then show ?thesis using False n trie_repr.Extension [OF False _ n] by (simp add: branch_def)
  qed
qed

lemma spine_last_node:
  assumes "spine s t ps tip" "trie_repr kb s \<pi> t m" "ps \<noteq> []" "last ps = (i, Node pb)"
  shows "\<exists>p. pb i = Some p \<and> s (pointer_hash p) = Some tip \<and> p = tip_pointer tip (pointer_hash p)"
  using assms
proof (induction arbitrary: \<pi> m rule: spine.induct)
  case (Node pb' j p t ps tip)
  obtain T M where TM: "\<And>i p. pb' i = Some p \<Longrightarrow> s (pointer_hash p) = Some (T i)"
    "\<And>i p. pb' i = Some p \<Longrightarrow> p = tip_pointer (T i) (pointer_hash p)"
    "\<And>i p. pb' i = Some p \<Longrightarrow> trie_repr kb s (\<pi> @ [i]) (T i) (M i)"
    using Node.prems(1) by (elim trie_repr_NodeE) blast
  have t: "T j = t" using TM(1) Node.hyps(1,2) by fastforce
  show ?case
  proof (cases "ps = []")
    case True
    then have "tip = t" using Node.hyps(3) by (auto elim: spine.cases)
    then show ?thesis using True Node.prems TM(1,2) Node.hyps t by auto
  next
    case False
    then show ?thesis using Node.IH [OF TM(3) [OF Node.hyps(1), unfolded t]] Node.prems by simp
  qed
next
  case (Extension p t ps tip a j)
  from Extension.prems(1) obtain g pb' where "p = NodePointer g" "s g = Some (Node pb')"
    "trie_repr kb s (\<pi> @ a) (Node pb') m"
    by (elim trie_repr_ExtensionE) blast
  then show ?case using Extension by (cases "ps = []") auto
qed simp

context trie_keys
begin

lemma spine_parents_ok:
  assumes "spine s t ps tip" "trie_repr kb s \<pi> t m"
  shows "\<forall>(i, u) \<in> set ps. parent_ok u"
  using assms
proof (induction arbitrary: \<pi> m rule: spine.induct)
  case (Node pb i p t ps tip)
  obtain T M where TM: "\<And>i p. pb i = Some p \<Longrightarrow> s (pointer_hash p) = Some (T i)"
    "\<And>i p. pb i = Some p \<Longrightarrow> trie_repr kb s (\<pi> @ [i]) (T i) (M i)"
    using Node.prems by (elim trie_repr_NodeE) blast
  have "T i = t" using TM(1) Node.hyps(1,2) by fastforce
  then show ?case using Node.IH TM(2) [OF Node.hyps(1)] by auto
next
  case (Extension p t ps tip a i)
  from Extension.prems obtain g pb where g: "p = NodePointer g" "s g = Some (Node pb)"
    "trie_repr kb s (\<pi> @ a) (Node pb) m" "m \<noteq> Map.empty"
    by (elim trie_repr_ExtensionE) blast
  then obtain l v where "m l = Some v" by (auto simp: fun_eq_iff)
  then have "prefix (\<pi> @ a) (kb l)" by (rule trie_repr_prefix [OF g(3)])
  then have "length a \<le> 1000" using kb_short [of l] by (auto dest: prefix_length_le)
  then show ?case using Extension g by auto
qed simp

end

section \<open>The elements a write creates\<close>

locale trie_writer = trie_keys kb
  for kb :: "'k \<Rightarrow> bytes" +
  fixes key_ser :: "'k ser" and val_ser :: "'v ser" and H :: "bytes \<Rightarrow> blake2b_hash"
    and ser :: "(('k, 'v) trie) ser" and h :: "('k, 'v) trie \<Rightarrow> blake2b_hash"
  assumes key_ser: "key_ser k = Ok (kb k)"
    and ser_eq: "ser = trie_to_bytes key_ser val_ser"
    and h_eq: "h = trie_hash H ser"
begin

lemma parent_ser: "parent_ok t \<Longrightarrow> \<exists>b. ser t = Ok b \<and> H b = h t"
  using parent_serializable [of t key_ser val_ser] by (auto simp: ser_eq h_eq)

lemma add_node_Ok:
  assumes "strict_prefix (get_parents_path ps) (kb k)"
  shows "add_node_to_parents (kb k) (Node pb) ps =
    Ok (ps @ [(kb k ! length (get_parents_path ps), Node pb)])"
  using assms common_prefix_absorb [of "get_parents_path ps" "kb k"] prefix_length_less [OF assms]
  by (simp add: add_node_to_parents_def strict_prefix_def)

lemma rehash_Ok:
  "ser (Leaf k v) = Ok b \<Longrightarrow> \<forall>(i, u) \<in> set ps. parent_ok u \<Longrightarrow>
   rehash H ser (Leaf k v) ps = Ok (map (\<lambda>u. (h u, u)) (rebuilt h ps (Leaf k v)))"
  by (rule rehash_rebuilt [OF ser_eq h_eq])

text \<open>
  What the elements of a write are: those above \<open>ps\<close>, rebuilt from the tip that \<open>qs\<close> makes of the new
  leaf, and the child extension of a split.
\<close>

definition creates ::
    "('k, 'v) store \<Rightarrow> 'k \<Rightarrow> 'v \<Rightarrow> ('k, 'v) parents \<Rightarrow> ('k \<rightharpoonup> 'v) \<Rightarrow> ('k, 'v) parents \<Rightarrow>
     ('k, 'v) trie list \<Rightarrow> bool" where
  "creates s k v ps mt qs extra \<longleftrightarrow>
     (\<forall>s'. s \<subseteq>\<^sub>m s' \<longrightarrow> (\<forall>u \<in> set extra \<union> set (rebuilt h qs (Leaf k v)). s' (h u) = Some u) \<longrightarrow>
        trie_repr kb s' (get_parents_path ps) (rebuild h qs (Leaf k v)) (mt(k \<mapsto> v)))
     \<and> tip_fits ps (rebuild h qs (Leaf k v))
     \<and> (\<forall>(i, u) \<in> set qs. parent_ok u) \<and> (\<forall>u \<in> set extra. parent_ok u)
     \<and> (ps = [] \<longrightarrow> is_node (rebuild h qs (Leaf k v)))"

lemma new_elements_node:
  assumes "scan_result kb s k [] t m (Node pb) ps mt" "ser (Leaf k v) = Ok b"
    "\<forall>(i, u) \<in> set ps. parent_ok u"
  shows "\<exists>qs. new_elements H key_ser ser k v (kb k) (Node pb) ps =
      Ok (map (\<lambda>u. (h u, u)) (rebuilt h (ps @ qs) (Leaf k v)))
    \<and> creates s k v ps mt qs []"
proof -
  let ?\<pi> = "get_parents_path ps" and ?leaf = "Leaf k v"
  let ?i = "kb k ! length ?\<pi>"
  have sr: "prefix ?\<pi> (kb k)" "trie_repr kb s ?\<pi> (Node pb) mt" "length ?\<pi> < length (kb k)"
    "pb ?i = None"
    using assms(1) by (auto simp: scan_result_def Let_def)
  then have st: "strict_prefix ?\<pi> (kb k)" by (auto simp: strict_prefix_def)
  let ?qs = "[(?i, Node pb)]"
  have "new_elements H key_ser ser k v (kb k) (Node pb) ps =
      Ok (map (\<lambda>u. (h u, u)) (rebuilt h (ps @ ?qs) ?leaf))"
    using assms(2,3) by (simp add: new_elements_def add_node_Ok [OF st] rehash_Ok)
  moreover have "creates s k v ps mt ?qs []"
    unfolding creates_def
  proof (intro conjI allI impI)
    fix s' assume s': "s \<subseteq>\<^sub>m s'" "\<forall>u \<in> set [] \<union> set (rebuilt h ?qs ?leaf). s' (h u) = Some u"
    have "trie_repr kb s' ?\<pi> (Node (pb(?i := Some (tip_pointer ?leaf (h ?leaf))))) (mt ++ [k \<mapsto> v])"
      using s' sr(4) strict_prefix_index [OF st]
      by (intro trie_repr_node_insert [OF trie_repr_mono [OF sr(2) s'(1)], where t = ?leaf]
          trie_repr_leaf_below) auto
    then show "trie_repr kb s' ?\<pi> (rebuild h ?qs ?leaf) (mt(k \<mapsto> v))" by simp
  qed (auto simp: tip_fits_def)
  ultimately show ?thesis by blast
qed

lemma new_elements_same_leaf:
  assumes "scan_result kb s k [] t m (Leaf k w) ps mt" "ser (Leaf k v) = Ok b"
    "\<forall>(i, u) \<in> set ps. parent_ok u" "v \<noteq> w"
  shows "\<exists>qs. new_elements H key_ser ser k v (kb k) (Leaf k w) ps =
      Ok (map (\<lambda>u. (h u, u)) (rebuilt h (ps @ qs) (Leaf k v)))
    \<and> creates s k v ps mt qs []"
proof -
  have sr: "prefix (get_parents_path ps) (kb k)" "trie_repr kb s (get_parents_path ps) (Leaf k w) mt"
    "tip_fits ps (Leaf k w)" "get_parents_path ps \<noteq> []"
    using assms(1) by (auto simp: scan_result_def Let_def)
  have mt: "mt = [k \<mapsto> w]" using sr(2) by (auto elim: trie_repr_LeafE)
  have "new_elements H key_ser ser k v (kb k) (Leaf k w) ps =
      Ok (map (\<lambda>u. (h u, u)) (rebuilt h (ps @ []) (Leaf k v)))"
    using assms(2-4) by (simp add: new_elements_def rehash_Ok)
  moreover have "creates s k v ps mt [] []"
    using sr by (auto simp: creates_def mt tip_fits_def intro!: trie_repr_leaf_below)
  ultimately show ?thesis by blast
qed

lemma branch_parents_ok:
  "length pa \<le> 1000 \<Longrightarrow> \<forall>(i, u) \<in> set (branch ci pa hn y x np). parent_ok u"
  by (simp add: branch_def)

lemma branch_creates:
  assumes "prefix ((get_parents_path ps @ pa) @ [y]) (kb k)" "x \<noteq> y" "mt \<noteq> Map.empty"
    "\<not> (ps \<noteq> [] \<and> is_extension (snd (last ps)))" "ps \<noteq> []" "\<forall>u \<in> set extra. parent_ok u"
    "\<And>s'. s \<subseteq>\<^sub>m s' \<Longrightarrow> \<forall>u \<in> set extra. s' (h u) = Some u \<Longrightarrow>
      s' (pointer_hash np) = Some c \<and> np = tip_pointer c (pointer_hash np)
      \<and> trie_repr kb s' ((get_parents_path ps @ pa) @ [x]) c mt"
  shows "creates s k v ps mt (branch ci pa hn y x np) extra"
  unfolding creates_def
proof (intro conjI allI impI)
  fix s'
  assume s': "s \<subseteq>\<^sub>m s'"
    "\<forall>u \<in> set extra \<union> set (rebuilt h (branch ci pa hn y x np) (Leaf k v)). s' (h u) = Some u"
  then have "s' (pointer_hash np) = Some c \<and> np = tip_pointer c (pointer_hash np)
      \<and> trie_repr kb s' ((get_parents_path ps @ pa) @ [x]) c mt"
    by (intro assms(7)) auto
  then show "trie_repr kb s' (get_parents_path ps) (rebuild h (branch ci pa hn y x np) (Leaf k v))
      (mt(k \<mapsto> v))"
    using s'(2) assms(1-3) by (intro branch_repr [where c = c]) auto
next
  have "length pa \<le> 1000"
    using assms(1) kb_short [of k] by (auto dest: prefix_length_le)
  then show "\<forall>(i, u) \<in> set (branch ci pa hn y x np). parent_ok u"
    by (rule branch_parents_ok)
qed (use assms(4-6) in \<open>auto simp: tip_fits_def\<close>)

lemma add_node_branch:
  assumes "strict_prefix (get_parents_path ps @ pa) (kb k)"
  shows "add_node_to_parents (kb k) (Node (pointer_block_new(x := Some np)))
      (ps @ (if pa = [] then [] else [(ci, Extension pa (NodePointer hn))])) =
    Ok (ps @ branch ci pa hn (kb k ! length (get_parents_path ps @ pa)) x np)"
  using assms add_node_Ok [of "ps @ (if pa = [] then [] else [(ci, Extension pa (NodePointer hn))])" k]
  by (cases "pa = []") (simp_all add: branch_def)

text \<open>The path of a branch, cut at the first byte where the new key leaves the old path \<open>\<rho>\<close>.\<close>

lemma split_path:
  assumes "prefix \<pi> (kb k)" "prefix \<pi> \<rho>" "S = common_prefix (kb k) \<rho>"
    "length S < length (kb k)" "length S < length \<rho>"
  obtains pa where "S = \<pi> @ pa" "prefix ((\<pi> @ pa) @ [kb k ! length S]) (kb k)"
    "prefix ((\<pi> @ pa) @ [\<rho> ! length S]) \<rho>" "\<rho> ! length S \<noteq> kb k ! length S"
proof -
  have "prefix \<pi> S" using assms(1-3) by (simp add: common_prefix_greatest)
  then obtain pa where S: "S = \<pi> @ pa" by (auto elim: prefixE)
  have "strict_prefix S (kb k)" "strict_prefix S \<rho>"
    using assms(3-5) common_prefix_prefix [of "kb k" \<rho>] by (auto simp: strict_prefix_def)
  then show thesis
    using that [OF S] strict_prefix_index [of S] common_prefix_differ [of "kb k" \<rho>] assms(3-5)
    by (auto simp flip: S)
qed

lemma new_elements_other_leaf:
  assumes "scan_result kb s k [] t m (Leaf k' w) ps mt" "trie_repr kb s [] t m"
    "ser (Leaf k v) = Ok b" "\<forall>(i, u) \<in> set ps. parent_ok u" "k \<noteq> k'"
  shows "\<exists>qs. new_elements H key_ser ser k v (kb k) (Leaf k' w) ps =
      Ok (map (\<lambda>u. (h u, u)) (rebuilt h (ps @ qs) (Leaf k v)))
    \<and> creates s k v ps mt qs []"
proof -
  let ?\<pi> = "get_parents_path ps" and ?S = "common_prefix (kb k) (kb k')"
  have sr: "spine s t ps (Leaf k' w)" "prefix ?\<pi> (kb k)" "trie_repr kb s ?\<pi> (Leaf k' w) mt"
    "tip_fits ps (Leaf k' w)" "?\<pi> \<noteq> []"
    using assms(1) by (auto simp: scan_result_def Let_def)
  have mt: "mt = [k' \<mapsto> w]" and pk': "prefix ?\<pi> (kb k')"
    using sr(3) by (auto elim: trie_repr_LeafE)
  have ps: "ps \<noteq> []" using sr(5) by auto
  obtain ci u where last: "last ps = (ci, u)" by fastforce
  have "parent_ok u" using assms(4) last_in_set [OF ps] last by auto
  then obtain pb where u: "u = Node pb"
    using sr(4) ps last by (cases u) (auto simp: tip_fits_def)
  obtain p where p: "pb ci = Some p" "s (pointer_hash p) = Some (Leaf k' w)"
    "p = tip_pointer (Leaf k' w) (pointer_hash p)"
    using spine_last_node [OF sr(1) assms(2) ps last [unfolded u]] by blast
  have len: "length ?S < length (kb k)" "length ?S < length (kb k')"
    using kb_prefix_free [of k k'] kb_prefix_free [of k' k] assms(5)
    by (auto intro: common_prefix_short)
  obtain pa where pa: "?S = ?\<pi> @ pa" "prefix ((?\<pi> @ pa) @ [kb k ! length ?S]) (kb k)"
    "prefix ((?\<pi> @ pa) @ [kb k' ! length ?S]) (kb k')" "kb k' ! length ?S \<noteq> kb k ! length ?S"
    by (rule split_path [OF sr(2) pk' refl len])
  let ?y = "kb k ! length ?S" and ?x = "kb k' ! length ?S"
  let ?n = "Node (pointer_block_new(?x := Some p)) :: ('k, 'v) trie"
  obtain nb where nb: "ser ?n = Ok nb" using parent_ser [of ?n] by auto
  let ?qs = "branch ci pa (H nb) ?y ?x p"
  have blast: "butlast ps @ [(ci, Node pb)] = ps" using append_butlast_last_id [OF ps] last u by simp
  have rep: "reparent_leaf H ser (kb k) (kb k') ps =
      Ok (?n, ps @ (if pa = [] then [] else [(ci, Extension pa (NodePointer (H nb)))]))"
    using ps last u p(1) nb len(2)
    by (simp add: reparent_leaf_def blast pa(1) Let_def)
  have add: "add_node_to_parents (kb k) ?n
      (ps @ (if pa = [] then [] else [(ci, Extension pa (NodePointer (H nb)))])) = Ok (ps @ ?qs)"
    using add_node_branch [OF prefix_snoc_strict [OF pa(2), THEN conjunct1]] by (simp add: pa(1))
  have "length pa \<le> 1000" using pa(2) kb_short [of k] by (auto dest: prefix_length_le)
  then have "rehash H ser (Leaf k v) (ps @ ?qs) =
      Ok (map (\<lambda>u. (h u, u)) (rebuilt h (ps @ ?qs) (Leaf k v)))"
    using assms(4) branch_parents_ok [of pa ci "H nb" ?y ?x p]
    by (intro rehash_Ok [OF assms(3)]) auto
  then have "new_elements H key_ser ser k v (kb k) (Leaf k' w) ps =
      Ok (map (\<lambda>u. (h u, u)) (rebuilt h (ps @ ?qs) (Leaf k v)))"
    using assms(5) by (simp add: new_elements_def key_ser rep add)
  moreover have "creates s k v ps mt ?qs []"
  proof (rule branch_creates [where c = "Leaf k' w"])
    fix s' assume "s \<subseteq>\<^sub>m s'"
    then show "s' (pointer_hash p) = Some (Leaf k' w) \<and> p = tip_pointer (Leaf k' w) (pointer_hash p)
        \<and> trie_repr kb s' ((?\<pi> @ pa) @ [?x]) (Leaf k' w) mt"
      using p(2,3) pa(3) by (auto simp: map_le_def dom_def mt intro!: trie_repr_leaf_below)
  qed (use pa ps last u mt in auto)
  ultimately show ?thesis by blast
qed

lemma new_elements_extension:
  assumes "scan_result kb s k [] t m (Extension a p) ps mt" "ser (Leaf k v) = Ok b"
    "\<forall>(i, u) \<in> set ps. parent_ok u"
  shows "\<exists>qs extra. new_elements H key_ser ser k v (kb k) (Extension a p) ps =
      Ok (map (\<lambda>u. (h u, u)) (extra @ rebuilt h (ps @ qs) (Leaf k v)))
    \<and> creates s k v ps mt qs extra"
proof -
  let ?\<pi> = "get_parents_path ps"
  let ?\<rho> = "?\<pi> @ a"
  let ?S = "common_prefix (kb k) ?\<rho>"
  have sr: "prefix ?\<pi> (kb k)" "trie_repr kb s ?\<pi> (Extension a p) mt" "length ?\<rho> \<le> length (kb k)"
    "\<not> prefix ?\<rho> (kb k)" "tip_fits ps (Extension a p)" "?\<pi> \<noteq> []"
    using assms(1) by (auto simp: scan_result_def Let_def)
  from sr(2) obtain g pb where g: "a \<noteq> []" "p = NodePointer g" "s g = Some (Node pb)"
    "trie_repr kb s ?\<rho> (Node pb) mt" "mt \<noteq> Map.empty"
    by (elim trie_repr_ExtensionE) blast
  have ps: "ps \<noteq> []" using sr(6) by auto
  have len: "length ?S < length (kb k)" "length ?S < length ?\<rho>"
    using common_prefix_short(2) [OF sr(4)] sr(3) by auto
  have p\<rho>: "prefix ?\<pi> ?\<rho>" by simp
  obtain pa where pa: "?S = ?\<pi> @ pa" "prefix ((?\<pi> @ pa) @ [kb k ! length ?S]) (kb k)"
    "prefix ((?\<pi> @ pa) @ [?\<rho> ! length ?S]) ?\<rho>" "?\<rho> ! length ?S \<noteq> kb k ! length ?S"
    by (rule split_path [OF sr(1) p\<rho> refl len])
  define x where "x = ?\<rho> ! length ?S"
  define y where "y = kb k ! length ?S"
  note pa = pa [folded x_def y_def]
  obtain ca where a: "a = pa @ x # ca"
    using pa(3) by (auto simp: prefix_def)
  have \<rho>: "((?\<pi> @ pa) @ [x]) @ ca = ?\<rho>" by (simp add: a)
  have S: "common_prefix (kb k) (?\<pi> @ pa @ x # ca) = ?\<pi> @ pa" using pa(1) by (simp add: a)
  define extra :: "('k, 'v) trie list" where
    "extra = (if ca = [] then [] else [Extension ca p])"
  define c :: "('k, 'v) trie" where "c = (if ca = [] then Node pb else Extension ca p)"
  define np where "np = (if ca = [] then p else NodePointer (h c))"
  have short: "length a \<le> 1000"
    using sr(3) kb_short [of k] by simp
  then have extra_ok: "\<forall>u \<in> set extra. parent_ok u"
    by (auto simp: extra_def a)
  let ?n = "Node (pointer_block_new(x := Some np)) :: ('k, 'v) trie"
  obtain nb where nb: "ser ?n = Ok nb" using parent_ser [of ?n] by auto
  let ?qs = "branch (pa ! 0) pa (H nb) y x np"
  obtain cb where cb: "ca \<noteq> [] \<Longrightarrow> ser (Extension ca p) = Ok cb \<and> H cb = h c \<and> c = Extension ca p"
    using parent_ser [of "Extension ca p"] short by (cases "ca = []") (auto simp: c_def a)
  have split: "split_extension H ser (kb k) (Extension a p) ps =
      Ok (?n, ps @ (if pa = [] then [] else [(pa ! 0, Extension pa (NodePointer (H nb)))]),
          if ca = [] then None else Some (h c, c))"
    using nb cb S by (cases "ca = []") (simp_all add: split_extension_def Let_def np_def a)
  have add: "add_node_to_parents (kb k) ?n
      (ps @ (if pa = [] then [] else [(pa ! 0, Extension pa (NodePointer (H nb)))])) = Ok (ps @ ?qs)"
    using add_node_branch [OF prefix_snoc_strict [OF pa(2), THEN conjunct1]] by (simp add: y_def pa(1))
  have "length pa \<le> 1000" using pa(2) kb_short [of k] by (auto dest: prefix_length_le)
  then have "rehash H ser (Leaf k v) (ps @ ?qs) =
      Ok (map (\<lambda>u. (h u, u)) (rebuilt h (ps @ ?qs) (Leaf k v)))"
    using assms(3) branch_parents_ok [of pa "pa ! 0" "H nb" y x np]
    by (intro rehash_Ok [OF assms(2)]) auto
  then have "new_elements H key_ser ser k v (kb k) (Extension a p) ps =
      Ok (map (\<lambda>u. (h u, u)) (extra @ rebuilt h (ps @ ?qs) (Leaf k v)))"
    by (simp add: new_elements_def split add extra_def c_def)
  moreover have "creates s k v ps mt ?qs extra"
  proof (rule branch_creates [where c = c, OF pa(2,4) g(5) _ ps extra_ok])
    show "\<not> (ps \<noteq> [] \<and> is_extension (snd (last ps)))" using sr(5) by (simp add: tip_fits_def)
  next
    fix s' assume s': "s \<subseteq>\<^sub>m s'" "\<forall>u \<in> set extra. s' (h u) = Some u"
    have pb: "s' g = Some (Node pb)" "trie_repr kb s' ?\<rho> (Node pb) mt"
      using g(3,4) s'(1) trie_repr_mono by (auto simp: map_le_def dom_def)
    show "s' (pointer_hash np) = Some c \<and> np = tip_pointer c (pointer_hash np)
        \<and> trie_repr kb s' ((?\<pi> @ pa) @ [x]) c mt"
    proof (cases "ca = []")
      case True
      then have "(?\<pi> @ pa) @ [x] = ?\<rho>" using \<rho> by simp
      then show ?thesis using True pb by (simp add: c_def np_def g(2))
    next
      case False
      have "trie_repr kb s' ((?\<pi> @ pa) @ [x]) (Extension ca (NodePointer g)) mt"
        using pb g(5) False by (intro trie_repr.Extension) (simp_all add: a)
      then show ?thesis using False s'(2) by (simp add: c_def np_def extra_def g(2))
    qed
  qed
  ultimately show ?thesis by blast
qed

end

end
