(* ===== verification/Trie_Store.thy ===== *)
theory Trie_Store
  imports Trie_Write
begin

text \<open>
  The contract of a content-addressed trie store and what \<^verbatim>\<open>read\<close> and \<^verbatim>\<open>write\<close> do on it.

  A trie is determined by the map it represents, whatever store it lives in
  (\<open>trie_repr_unique\<close>): the root hash is a function of the contents. A write returns a root that
  represents the updated map, in a store that keeps every element of the old one, provided that the hash
  has no collision among the elements of the store and those the write creates.
\<close>

section \<open>Tries are determined by their contents\<close>

definition hash_ok :: "(('k, 'v) trie \<Rightarrow> blake2b_hash) \<Rightarrow> ('k, 'v) store \<Rightarrow> bool" where
  "hash_ok h s \<longleftrightarrow> (\<forall>x t. s x = Some t \<longrightarrow> x = h t)"

lemma map_leD: "m \<subseteq>\<^sub>m m' \<Longrightarrow> m x = Some y \<Longrightarrow> m' x = Some y"
  by (auto simp: map_le_def dom_def)

lemma hash_okD: "hash_ok h s \<Longrightarrow> s x = Some t \<Longrightarrow> x = h t"
  by (simp add: hash_ok_def)

inductive_simps trie_repr_Leaf_iff: "trie_repr kb s \<pi> (Leaf k v) m"

lemma trie_repr_NodeD:
  assumes "trie_repr kb s \<pi> (Node pb) m"
  obtains T M where "\<And>i p. pb i = Some p \<Longrightarrow> s (pointer_hash p) = Some (T i)"
    "\<And>i p. pb i = Some p \<Longrightarrow> p = tip_pointer (T i) (pointer_hash p)"
    "\<And>i p. pb i = Some p \<Longrightarrow> trie_repr kb s (\<pi> @ [i]) (T i) (M i)"
    "\<And>i. pb i = None \<longleftrightarrow> M i = Map.empty"
    "\<And>i k. M i k = (if prefix (\<pi> @ [i]) (kb k) then m k else None)"
    "\<pi> = [] \<or> branching pb"
proof -
  obtain T M where 1: "\<And>i p. pb i = Some p \<Longrightarrow> s (pointer_hash p) = Some (T i)"
    "\<And>i p. pb i = Some p \<Longrightarrow> p = tip_pointer (T i) (pointer_hash p)"
    "\<And>i p. pb i = Some p \<Longrightarrow> M i \<noteq> Map.empty"
    "\<And>i p. pb i = Some p \<Longrightarrow> trie_repr kb s (\<pi> @ [i]) (T i) (M i)"
    "\<And>i. pb i = None \<Longrightarrow> M i = Map.empty" "\<pi> = [] \<or> branching pb"
    "m = (\<lambda>k. if strict_prefix \<pi> (kb k) then M (kb k ! length \<pi>) k else None)"
    using assms by (elim trie_repr_NodeE) blast
  have "M i k = (if prefix (\<pi> @ [i]) (kb k) then m k else None)" for i k
  proof (cases "pb i")
    case None
    then show ?thesis using 1 prefix_snoc_strict [of \<pi> i "kb k"] by auto
  next
    case (Some p)
    then show ?thesis
      using 1 trie_repr_None [of kb s "\<pi> @ [i]" "T i" "M i" k] prefix_snoc_strict [of \<pi> i "kb k"] by auto
  qed
  moreover have "pb i = None \<longleftrightarrow> M i = Map.empty" for i using 1 by (cases "pb i") auto
  ultimately show ?thesis using that [of T M] 1 by blast
qed

text \<open>Below the root, the keys of a node differ right after its path.\<close>

lemma branching_keys:
  assumes "trie_repr kb s \<pi> (Node pb) m" "\<pi> \<noteq> []"
  obtains k l where "m k \<noteq> None" "m l \<noteq> None" "strict_prefix \<pi> (kb k)" "strict_prefix \<pi> (kb l)"
    "kb k ! length \<pi> \<noteq> kb l ! length \<pi>"
proof -
  obtain M where M: "\<And>i. pb i = None \<longleftrightarrow> M i = Map.empty"
    "\<And>i k. M i k = (if prefix (\<pi> @ [i]) (kb k) then m k else None)" "branching pb"
    using assms by (auto elim: trie_repr_NodeD)
  then obtain i j where ij: "i \<noteq> j" "M i \<noteq> Map.empty" "M j \<noteq> Map.empty"
    by (auto simp: branching_def)
  then obtain k l v w where "M i k = Some v" "M j l = Some w" by (meson not_Some_eq ext)
  then have "m k \<noteq> None" "prefix (\<pi> @ [i]) (kb k)" "m l \<noteq> None" "prefix (\<pi> @ [j]) (kb l)"
    by (simp_all add: M(2) split: if_splits)
  then show ?thesis using that ij(1) prefix_snoc_strict by metis
qed

lemma prefix_nth: "prefix xs ys \<Longrightarrow> i < length xs \<Longrightarrow> ys ! i = xs ! i"
  by (auto simp: prefix_def nth_append)

lemma branching_not_leaf:
  assumes "trie_repr kb s \<pi> (Node pb) m" "\<pi> \<noteq> []" shows "m \<noteq> [k \<mapsto> v]"
  using assms by (elim branching_keys) (auto split: if_splits)

lemma branching_longest:
  assumes "trie_repr kb s \<pi> (Node pb) m" "\<pi> \<noteq> []" "\<And>k. m k \<noteq> None \<Longrightarrow> prefix \<rho> (kb k)"
  shows "prefix \<rho> \<pi>"
proof -
  obtain k l where kl: "m k \<noteq> None" "m l \<noteq> None" "strict_prefix \<pi> (kb k)" "strict_prefix \<pi> (kb l)"
    "kb k ! length \<pi> \<noteq> kb l ! length \<pi>"
    using assms(1,2) by (rule branching_keys)
  have "length \<rho> \<le> length \<pi>"
  proof (rule ccontr)
    assume "\<not> length \<rho> \<le> length \<pi>"
    then have "kb k ! length \<pi> = kb l ! length \<pi>"
      using prefix_nth [OF assms(3) [OF kl(1)]] prefix_nth [OF assms(3) [OF kl(2)]] by simp
    with kl(5) show False ..
  qed
  then show ?thesis
    using prefix_length_prefix [OF assms(3) [OF kl(1)]] kl(3) by (simp add: strict_prefix_def)
qed

lemma trie_repr_unique:
  assumes "trie_repr kb s \<pi> t m" "trie_repr kb s' \<pi> t' m" "hash_ok h s" "hash_ok h s'"
    "\<pi> = [] \<Longrightarrow> is_node t \<and> is_node t'"
  shows "t = t'"
  using assms
proof (induction arbitrary: t' rule: trie_repr.induct)
  case (Leaf \<pi> k v)
  show ?case
  proof (cases t')
    case (Leaf l w)
    then have "[k \<mapsto> v] = [l \<mapsto> w]" using Leaf.prems(1) by (simp only: trie_repr_Leaf_iff)
    then show ?thesis using Leaf by (metis fun_upd_same fun_upd_other option.inject option.distinct(1))
  next
    case (Node pb)
    then show ?thesis using branching_not_leaf [of kb s' \<pi> pb] Leaf.prems by fastforce
  next
    case (Extension a p)
    then obtain pb where "a \<noteq> []" "trie_repr kb s' (\<pi> @ a) (Node pb) [k \<mapsto> v]"
      using Leaf.prems(1) by (blast elim: trie_repr_ExtensionE)
    then show ?thesis using branching_not_leaf [of kb s' "\<pi> @ a" pb] by blast
  qed
next
  case (Node pb T M \<pi>)
  let ?m = "\<lambda>k. if strict_prefix \<pi> (kb k) then M (kb k ! length \<pi>) k else None"
  have rep: "trie_repr kb s \<pi> (Node pb) ?m" using Node.hyps by (rule trie_repr.Node)
  show ?case
  proof (cases t')
    case (Leaf l w)
    then show ?thesis
      using Node.prems branching_not_leaf [OF rep, of l w] by (simp only: trie_repr_Leaf_iff) auto
  next
    case (Extension a p)
    then have ne: "\<pi> \<noteq> []" using Node.prems(4) by auto
    obtain pb' where a: "a \<noteq> []" "trie_repr kb s' (\<pi> @ a) (Node pb') ?m"
      using Node.prems(1) Extension by (auto elim: trie_repr_ExtensionE)
    have "prefix (\<pi> @ a) \<pi>"
      by (rule branching_longest [OF rep ne]) (use trie_repr_prefix [OF a(2)] in blast)
    then show ?thesis using a(1) by (auto dest: prefix_length_le)
  next
    case (Node pb')
    obtain T' M' where TM: "\<And>i p. pb' i = Some p \<Longrightarrow> s' (pointer_hash p) = Some (T' i)"
      "\<And>i p. pb' i = Some p \<Longrightarrow> p = tip_pointer (T' i) (pointer_hash p)"
      "\<And>i p. pb' i = Some p \<Longrightarrow> trie_repr kb s' (\<pi> @ [i]) (T' i) (M' i)"
      "\<And>i. pb' i = None \<longleftrightarrow> M' i = Map.empty"
      "\<And>i k. M' i k = (if prefix (\<pi> @ [i]) (kb k) then ?m k else None)"
      using Node.prems(1) unfolding Node by (elim trie_repr_NodeD) blast
    have M: "M i = M' i" for i
    proof
      fix k
      show "M i k = M' i k"
        using TM(5) [of i k] prefix_snoc_strict [of \<pi> i "kb k"] Node.hyps(5) [of i]
          trie_repr_None [OF Node.hyps(4), of i _ k]
        by (cases "pb i") auto
    qed
    have "pb i = pb' i" for i
    proof (cases "pb i")
      case None
      then show ?thesis using Node.hyps(5) [of i] TM(4) [of i] M [of i] by simp
    next
      case (Some p)
      then obtain p' where p': "pb' i = Some p'" using Node.hyps(3) TM(4) [of i] M [of i] by fastforce
      have "T i = T' i"
        using Node.IH [OF Some, of "T' i"] TM(3) [OF p'] M [of i] Node.prems(2,3) by simp
      then have "p = p'"
        using Node.hyps(1,2) [OF Some] TM(1,2) [OF p'] Node.prems(2,3) hash_okD by metis
      then show ?thesis using Some p' by simp
    qed
    then show ?thesis using Node by auto
  qed
next
  case (Extension a g pb \<pi> m)
  have ne: "\<pi> \<noteq> []" using Extension.prems(4) by auto
  show ?case
  proof (cases t')
    case (Leaf l w)
    then show ?thesis
      using Extension.prems(1) branching_not_leaf [OF Extension.hyps(3), of l w] ne
      by (auto elim: trie_repr_LeafE)
  next
    case (Node pb')
    have "prefix (\<pi> @ a) \<pi>"
      by (rule branching_longest [OF Extension.prems(1) [unfolded Node] ne])
        (use trie_repr_prefix [OF Extension.hyps(3)] in blast)
    then show ?thesis using Extension.hyps(1) by (auto dest: prefix_length_le)
  next
    case (Extension a' p)
    then obtain g' pb' where g': "p = NodePointer g'" "s' g' = Some (Node pb')"
      "trie_repr kb s' (\<pi> @ a') (Node pb') m"
      using Extension.prems(1) by (auto elim: trie_repr_ExtensionE)
    have "prefix (\<pi> @ a') (\<pi> @ a)"
      by (rule branching_longest [OF Extension.hyps(3)]) (use ne trie_repr_prefix [OF g'(3)] in blast)+
    moreover have "prefix (\<pi> @ a) (\<pi> @ a')"
      by (rule branching_longest [OF g'(3)]) (use ne trie_repr_prefix [OF Extension.hyps(3)] in blast)+
    ultimately have a: "a' = a" by (simp add: prefix_order.order_antisym)
    have "Node pb = Node pb'"
      using Extension.IH [of "Node pb'"] g'(3) a ne Extension.prems by simp
    then show ?thesis
      using Extension a g' Extension.hyps(2) Extension.prems(2,3) hash_okD by metis
  qed
qed

section \<open>The elements of a write, for every tip\<close>

context trie_writer
begin

lemma rebuild_is_node:
  "spine s t ps tip \<Longrightarrow> is_node t \<Longrightarrow> (ps = [] \<Longrightarrow> is_node u) \<Longrightarrow> is_node (rebuild h ps u)"
  by (cases rule: spine.cases) auto

lemma plug_ok: "parent_ok (snd p) \<Longrightarrow> parent_ok (plug h p u)"
  using parent_ok_plug by (cases p) auto

lemma rebuilt_ok:
  "\<forall>(i, u) \<in> set ps. parent_ok u \<Longrightarrow> u \<in> set (rebuilt h ps t) \<Longrightarrow> u = t \<or> parent_ok u"
  by (induction ps) (auto intro: parent_ok_plug)

text \<open>What a list of created elements means for the map \<open>m\<close> of the old root.\<close>

definition writes :: "('k, 'v) store \<Rightarrow> ('k \<rightharpoonup> 'v) \<Rightarrow> 'k \<Rightarrow> 'v \<Rightarrow> ('k, 'v) trie list \<Rightarrow> bool" where
  "writes s m k v els \<longleftrightarrow>
     (\<forall>u \<in> set els. u = Leaf k v \<or> parent_ok u) \<and> is_node (last els) \<and>
     (\<forall>s'. s \<subseteq>\<^sub>m s' \<longrightarrow> (\<forall>u \<in> set els. s' (h u) = Some u) \<longrightarrow>
        trie_repr kb s' [] (last els) (m(k \<mapsto> v)))"

lemma creates_writes:
  assumes "scan_result kb s k [] t m tip ps mt" "trie_repr kb s [] t m" "is_node t"
    "creates s k v ps mt qs extra"
  shows "writes s m k v (extra @ rebuilt h (ps @ qs) (Leaf k v))"
proof -
  let ?leaf = "Leaf k v" and ?\<pi> = "get_parents_path ps"
  have sr: "spine s t ps tip" "prefix ?\<pi> (kb k)" "\<And>l. prefix ?\<pi> (kb l) \<Longrightarrow> m l = mt l"
    using assms(1) by (auto simp: scan_result_def Let_def)
  have cr: "\<And>s'. s \<subseteq>\<^sub>m s' \<Longrightarrow> \<forall>u \<in> set extra \<union> set (rebuilt h qs ?leaf). s' (h u) = Some u \<Longrightarrow>
      trie_repr kb s' ?\<pi> (rebuild h qs ?leaf) (mt(k \<mapsto> v))"
    "tip_fits ps (rebuild h qs ?leaf)" "\<forall>(i, u) \<in> set qs. parent_ok u" "\<forall>u \<in> set extra. parent_ok u"
    "ps = [] \<Longrightarrow> is_node (rebuild h qs ?leaf)"
    using assms(4) by (auto simp: creates_def)
  have ne: "rebuilt h (ps @ qs) ?leaf \<noteq> []" using rebuild_in_rebuilt [of h "ps @ qs" ?leaf] by auto
  have last: "last (extra @ rebuilt h (ps @ qs) ?leaf) = rebuild h ps (rebuild h qs ?leaf)"
    using ne by (simp add: last_rebuilt)
  have "\<forall>(i, u) \<in> set (ps @ qs). parent_ok u"
    using spine_parents_ok [OF sr(1) assms(2)] cr(3) by auto
  then have "\<forall>u \<in> set (extra @ rebuilt h (ps @ qs) ?leaf). u = ?leaf \<or> parent_ok u"
    using cr(4) rebuilt_ok [of "ps @ qs" _ ?leaf] by (simp only: set_append Un_iff) blast
  moreover have "is_node (rebuild h ps (rebuild h qs ?leaf))"
    using rebuild_is_node [OF sr(1) assms(3) cr(5)] .
  moreover have "trie_repr kb s' [] (rebuild h ps (rebuild h qs ?leaf)) (m(k \<mapsto> v))"
    if s': "s \<subseteq>\<^sub>m s'" "\<forall>u \<in> set (extra @ rebuilt h (ps @ qs) ?leaf). s' (h u) = Some u" for s'
  proof -
    have "trie_repr kb s' ([] @ ?\<pi>) (rebuild h qs ?leaf) (mt(k \<mapsto> v))"
      using s' unfolding append_Nil by (intro cr(1)) (auto simp: set_rebuilt_append)
    then have "trie_repr kb s' [] (rebuild h ps (rebuild h qs ?leaf))
        (\<lambda>l. if prefix ([] @ ?\<pi>) (kb l) then (mt(k \<mapsto> v)) l else m l)"
      using s'(2) cr(2)
      by (intro rebuild_repr [OF sr(1) assms(2) s'(1), where m' = "mt(k \<mapsto> v)"])
        (simp_all add: set_rebuilt_append)
    moreover have "(\<lambda>l. if prefix ([] @ ?\<pi>) (kb l) then (mt(k \<mapsto> v)) l else m l) = m(k \<mapsto> v)"
      using sr(2,3) by auto
    ultimately show ?thesis by simp
  qed
  ultimately show ?thesis by (simp add: writes_def last)
qed

lemma new_elements_correct:
  assumes "trie_repr kb s [] t m" "is_node t" "ser (Leaf k v) = Ok b"
    "scan_result kb s k [] t m tip ps mt"
  shows "\<exists>els. new_elements H key_ser ser k v (kb k) tip ps = Ok (map (\<lambda>u. (h u, u)) els)
    \<and> (if m k = Some v then els = [] else els \<noteq> [] \<and> writes s m k v els)"
proof -
  have sr: "spine s t ps tip" "prefix (get_parents_path ps) (kb k)"
    "trie_repr kb s (get_parents_path ps) tip mt" "m k = mt k"
    using assms(4) by (auto simp: scan_result_def Let_def)
  note ok = spine_parents_ok [OF sr(1) assms(1)]
  have ne: "rebuilt h (ps @ qs) u \<noteq> []" for qs u using rebuild_in_rebuilt [of h "ps @ qs" u] by auto
  have step: ?thesis if "m k \<noteq> Some v" "creates s k v ps mt qs extra"
    "new_elements H key_ser ser k v (kb k) tip ps =
      Ok (map (\<lambda>u. (h u, u)) (extra @ rebuilt h (ps @ qs) (Leaf k v)))" for qs extra
    using that creates_writes [OF assms(4,1,2) that(2)] ne by (intro exI [of _ "extra @ rebuilt h (ps @ qs) (Leaf k v)"]) simp
  show ?thesis
  proof (cases tip)
    case (Leaf l w)
    then have mt: "mt = [l \<mapsto> w]" using sr(3) by (simp only: trie_repr_Leaf_iff)
    consider "l = k" "w = v" | "l = k" "w \<noteq> v" | "l \<noteq> k" by blast
    then show ?thesis
    proof cases
      case 1
      then show ?thesis using sr(4) by (simp add: mt Leaf new_elements_def)
    next
      case 2
      then show ?thesis
        using new_elements_same_leaf [of s k t m w ps mt v b] assms(3,4) ok Leaf step [of _ "[]"] sr(4)
        by (auto simp: mt)
    next
      case 3
      then show ?thesis
        using new_elements_other_leaf [of s k t m l w ps mt v b] assms(1,3,4) ok Leaf step [of _ "[]"] sr(4)
        by (auto simp: mt)
    qed
  next
    case (Node pb)
    have "mt k = None"
      using assms(4) sr(3) unfolding Node
      by (auto simp: scan_result_def Let_def elim!: trie_repr_NodeE)
    then show ?thesis
      using new_elements_node [of s k t m pb ps mt v b] assms(3,4) ok Node step [of _ "[]"] sr(4) by auto
  next
    case (Extension a p)
    have "mt k = None"
      using assms(4) sr(3) unfolding Extension
      by (auto simp: scan_result_def Let_def elim!: trie_repr_ExtensionE dest: trie_repr_None)
    then show ?thesis
      using new_elements_extension [of s k t m a p ps mt v b] assms(3,4) ok Extension step sr(4) by auto
  qed
qed

end

section \<open>The store\<close>

text \<open>The elements that a \<^verbatim>\<open>write\<close> stores.\<close>

definition write_elements ::
    "('s \<Rightarrow> ('k, 'v) getter) \<Rightarrow> (bytes \<Rightarrow> blake2b_hash) \<Rightarrow> 'k ser \<Rightarrow> (('k, 'v) trie) ser \<Rightarrow> 's \<Rightarrow>
     blake2b_hash \<Rightarrow> 'k \<Rightarrow> 'v \<Rightarrow> ('k, 'v) trie list" where
  "write_elements get H key_to_bytes ser s root key value =
     (case (get s root, key_to_bytes key) of
        (Ok (Some t), Ok path) \<Rightarrow>
          (case scan (get s) path t of
             Some (Ok (tip, parents)) \<Rightarrow>
               (case new_elements H key_to_bytes ser key value path tip parents of
                  Ok els \<Rightarrow> map snd els
                | _ \<Rightarrow> [])
           | _ \<Rightarrow> [])
      | _ \<Rightarrow> [])"

text \<open>
  What a trie store promises: \<open>view\<close> is what it holds, \<open>ok\<close> which elements survive being written and read
  back.
\<close>

locale trie_store = trie_writer kb key_ser val_ser H ser h
  for kb :: "'k \<Rightarrow> bytes" and key_ser :: "'k ser" and val_ser :: "'v ser"
    and H :: "bytes \<Rightarrow> blake2b_hash" and ser :: "(('k, 'v) trie) ser" and h :: "('k, 'v) trie \<Rightarrow> blake2b_hash" +
  fixes view :: "'s \<Rightarrow> ('k, 'v) store" and inv :: "'s \<Rightarrow> bool" and ok :: "('k, 'v) trie \<Rightarrow> bool"
    and get :: "'s \<Rightarrow> ('k, 'v) getter" and put :: "('s, 'k, 'v) putter"
  assumes get_view: "inv s \<Longrightarrow> get s x = Ok (view s x)"
    and put_view: "inv s \<Longrightarrow> ok t \<Longrightarrow> ser t = Ok b \<Longrightarrow>
      \<exists>s'. put s x t = (Ok (), s') \<and> inv s' \<and> view s' = (view s)(x \<mapsto> t)"
    and parent_store_ok: "parent_ok t \<Longrightarrow> ok t"
begin

text \<open>The root \<open>root\<close> holds the map \<open>m\<close>.\<close>

definition holds :: "'s \<Rightarrow> blake2b_hash \<Rightarrow> ('k \<rightharpoonup> 'v) \<Rightarrow> bool" where
  "holds s root m \<longleftrightarrow> (\<exists>t. view s root = Some t \<and> is_node t \<and> trie_repr kb (view s) [] t m)"

lemma holds_mono: "holds s root m \<Longrightarrow> view s \<subseteq>\<^sub>m view s' \<Longrightarrow> holds s' root m"
  unfolding holds_def by (meson trie_repr_mono map_leD)

lemma read_correct:
  assumes "inv s" "holds s root m"
  shows "trie_read (get s) key_ser root k = Some (Ok (case m k of Some v \<Rightarrow> Found v | None \<Rightarrow> NotFound))"
proof -
  obtain t where t: "view s root = Some t" "is_node t" "trie_repr kb (view s) [] t m"
    using assms(2) by (auto simp: holds_def)
  show ?thesis
    using read_loop_correct [OF t(3), of "get s" k] t(1,2) get_view [OF assms(1)]
    by (simp add: trie_read_def key_ser)
qed

lemma read_no_root: "inv s \<Longrightarrow> view s root = None \<Longrightarrow> trie_read (get s) key_ser root k = Some (Ok RootNotFound)"
  by (simp add: trie_read_def key_ser get_view)

lemma write_no_root:
  "inv s \<Longrightarrow> view s root = None \<Longrightarrow>
   trie_write get put H key_ser ser s root k v = Some (Ok Write_RootNotFound, s)"
  by (simp add: trie_write_def get_view)

text \<open>The same map, reached in whatever way, has the same root hash.\<close>

lemma root_unique:
  assumes "holds s root m" "holds s' root' m" "hash_ok h (view s)" "hash_ok h (view s')"
  shows "root = root'"
proof -
  obtain t t' where t: "view s root = Some t" "is_node t" "trie_repr kb (view s) [] t m"
    "view s' root' = Some t'" "is_node t'" "trie_repr kb (view s') [] t' m"
    using assms(1,2) by (auto simp: holds_def)
  then have "t = t'" using trie_repr_unique [OF t(3,6) assms(3,4)] by blast
  then show ?thesis using hash_okD [OF assms(3) t(1)] hash_okD [OF assms(4) t(4)] by simp
qed

lemma put_all_correct:
  assumes "inv s" "hash_ok h (view s)" "inj_on h (ran (view s) \<union> set els)"
    "\<forall>u \<in> set els. ok u \<and> (\<exists>b. ser u = Ok b)"
  shows "\<exists>s'. put_all put s root (map (\<lambda>u. (h u, u)) els) = (Ok (if els = [] then root else h (last els)), s')
    \<and> inv s' \<and> hash_ok h (view s') \<and> view s \<subseteq>\<^sub>m view s' \<and> ran (view s') \<subseteq> ran (view s) \<union> set els
    \<and> (\<forall>u \<in> set els. view s' (h u) = Some u)"
  using assms
proof (induction els arbitrary: s root)
  case (Cons u els)
  then obtain b where b: "ok u" "ser u = Ok b" by auto
  obtain s1 where s1: "put s (h u) u = (Ok (), s1)" "inv s1" "view s1 = (view s)(h u \<mapsto> u)"
    using put_view [OF Cons.prems(1) b, of "h u"] by blast
  have "hash_ok h (view s1)" using Cons.prems(2) by (auto simp: hash_ok_def s1(3))
  moreover have ran: "ran (view s1) \<subseteq> ran (view s) \<union> {u}" by (auto simp: s1(3) ran_def)
  then have "inj_on h (ran (view s1) \<union> set els)"
    using Cons.prems(3) by (auto intro: inj_on_subset)
  ultimately obtain s' where s': "put_all put s1 (h u) (map (\<lambda>u. (h u, u)) els) =
      (Ok (if els = [] then h u else h (last els)), s')" "inv s'" "hash_ok h (view s')"
    "view s1 \<subseteq>\<^sub>m view s'" "ran (view s') \<subseteq> ran (view s1) \<union> set els"
    "\<forall>u \<in> set els. view s' (h u) = Some u"
    using Cons.IH [OF s1(2)] Cons.prems(4) by fastforce
  have "view s \<subseteq>\<^sub>m view s1"
  proof -
    have "t = u" if "view s (h u) = Some t" for t
      using that hash_okD [OF Cons.prems(2) that] Cons.prems(3) by (auto simp: inj_on_def ran_def)
    then show ?thesis by (auto simp: map_le_def s1(3) dom_def)
  qed
  moreover have "view s' (h u) = Some u" using s'(4) by (auto simp: s1(3) map_le_def)
  ultimately show ?case using s1 s' ran map_le_trans [of "view s" "view s1" "view s'"] by auto
qed simp

lemma write_elements_eq:
  assumes "inv s" "view s root = Some t" "scan (get s) (kb k) t = Some (Ok (tip, ps))"
    "new_elements H key_ser ser k v (kb k) tip ps = Ok (map (\<lambda>u. (h u, u)) els)"
  shows "write_elements get H key_ser ser s root k v = els"
  using assms by (simp add: write_elements_def get_view key_ser comp_def)

text \<open>A write of a value that is there changes nothing; any other one makes a root for the updated map.\<close>

lemma write_correct:
  assumes "inv s" "hash_ok h (view s)" "holds s root m" "ser (Leaf k v) = Ok b" "ok (Leaf k v)"
    "inj_on h (ran (view s) \<union> set (write_elements get H key_ser ser s root k v))"
  shows "if m k = Some v then trie_write get put H key_ser ser s root k v = Some (Ok AlreadyExists, s)
    else \<exists>root' s'. trie_write get put H key_ser ser s root k v = Some (Ok (Written root'), s')
      \<and> inv s' \<and> hash_ok h (view s') \<and> view s \<subseteq>\<^sub>m view s' \<and> holds s' root' (m(k \<mapsto> v))
      \<and> ran (view s') \<subseteq> ran (view s) \<union> set (write_elements get H key_ser ser s root k v)"
proof -
  obtain t where t: "view s root = Some t" "is_node t" "trie_repr kb (view s) [] t m"
    using assms(3) by (auto simp: holds_def)
  obtain tip ps mt where sc: "scan (get s) (kb k) t = Some (Ok (tip, ps))"
    "scan_result kb (view s) k [] t m tip ps mt"
    using scan_loop_correct [OF t(3) get_view [OF assms(1)], of k "[]"] t(2) by (auto simp: scan_def)
  obtain els where els: "new_elements H key_ser ser k v (kb k) tip ps = Ok (map (\<lambda>u. (h u, u)) els)"
    "if m k = Some v then els = [] else els \<noteq> [] \<and> writes (view s) m k v els"
    using new_elements_correct [OF t(3,2) assms(4) sc(2)] by blast
  have w: "trie_write get put H key_ser ser s root k v =
      (if els = [] then Some (Ok AlreadyExists, s)
       else case put_all put s root (map (\<lambda>u. (h u, u)) els) of
         (r, s') \<Rightarrow> Some (and_then r (\<lambda>root_hash. Ok (Written root_hash)), s'))"
    using get_view [OF assms(1), of root] t(1) sc(1) els(1) by (simp add: trie_write_def key_ser)
  show ?thesis
  proof (cases "m k = Some v")
    case True
    then show ?thesis using els(2) w by simp
  next
    case False
    then have wr: "els \<noteq> []" "writes (view s) m k v els" using els(2) by auto
    have "\<forall>u \<in> set els. ok u \<and> (\<exists>b. ser u = Ok b)"
      using wr(2) assms(4,5) parent_ser parent_store_ok by (fastforce simp: writes_def)
    moreover have we: "write_elements get H key_ser ser s root k v = els"
      by (rule write_elements_eq [OF assms(1) t(1) sc(1) els(1)])
    then have "inj_on h (ran (view s) \<union> set els)" using assms(6) by simp
    ultimately obtain s' where s': "put_all put s root (map (\<lambda>u. (h u, u)) els) = (Ok (h (last els)), s')"
      "inv s'" "hash_ok h (view s')" "view s \<subseteq>\<^sub>m view s'" "\<forall>u \<in> set els. view s' (h u) = Some u"
      "ran (view s') \<subseteq> ran (view s) \<union> set els"
      using put_all_correct [OF assms(1,2), of els root] wr(1) by auto
    have "holds s' (h (last els)) (m(k \<mapsto> v))"
      using wr s'(4,5) last_in_set [OF wr(1)] by (auto simp: holds_def writes_def)
    then show ?thesis using False w wr(1) s' we by auto
  qed
qed

end

end
