(* ===== verification/Uint.thy ===== *)
theory Uint
  imports Bytesrepr
begin

text \<open>
  \<^verbatim>\<open>types/src/uint.rs\<close> (the 128, 256 and 512 bit integers), \<^verbatim>\<open>engine-shared/src/gas.rs\<close> and
  \<^verbatim>\<open>engine-shared/src/motes.rs\<close>. The integers are words of their width; as documented for the
  \<^verbatim>\<open>construct_uint!\<close> types, the operators panic on overflow, underflow and division by zero, and
  \<^verbatim>\<open>checked_*\<close>, \<^verbatim>\<open>saturating_*\<close> and \<^verbatim>\<open>overflowing_*\<close> do not. Their value is an array of 64 bit limbs, least
  significant first, which the conversions of the source read and write directly.

  The lemmas: the compact encoding is a codec and canonical, the conversions from the signed
  types are sign extension, those between the widths are truncation or zero extension, and
  converting gas to motes and back is exact.
\<close>

unbundle bit_operations_syntax

type_synonym U128 = "128 word"
type_synonym U256 = "256 word"
type_synonym U512 = "512 word"

section \<open>Serialization\<close>

definition uint_to_bytes :: "nat \<Rightarrow> ('n::len word) ser" where
  "uint_to_bytes total_bytes w =
     (let buf = to_le_bytes total_bytes w;
          non_zero_bytes = dropWhile (\<lambda>b. b = 0) (rev buf);
          num_bytes = word_of_nat (length non_zero_bytes) :: u8
      in Ok (rev (non_zero_bytes @ [num_bytes])))"

definition uint_from_bytes :: "nat \<Rightarrow> ('n::len word) de" where
  "uint_from_bytes total_bytes bs =
     and_then (u8_from_bytes bs) (\<lambda>(num_bytes, rem).
       if unat num_bytes > total_bytes then Err FormattingError
       else and_then (safe_split_at rem (unat num_bytes)) (\<lambda>(value, rem').
         Ok (from_le_bytes value, rem')))"

abbreviation u128_to_bytes :: "U128 ser" where "u128_to_bytes \<equiv> uint_to_bytes 16"
abbreviation u128_from_bytes :: "U128 de" where "u128_from_bytes \<equiv> uint_from_bytes 16"
abbreviation u256_to_bytes :: "U256 ser" where "u256_to_bytes \<equiv> uint_to_bytes 32"
abbreviation u256_from_bytes :: "U256 de" where "u256_from_bytes \<equiv> uint_from_bytes 32"
abbreviation u512_to_bytes :: "U512 ser" where "u512_to_bytes \<equiv> uint_to_bytes 64"
abbreviation u512_from_bytes :: "U512 de" where "u512_from_bytes \<equiv> uint_from_bytes 64"

text \<open>\<^verbatim>\<open>Num::from_str_radix\<close>; \<open>from_dec_str\<close> is the parser of the \<^verbatim>\<open>uint\<close> crate.\<close>

datatype 'e uint_parse_error = FromDecStr 'e | InvalidRadix

definition from_str_radix ::
    "(rstring \<Rightarrow> ('n::len word, 'e) result) \<Rightarrow> rstring \<Rightarrow> u32 \<Rightarrow> ('n word, 'e uint_parse_error) result"
where
  "from_str_radix from_dec_str s radix =
     (if radix = 10 then map_err FromDecStr (from_dec_str s) else Err InvalidRadix)"

section \<open>Operators and conversions\<close>

definition uint_add :: "'n::len word \<Rightarrow> 'n word \<Rightarrow> ('n word, 'e) result" where
  "uint_add a b = expect (checked_add a b)"

definition uint_sub :: "'n::len word \<Rightarrow> 'n word \<Rightarrow> ('n word, 'e) result" where
  "uint_sub a b = expect (checked_sub a b)"

definition uint_mul :: "'n::len word \<Rightarrow> 'n word \<Rightarrow> ('n word, 'e) result" where
  "uint_mul a b = expect (checked_mul a b)"

definition uint_div :: "'n::len word \<Rightarrow> 'n word \<Rightarrow> ('n word, 'e) result" where
  "uint_div a b = expect (checked_div a b)"

definition overflowing_add :: "'n::len word \<Rightarrow> 'n word \<Rightarrow> 'n word \<times> bool" where
  "overflowing_add a b = (a + b, 2 ^ LENGTH('n) \<le> unat a + unat b)"

definition overflowing_sub :: "'n::len word \<Rightarrow> 'n word \<Rightarrow> 'n word \<times> bool" where
  "overflowing_sub a b = (a - b, a < b)"

definition wrapping_add :: "'n::len word \<Rightarrow> 'n word \<Rightarrow> 'n word" where
  "wrapping_add a b = fst (overflowing_add a b)"

definition wrapping_sub :: "'n::len word \<Rightarrow> 'n word \<Rightarrow> 'n word" where
  "wrapping_sub a b = fst (overflowing_sub a b)"

text \<open>\<^verbatim>\<open>AsPrimitive<$type> for i32\<close> and for \<^verbatim>\<open>i64\<close>, the argument being a signed word of width \<open>'m\<close>.\<close>

definition signed_as_uint :: "'m::len word \<Rightarrow> 'n::len word" where
  "signed_as_uint x =
     (if sint x \<ge> 0 then ucast x
      else let abs = (0 :: 'm word) - x in wrapping_sub 0 (ucast abs))"

definition limbs :: "nat \<Rightarrow> 'n::len word \<Rightarrow> u64 list" where
  "limbs n w = map (\<lambda>i. ucast (drop_bit (64 * i) w)) [0..<n]"

fun of_limbs :: "u64 list \<Rightarrow> 'n::len word" where
  "of_limbs [] = 0"
| "of_limbs (l # ls) = ucast l OR push_bit 64 (of_limbs ls)"

text \<open>\<^verbatim>\<open>self.0[0] as T\<close>, \<open>n_limbs\<close> limbs.\<close>

definition uint_as_primitive :: "nat \<Rightarrow> 'n::len word \<Rightarrow> 'm::len word" where
  "uint_as_primitive n_limbs w = ucast (limbs n_limbs w ! 0)"

text \<open>\<^verbatim>\<open>result.0[..k].clone_from_slice(&self.0[..k])\<close> into a zero value.\<close>

definition uint_as_uint :: "nat \<Rightarrow> nat \<Rightarrow> 'n::len word \<Rightarrow> 'm::len word" where
  "uint_as_uint k n_limbs w = of_limbs (take k (limbs n_limbs w))"

definition u128_as_u256 :: "U128 \<Rightarrow> U256" where "u128_as_u256 = uint_as_uint 2 2"
definition u128_as_u512 :: "U128 \<Rightarrow> U512" where "u128_as_u512 = uint_as_uint 2 2"
definition u256_as_u128 :: "U256 \<Rightarrow> U128" where "u256_as_u128 = uint_as_uint 2 4"
definition u256_as_u512 :: "U256 \<Rightarrow> U512" where "u256_as_u512 = uint_as_uint 4 4"
definition u512_as_u128 :: "U512 \<Rightarrow> U128" where "u512_as_u128 = uint_as_uint 2 8"
definition u512_as_u256 :: "U512 \<Rightarrow> U256" where "u512_as_u256 = uint_as_uint 4 8"

section \<open>Gas and motes\<close>

datatype gas = Gas (gas_value: U512)
datatype motes = Motes (motes_value: U512)

definition gas_from_motes :: "motes \<Rightarrow> u64 \<Rightarrow> gas option" where
  "gas_from_motes m conv_rate = map_option Gas (checked_div (motes_value m) (ucast conv_rate))"

definition gas_checked_add :: "gas \<Rightarrow> gas \<Rightarrow> gas option" where
  "gas_checked_add a b = map_option Gas (checked_add (gas_value a) (gas_value b))"

definition gas_add :: "gas \<Rightarrow> gas \<Rightarrow> (gas, 'e) result" where
  "gas_add a b = and_then (uint_add (gas_value a) (gas_value b)) (\<lambda>val. Ok (Gas val))"

definition gas_sub :: "gas \<Rightarrow> gas \<Rightarrow> (gas, 'e) result" where
  "gas_sub a b = and_then (uint_sub (gas_value a) (gas_value b)) (\<lambda>val. Ok (Gas val))"

definition gas_div :: "gas \<Rightarrow> gas \<Rightarrow> (gas, 'e) result" where
  "gas_div a b = and_then (uint_div (gas_value a) (gas_value b)) (\<lambda>val. Ok (Gas val))"

definition gas_mul :: "gas \<Rightarrow> gas \<Rightarrow> (gas, 'e) result" where
  "gas_mul a b = and_then (uint_mul (gas_value a) (gas_value b)) (\<lambda>val. Ok (Gas val))"

definition motes_from_gas :: "gas \<Rightarrow> u64 \<Rightarrow> motes option" where
  "motes_from_gas g conv_rate = map_option Motes (checked_mul (gas_value g) (ucast conv_rate))"

definition motes_checked_add :: "motes \<Rightarrow> motes \<Rightarrow> motes option" where
  "motes_checked_add a b = map_option Motes (checked_add (motes_value a) (motes_value b))"

definition motes_add :: "motes \<Rightarrow> motes \<Rightarrow> (motes, 'e) result" where
  "motes_add a b = and_then (uint_add (motes_value a) (motes_value b)) (\<lambda>val. Ok (Motes val))"

definition motes_sub :: "motes \<Rightarrow> motes \<Rightarrow> (motes, 'e) result" where
  "motes_sub a b = and_then (uint_sub (motes_value a) (motes_value b)) (\<lambda>val. Ok (Motes val))"

definition motes_div :: "motes \<Rightarrow> motes \<Rightarrow> (motes, 'e) result" where
  "motes_div a b = and_then (uint_div (motes_value a) (motes_value b)) (\<lambda>val. Ok (Motes val))"

definition motes_mul :: "motes \<Rightarrow> motes \<Rightarrow> (motes, 'e) result" where
  "motes_mul a b = and_then (uint_mul (motes_value a) (motes_value b)) (\<lambda>val. Ok (Motes val))"

section \<open>The encoding is a canonical codec\<close>

lemma rev_dropWhile_zeros:
  "\<exists>k. bs = rev (dropWhile (\<lambda>b. b = 0) (rev bs)) @ replicate k (0 :: u8)"
proof -
  have "takeWhile (\<lambda>b. b = 0) (rev bs) = replicate (length (takeWhile (\<lambda>b. b = 0) (rev bs))) 0"
    by (rule replicate_length_same [symmetric]) (auto dest: set_takeWhileD)
  then show ?thesis
    by (metis takeWhile_dropWhile_id rev_append rev_replicate rev_rev_ident)
qed

lemma length_dropWhile_rev: "length (dropWhile P (rev bs)) \<le> length bs"
  by (metis length_dropWhile_le length_rev)

lemma uint_codec [codec_intros]:
  assumes "LENGTH('n::len) = 8 * n" "n \<le> 255"
  shows "codec (uint_to_bytes n :: ('n word) ser) (uint_from_bytes n) (\<lambda>_. True)"
proof (rule codec.intro)
  fix w :: "'n word" and bs rest
  define v where "v = rev (dropWhile (\<lambda>b. b = 0) (rev (to_le_bytes n w)))"
  assume "uint_to_bytes n w = Ok bs"
  then have bs: "bs = word_of_nat (length v) # v" by (auto simp: uint_to_bytes_def v_def Let_def)
  have len: "length v \<le> n" using length_dropWhile_rev [of _ "to_le_bytes n w"] by (simp add: v_def)
  then have num: "unat (word_of_nat (length v) :: u8) = length v"
    using assms by (simp add: unat_of_nat)
  obtain k where "to_le_bytes n w = v @ replicate k 0"
    using rev_dropWhile_zeros [of "to_le_bytes n w"] by (auto simp: v_def)
  then have "from_le_bytes v = (from_le_bytes (to_le_bytes n w) :: 'n word)"
    by (simp add: from_le_bytes_def le_to_nat_append_zeros)
  then show "uint_from_bytes n (bs @ rest) = Ok (w, rest)"
    using assms len num by (simp add: uint_from_bytes_def bs from_to_le_bytes)
qed

interpretation u128c: codec u128_to_bytes u128_from_bytes "\<lambda>_. True"
  by (rule uint_codec) simp_all

interpretation u256c: codec u256_to_bytes u256_from_bytes "\<lambda>_. True"
  by (rule uint_codec) simp_all

interpretation u512c: codec u512_to_bytes u512_from_bytes "\<lambda>_. True"
  by (rule uint_codec) simp_all

lemma uint_to_bytes_canonical:
  assumes "uint_to_bytes n w = Ok bs"
  shows "length bs \<le> n + 1" "bs \<noteq> []" "tl bs = [] \<or> last bs \<noteq> 0"
proof -
  define v where "v = rev (dropWhile (\<lambda>b. b = 0) (rev (to_le_bytes n w)))"
  have bs: "bs = word_of_nat (length v) # v"
    using assms by (auto simp: uint_to_bytes_def v_def Let_def)
  then show "bs \<noteq> []" by simp
  show "length bs \<le> n + 1"
    using length_dropWhile_rev [of _ "to_le_bytes n w"] by (simp add: bs v_def)
  show "tl bs = [] \<or> last bs \<noteq> 0"
    using hd_dropWhile [of "\<lambda>b. b = 0" "rev (to_le_bytes n w)"]
    by (auto simp: bs v_def last_rev)
qed

section \<open>Conversions\<close>

lemma wrapping_simps [simp]: "wrapping_add a b = a + b" "wrapping_sub a b = a - b"
  by (simp_all add: wrapping_add_def wrapping_sub_def overflowing_add_def overflowing_sub_def)

lemma pow_Suc_pred: "(2 :: int) ^ LENGTH('m::len) = 2 * 2 ^ (LENGTH('m) - Suc 0)"
  by (cases "LENGTH('m)") auto

lemma uint_eq_sint_if: "uint x = (if sint x < 0 then sint x + 2 ^ LENGTH('m) else sint x)"
  for x :: "'m::len word"
proof -
  have b: "- (2 ^ LENGTH('m)) \<le> sint x" "sint x < 2 ^ LENGTH('m)"
    using sint_greater_eq [of x] sint_less [of x] by (auto simp: pow_Suc_pred)
  have "uint x = sint x mod 2 ^ LENGTH('m)"
    by (simp add: uint_sint take_bit_eq_mod)
  moreover have "sint x mod 2 ^ LENGTH('m) = sint x + 2 ^ LENGTH('m)" if "sint x < 0"
    using b that mod_pos_pos_trivial [of "sint x + 2 ^ LENGTH('m)" "2 ^ LENGTH('m)"] by simp
  ultimately show ?thesis using b by (simp add: mod_pos_pos_trivial)
qed

text \<open>Conversion of a signed integer to a wider unsigned one is sign extension.\<close>

lemma signed_as_uint_eq_scast: "(signed_as_uint (x :: 'm::len word) :: 'n::len word) = scast x"
proof (cases "sint x < 0")
  case False
  then show ?thesis
    using uint_eq_sint_if [of x] by (simp add: signed_as_uint_def) (metis of_int_sint of_int_uint)
next
  case True
  have "uint (- x) = (- sint x + (- 1) * 2 ^ LENGTH('m)) mod 2 ^ LENGTH('m)"
    using True uint_eq_sint_if [of x] by (simp add: uint_word_ariths)
  also have "\<dots> = - sint x mod 2 ^ LENGTH('m)"
    by (rule mod_mult_self1)
  also have "\<dots> = - sint x"
    using True sint_greater_eq [of x] by (intro mod_pos_pos_trivial) (auto simp: pow_Suc_pred)
  finally have "uint (- x) = - sint x" .
  with True show ?thesis
    by (simp add: signed_as_uint_def Let_def) (metis add.inverse_inverse of_int_minus of_int_sint of_int_uint)
qed

lemma bit_of_limbs:
  "bit (of_limbs ls :: 'n::len word) i \<longleftrightarrow>
   i < LENGTH('n) \<and> i div 64 < length ls \<and> bit (ls ! (i div 64)) (i mod 64)"
proof (induction ls arbitrary: i)
  case (Cons l ls)
  show ?case
    by (cases "i < 64")
      (auto simp: bit_simps Cons le_div_geq le_mod_geq nth_Cons' not_less dest: bit_imp_le_length)
qed simp

lemma bit_limbs: "i div 64 < n \<Longrightarrow> bit (limbs n w ! (i div 64)) (i mod 64) \<longleftrightarrow> bit w i"
  by (simp add: limbs_def bit_simps)

lemma uint_as_uint_eq_ucast:
  assumes "k \<le> n" "LENGTH('n) = 64 * n" "LENGTH('m) \<le> 64 * k \<or> k = n"
  shows "(uint_as_uint k n (w :: 'n::len word) :: 'm::len word) = ucast w"
proof (rule bit_word_eqI)
  fix i
  assume i: "i < LENGTH('m)"
  have "bit (uint_as_uint k n w :: 'm word) i \<longleftrightarrow> i div 64 < k \<and> bit w i"
    using assms(1) i by (auto simp: uint_as_uint_def bit_of_limbs bit_limbs) (auto simp: limbs_def)
  moreover have "i div 64 < k" if "bit w i"
    using bit_imp_le_length [OF that] assms i by (auto intro: less_mult_imp_div_less)
  ultimately show "bit (uint_as_uint k n w :: 'm word) i = bit (ucast w :: 'm word) i"
    using i by (auto simp: bit_simps)
qed

lemma uint_as_primitive_eq_ucast:
  assumes "0 < n" "LENGTH('m) \<le> 64"
  shows "(uint_as_primitive n (w :: 'n::len word) :: 'm::len word) = ucast w"
  using assms by (auto simp: uint_as_primitive_def limbs_def bit_simps intro!: bit_word_eqI)

section \<open>Gas and motes\<close>

lemma unat_ucast_rate: "unat (ucast (r :: u64) :: U512) = unat r"
  using unat_lt_pow [of r] by (simp add: unsigned_ucast_eq take_bit_eq_mod)

lemma gas_motes_gas:
  assumes "motes_from_gas g r = Some m" "r \<noteq> 0"
  shows "gas_from_motes m r = Some g"
proof -
  have r: "unat r \<noteq> 0" "(ucast r :: U512) \<noteq> 0"
    using assms(2) unat_ucast_rate [of r] by (metis unsigned_eq_0_iff)+
  from assms obtain v where v: "checked_mul (gas_value g) (ucast r) = Some v" "m = Motes v"
    by (auto simp: motes_from_gas_def)
  then have "unat (v div ucast r) = unat (gas_value g)"
    using checked_mul_Some [OF v(1)] r(1) by (simp add: unat_div unat_ucast_rate)
  then show ?thesis
    using r v by (simp add: gas_from_motes_def checked_div_def) (metis gas.collapse word_unat_eq_iff)
qed

lemma motes_gas_motes:
  assumes "gas_from_motes m r = Some g"
  obtains m' where "motes_from_gas g r = Some m'" "motes_value m' \<le> motes_value m"
    "unat (motes_value m) < unat (motes_value m') + unat r"
proof -
  have r: "unat r > 0" using assms by (auto simp: gas_from_motes_def checked_div_def unat_gt_0 split: if_splits)
  have g: "unat (gas_value g) = unat (motes_value m) div unat r"
    using assms by (auto simp: gas_from_motes_def checked_div_def unat_div unat_ucast_rate split: if_splits)
  have le: "unat (gas_value g) * unat r \<le> unat (motes_value m)"
    by (simp add: g)
  have "unat (gas_value g) * unat r < 2 ^ LENGTH(512)"
    using le unat_lt_pow [of "motes_value m"] by simp
  then obtain v where v: "checked_mul (gas_value g) (ucast r) = Some v"
    by (simp add: checked_mul_def unat_ucast_rate)
  have "unat v = unat (gas_value g) * unat r"
    using checked_mul_Some [OF v] by (simp add: unat_ucast_rate)
  then show thesis
    using that [of "Motes v"] le v r mod_less_divisor [OF r, of "unat (motes_value m)"]
      div_mult_mod_eq [of "unat (motes_value m)" "unat r"]
    by (simp add: motes_from_gas_def word_le_nat_alt g)
qed

section \<open>Properties\<close>

text \<open>C32. Every 512 bit unsigned integer serializes; the encoding is at most 65 bytes long, carries no
  leading zero byte, and is read back as the same integer with the rest of the input untouched.\<close>

theorem uint_serialization:
  "\<exists>bs. uint_to_bytes 64 (w :: U512) = Ok bs \<and> (\<forall>rest. uint_from_bytes 64 (bs @ rest) = Ok (w, rest))
     \<and> 1 \<le> length bs \<and> length bs \<le> 65 \<and> (length bs = 1 \<or> 0 < last bs)"
proof -
  obtain bs where bs: "u512_to_bytes w = Ok bs" by (simp add: uint_to_bytes_def Let_def)
  have "\<forall>rest. u512_from_bytes (bs @ rest) = Ok (w, rest)"
    using u512c.roundtrip [of w bs] bs by simp
  moreover have "length bs = 1 \<or> 0 < last bs"
    using uint_to_bytes_canonical(2,3) [OF bs] by (cases bs) (auto simp: word_gt_0)
  ultimately show ?thesis
    using bs uint_to_bytes_canonical(1,2) [OF bs] by (cases bs) auto
qed

text \<open>The limb-by-limb conversions of the big integers are the reference ones: signed sources are
  sign-extended, wider targets zero-extended and narrower ones truncated.\<close>

theorem uint_casts:
  "(signed_as_uint (x :: i32) :: U512) = scast x \<and> (signed_as_uint (y :: i64) :: U128) = scast y
   \<and> (uint_as_primitive 8 (w :: U512) :: u64) = ucast w \<and> (uint_as_primitive 8 w :: i32) = ucast w
   \<and> u512_as_u128 w = ucast w \<and> u512_as_u256 w = ucast w \<and> u128_as_u512 v = ucast v
   \<and> u128_as_u256 v = ucast v \<and> u256_as_u512 u = ucast u \<and> u256_as_u128 u = ucast u"
  by (simp add: signed_as_uint_eq_scast uint_as_primitive_eq_ucast u512_as_u128_def u512_as_u256_def
      u128_as_u512_def u128_as_u256_def u256_as_u512_def u256_as_u128_def uint_as_uint_eq_ucast)

text \<open>Converting gas to motes and back at a non-zero rate gives the gas back, when the conversion
  does not overflow.\<close>

theorem gas_motes_round_trip:
  assumes "motes_from_gas g r = Some m" "r \<noteq> 0"
  shows "gas_from_motes m r = Some g"
  using assms by (rule gas_motes_gas)

theorem gas_motes_round_trip_witness:
  "motes_from_gas (Gas 1000) 10 = Some (Motes 10000) \<and> gas_from_motes (Motes 10000) 10 = Some (Gas 1000)"
proof -
  have "motes_from_gas (Gas 1000) 10 = Some (Motes 10000)"
    by (simp add: motes_from_gas_def checked_mul_def)
  then show ?thesis using gas_motes_round_trip [of "Gas 1000" 10 "Motes 10000"] by simp
qed

end
