(* ===== verification/Keys.thy ===== *)
theory Keys
  imports Bytesrepr "HOL-Library.Option_ord" "HOL-Library.Product_Lexorder"
begin

text \<open>
  \<^verbatim>\<open>types/src/access_rights.rs\<close>, \<^verbatim>\<open>uref.rs\<close>, \<^verbatim>\<open>key.rs\<close> and \<^verbatim>\<open>contract_ref.rs\<close>: the keys of the global
  state. The access rights are the bit sets over READ, WRITE and ADD, so every value of the
  type has at most the three low bits set. The hash of the \<^verbatim>\<open>blake2\<close> crate and the hexadecimal
  coder of the \<^verbatim>\<open>base16\<close> crate are arguments of the functions that call them.

  The lemmas: keys are a codec, their encodings have the lengths and tags that the trie relies
  on, and \<open>key_normalize\<close> forgets exactly the access rights.
\<close>

unbundle bit_operations_syntax

section \<open>Access rights\<close>

typedef access_rights = "{b :: u8. b \<le> 7}"
  morphisms bits AccessRights
  by (rule exI [of _ 0]) simp

lemma bits_le [simp]: "bits r \<le> 7"
  using bits [of r] by simp

lemma bits_eq_iff [simp]: "bits r = bits s \<longleftrightarrow> r = s"
  by (rule bits_inject)

lemma AccessRights_bits [code abstype]: "AccessRights (bits r) = r"
  by (rule bits_inverse)

text \<open>\<^verbatim>\<open>from_bits_truncate\<close>, the constructor the constants and the set operations are built with.\<close>

definition rights_of :: "u8 \<Rightarrow> access_rights" where
  "rights_of b = AccessRights (b AND 7)"

lemma bits_rights_of [simp, code abstract]: "bits (rights_of b) = b AND 7"
  by (simp add: rights_of_def AccessRights_inverse word_and_le1)

definition READ :: access_rights where "READ = rights_of 1"
definition WRITE :: access_rights where "WRITE = rights_of 2"
definition ADD :: access_rights where "ADD = rights_of 4"
definition READ_ADD :: access_rights where "READ_ADD = rights_of (bits READ OR bits ADD)"
definition READ_WRITE :: access_rights where "READ_WRITE = rights_of (bits READ OR bits WRITE)"
definition ADD_WRITE :: access_rights where "ADD_WRITE = rights_of (bits ADD OR bits WRITE)"
definition READ_ADD_WRITE :: access_rights where
  "READ_ADD_WRITE = rights_of (bits READ OR bits ADD OR bits WRITE)"

lemmas rights_defs = READ_def WRITE_def ADD_def READ_ADD_def READ_WRITE_def ADD_WRITE_def
  READ_ADD_WRITE_def

lemma bits_rights [simp]:
  "bits READ = 1" "bits WRITE = 2" "bits ADD = 4" "bits READ_ADD = 5" "bits READ_WRITE = 3"
  "bits ADD_WRITE = 6" "bits READ_ADD_WRITE = 7"
  by (simp_all add: rights_defs)

definition rights_inter :: "access_rights \<Rightarrow> access_rights \<Rightarrow> access_rights" where
  "rights_inter r s = rights_of (bits r AND bits s)"

definition rights_is_readable :: "access_rights \<Rightarrow> bool" where
  "rights_is_readable r = (bits (rights_inter r READ) = bits READ)"

definition rights_is_writeable :: "access_rights \<Rightarrow> bool" where
  "rights_is_writeable r = (bits (rights_inter r WRITE) = bits WRITE)"

definition rights_is_addable :: "access_rights \<Rightarrow> bool" where
  "rights_is_addable r = (bits (rights_inter r ADD) = bits ADD)"

definition from_bits :: "u8 \<Rightarrow> access_rights option" where
  "from_bits b = (if b \<le> 7 then Some (rights_of b) else None)"

definition rights_to_bytes :: "access_rights ser" where
  "rights_to_bytes r = u8_to_bytes (bits r)"

definition rights_from_bytes :: "access_rights de" where
  "rights_from_bytes bs =
     and_then (u8_from_bytes bs) (\<lambda>(id, rem).
       case from_bits id of Some rights \<Rightarrow> Ok (rights, rem) | None \<Rightarrow> Err FormattingError)"

text \<open>The \<^verbatim>\<open>Display\<close> names.\<close>

definition rights_display :: "access_rights \<Rightarrow> rstring" where
  "rights_display r =
     (if r = READ then str_lit ''READ'' else if r = WRITE then str_lit ''WRITE''
      else if r = ADD then str_lit ''ADD'' else if r = READ_ADD then str_lit ''READ_ADD''
      else if r = READ_WRITE then str_lit ''READ_WRITE''
      else if r = ADD_WRITE then str_lit ''ADD_WRITE''
      else if r = READ_ADD_WRITE then str_lit ''READ_ADD_WRITE'' else str_lit ''UNKNOWN'')"

instantiation access_rights :: "{equal, linorder}"
begin

definition equal_access_rights :: "access_rights \<Rightarrow> access_rights \<Rightarrow> bool" where
  "equal_access_rights r s = (bits r = bits s)"

definition less_eq_access_rights :: "access_rights \<Rightarrow> access_rights \<Rightarrow> bool" where
  "less_eq_access_rights r s = (bits r \<le> bits s)"

definition less_access_rights :: "access_rights \<Rightarrow> access_rights \<Rightarrow> bool" where
  "less_access_rights r s = (bits r < bits s)"

instance
  by intro_classes
    (auto simp: equal_access_rights_def less_eq_access_rights_def less_access_rights_def less_le)

end

section \<open>Unforgeable references\<close>

datatype uref = URef (addr: array32) (access_rights: "access_rights option")

definition uref_new :: "array32 \<Rightarrow> access_rights \<Rightarrow> uref" where
  "uref_new i rights = URef i (Some rights)"

definition with_access_rights :: "uref \<Rightarrow> access_rights \<Rightarrow> uref" where
  "with_access_rights u rights = URef (addr u) (Some rights)"

definition remove_access_rights :: "uref \<Rightarrow> uref" where
  "remove_access_rights u = URef (addr u) None"

definition uref_is_readable :: "uref \<Rightarrow> bool" where
  "uref_is_readable u = (case access_rights u of Some r \<Rightarrow> rights_is_readable r | None \<Rightarrow> False)"

definition uref_is_writeable :: "uref \<Rightarrow> bool" where
  "uref_is_writeable u = (case access_rights u of Some r \<Rightarrow> rights_is_writeable r | None \<Rightarrow> False)"

definition uref_is_addable :: "uref \<Rightarrow> bool" where
  "uref_is_addable u = (case access_rights u of Some r \<Rightarrow> rights_is_addable r | None \<Rightarrow> False)"

definition into_read :: "uref \<Rightarrow> uref" where
  "into_read u = URef (addr u) (Some READ)"

definition into_read_add_write :: "uref \<Rightarrow> uref" where
  "into_read_add_write u = URef (addr u) (Some READ_ADD_WRITE)"

text \<open>The octal digits of \<^verbatim>\<open>{:03o}\<close> for a byte; \<open>encode_lower\<close> is the coder of \<^verbatim>\<open>base16\<close>.\<close>

definition octal3 :: "u8 \<Rightarrow> string" where
  "octal3 b = map (\<lambda>d. char_of (48 + d)) [unat b div 64, unat b div 8 mod 8, unat b mod 8]"

definition uref_as_string :: "(bytes \<Rightarrow> rstring) \<Rightarrow> uref \<Rightarrow> rstring" where
  "uref_as_string encode_lower u =
     (let access_rights_bits = (case access_rights u of Some r \<Rightarrow> bits r | None \<Rightarrow> 0)
      in str_append (str_lit ''uref-'')
           (str_append (encode_lower (array_bytes (addr u)))
             (str_append (str_lit ''-'') (str_lit (octal3 access_rights_bits)))))"

definition uref_to_bytes :: "uref ser" where
  "uref_to_bytes u =
     and_then (array32_to_bytes (addr u)) (\<lambda>b1.
       and_then (option_to_bytes rights_to_bytes (access_rights u)) (\<lambda>b2. Ok (b1 @ b2)))"

definition uref_from_bytes :: "uref de" where
  "uref_from_bytes bs =
     and_then (array32_from_bytes bs) (\<lambda>(id, rem).
       and_then (option_from_bytes rights_from_bytes rem) (\<lambda>(maybe_access_rights, rem').
         Ok (URef id maybe_access_rights, rem')))"

definition vec_uref_to_bytes :: "(uref list) ser" where
  "vec_uref_to_bytes = vec_to_bytes uref_to_bytes"

definition vec_uref_from_bytes :: "(uref list) de" where
  "vec_uref_from_bytes = vec_from_bytes uref_from_bytes"

section \<open>Keys\<close>

datatype key = Key_Account array32 | Key_Hash array32 | Key_URef uref | Key_Local array32

datatype contract_ref = Ref_Hash array32 | Ref_URef uref

definition ACCOUNT_ID :: u8 where "ACCOUNT_ID = 0"
definition HASH_ID :: u8 where "HASH_ID = 1"
definition UREF_ID :: u8 where "UREF_ID = 2"
definition LOCAL_ID :: u8 where "LOCAL_ID = 3"

lemmas key_id_defs = ACCOUNT_ID_def HASH_ID_def UREF_ID_def LOCAL_ID_def

text \<open>\<open>hash\<close> is the 32 byte BLAKE2b digest.\<close>

definition key_local :: "(bytes \<Rightarrow> array32) \<Rightarrow> array32 \<Rightarrow> bytes \<Rightarrow> key" where
  "key_local hash seed key_bytes = Key_Local (hash (array_bytes seed @ key_bytes))"

fun type_string :: "key \<Rightarrow> rstring" where
  "type_string (Key_Account _) = str_lit ''Key::Account''"
| "type_string (Key_Hash _) = str_lit ''Key::Hash''"
| "type_string (Key_URef _) = str_lit ''Key::URef''"
| "type_string (Key_Local _) = str_lit ''Key::Local''"

definition UREF_SERIALIZED_LENGTH :: nat where "UREF_SERIALIZED_LENGTH = 32 + 1 + 1"
definition KEY_UREF_SERIALIZED_LENGTH :: nat where
  "KEY_UREF_SERIALIZED_LENGTH = 1 + UREF_SERIALIZED_LENGTH"

fun key_serialized_size :: "key \<Rightarrow> nat" where
  "key_serialized_size (Key_Account _) = 1 + 32"
| "key_serialized_size (Key_Hash _) = 1 + 32"
| "key_serialized_size (Key_URef _) = KEY_UREF_SERIALIZED_LENGTH"
| "key_serialized_size (Key_Local _) = 1 + 32"

definition drop_hex_prefix :: "rstring \<Rightarrow> bytes" where
  "drop_hex_prefix s =
     (if prefix (ascii_bytes ''0x'') (str_bytes s) then drop 2 (str_bytes s) else str_bytes s)"

text \<open>\<open>decode_slice input buf\<close> is \<^verbatim>\<open>base16::decode_slice\<close> into the buffer \<open>buf\<close>, \<open>decode\<close> is \<^verbatim>\<open>base16::decode\<close>.\<close>

definition decode_from_hex :: "(bytes \<Rightarrow> array32 \<Rightarrow> array32 option) \<Rightarrow> rstring \<Rightarrow> array32 option" where
  "decode_from_hex decode_slice input =
     (let undecorated_input = drop_hex_prefix input
      in if length undecorated_input \<noteq> 2 * 32 then None
         else decode_slice undecorated_input (array32_fill 0))"

fun to_contract_ref :: "key \<Rightarrow> contract_ref option" where
  "to_contract_ref (Key_URef u) = Some (Ref_URef u)"
| "to_contract_ref (Key_Hash h) = Some (Ref_Hash h)"
| "to_contract_ref _ = None"

fun contract_ref_into_uref :: "contract_ref \<Rightarrow> uref option" where
  "contract_ref_into_uref (Ref_URef u) = Some u"
| "contract_ref_into_uref _ = None"

fun key_from_contract_ref :: "contract_ref \<Rightarrow> key" where
  "key_from_contract_ref (Ref_Hash h) = Key_Hash h"
| "key_from_contract_ref (Ref_URef u) = Key_URef u"

fun as_account :: "key \<Rightarrow> array32 option" where
  "as_account (Key_Account b) = Some b"
| "as_account _ = None"

fun key_normalize :: "key \<Rightarrow> key" where
  "key_normalize (Key_URef u) = Key_URef (remove_access_rights u)"
| "key_normalize k = k"

definition parse_hash :: "(bytes \<Rightarrow> array32 \<Rightarrow> array32 option) \<Rightarrow> rstring \<Rightarrow> key option" where
  "parse_hash decode_slice s = map_option Key_Hash (decode_from_hex decode_slice s)"

definition parse_uref ::
    "(bytes \<Rightarrow> array32 \<Rightarrow> array32 option) \<Rightarrow> rstring \<Rightarrow> access_rights \<Rightarrow> key option" where
  "parse_uref decode_slice s rights =
     map_option (\<lambda>u. Key_URef (uref_new u rights)) (decode_from_hex decode_slice s)"

definition parse_local ::
    "(bytes \<Rightarrow> array32) \<Rightarrow> (bytes \<Rightarrow> array32 \<Rightarrow> array32 option) \<Rightarrow> (bytes \<Rightarrow> bytes option) \<Rightarrow>
     rstring \<Rightarrow> rstring \<Rightarrow> key option" where
  "parse_local hash decode_slice decode seed key_bytes =
     Option.bind (decode_from_hex decode_slice seed) (\<lambda>decoded_seed.
       Option.bind (decode (drop_hex_prefix key_bytes)) (\<lambda>decoded_key_bytes.
         Some (key_local hash decoded_seed decoded_key_bytes)))"

fun key_as_string :: "(bytes \<Rightarrow> rstring) \<Rightarrow> key \<Rightarrow> rstring" where
  "key_as_string enc (Key_Account a) = str_append (str_lit ''account-'') (enc (array_bytes a))"
| "key_as_string enc (Key_Hash a) = str_append (str_lit ''hash-'') (enc (array_bytes a))"
| "key_as_string enc (Key_URef u) = uref_as_string enc u"
| "key_as_string enc (Key_Local h) = str_append (str_lit ''local-'') (enc (array_bytes h))"

fun as_uref :: "key \<Rightarrow> uref option" where
  "as_uref (Key_URef u) = Some u"
| "as_uref _ = None"

fun into_uref :: "key \<Rightarrow> uref option" where
  "into_uref (Key_URef u) = Some u"
| "into_uref _ = None"

fun as_hash :: "key \<Rightarrow> array32 option" where
  "as_hash (Key_Hash h) = Some h"
| "as_hash _ = None"

fun as_local :: "key \<Rightarrow> array32 option" where
  "as_local (Key_Local l) = Some l"
| "as_local _ = None"

fun key_to_bytes :: "key ser" where
  "key_to_bytes (Key_Account a) = and_then (array32_to_bytes a) (\<lambda>b. Ok ([ACCOUNT_ID] @ b))"
| "key_to_bytes (Key_Hash a) = and_then (array32_to_bytes a) (\<lambda>b. Ok ([HASH_ID] @ b))"
| "key_to_bytes (Key_URef u) = and_then (uref_to_bytes u) (\<lambda>b. Ok ([UREF_ID] @ b))"
| "key_to_bytes (Key_Local a) = and_then (array32_to_bytes a) (\<lambda>b. Ok ([LOCAL_ID] @ b))"

definition key_from_bytes :: "key de" where
  "key_from_bytes bs =
     and_then (u8_from_bytes bs) (\<lambda>(id, rest).
       if id = ACCOUNT_ID then
         and_then (array32_from_bytes rest) (\<lambda>(a, rem). Ok (Key_Account a, rem))
       else if id = HASH_ID then
         and_then (array32_from_bytes rest) (\<lambda>(a, rem). Ok (Key_Hash a, rem))
       else if id = UREF_ID then
         and_then (uref_from_bytes rest) (\<lambda>(u, rem). Ok (Key_URef u, rem))
       else if id = LOCAL_ID then
         and_then (array32_from_bytes rest) (\<lambda>(a, rem). Ok (Key_Local a, rem))
       else Err FormattingError)"

definition vec_key_to_bytes :: "(key list) ser" where
  "vec_key_to_bytes = vec_to_bytes key_to_bytes"

definition vec_key_from_bytes :: "(key list) de" where
  "vec_key_from_bytes = vec_from_bytes key_from_bytes"

text \<open>The derived orders.\<close>

definition uref_ord :: "uref \<Rightarrow> array32 \<times> access_rights option" where
  "uref_ord u = (addr u, access_rights u)"

fun key_ord :: "key \<Rightarrow> nat \<times> array32 \<times> access_rights option" where
  "key_ord (Key_Account a) = (0, a, None)"
| "key_ord (Key_Hash a) = (1, a, None)"
| "key_ord (Key_URef u) = (2, uref_ord u)"
| "key_ord (Key_Local a) = (3, a, None)"

instantiation uref :: linorder
begin

definition less_eq_uref :: "uref \<Rightarrow> uref \<Rightarrow> bool" where
  "less_eq_uref u v = (uref_ord u \<le> uref_ord v)"

definition less_uref :: "uref \<Rightarrow> uref \<Rightarrow> bool" where
  "less_uref u v = (uref_ord u < uref_ord v)"

lemma uref_ord_inj: "uref_ord u = uref_ord v \<Longrightarrow> u = v"
  by (cases u; cases v) (simp add: uref_ord_def)

instance
  by intro_classes
    (auto simp: less_eq_uref_def less_uref_def less_le_not_le intro: uref_ord_inj order_trans)

end

instantiation key :: linorder
begin

definition less_eq_key :: "key \<Rightarrow> key \<Rightarrow> bool" where
  "less_eq_key u v = (key_ord u \<le> key_ord v)"

definition less_key :: "key \<Rightarrow> key \<Rightarrow> bool" where
  "less_key u v = (key_ord u < key_ord v)"

lemma key_ord_inj: "key_ord u = key_ord v \<Longrightarrow> u = v"
  by (cases u; cases v) (auto dest: uref_ord_inj)

instance
  by intro_classes
    (auto simp: less_eq_key_def less_key_def less_le_not_le intro: key_ord_inj order_trans)

end

section \<open>Round trips\<close>

lemma from_bits_bits [simp]: "from_bits (bits r) = Some r"
proof -
  have "bits r AND 7 = take_bit 3 (bits r)"
    by (simp add: take_bit_eq_mask mask_eq_exp_minus_1)
  also have "\<dots> = bits r"
    using bits_le [of r]
    by (simp add: word_le_nat_alt word_unat_eq_iff take_bit_eq_mod unat_mod)
  finally show ?thesis by (simp add: from_bits_def flip: bits_eq_iff)
qed

interpretation rightsc: codec rights_to_bytes rights_from_bytes "\<lambda>_. True"
  by unfold_locales (auto simp: rights_to_bytes_def rights_from_bytes_def u8_to_bytes_def)

interpretation urefc: codec uref_to_bytes uref_from_bytes "\<lambda>_. True"
proof unfold_locales
  fix u bs rest
  assume "uref_to_bytes u = Ok bs"
  then obtain b1 b2 where "array32_to_bytes (addr u) = Ok b1"
    "option_to_bytes rights_to_bytes (access_rights u) = Ok b2" "bs = b1 @ b2"
    by (auto simp: uref_to_bytes_def result_simps)
  then show "uref_from_bytes (bs @ rest) = Ok (u, rest)"
    using array32c.roundtrip [of "addr u" b1 "b2 @ rest"]
      codec.roundtrip [OF option_codec [OF rightsc.codec_axioms], of "access_rights u" b2 rest]
    by (cases u) (simp add: uref_from_bytes_def pred_option_def)
qed

interpretation keyc: codec key_to_bytes key_from_bytes "\<lambda>_. True"
proof unfold_locales
  fix k bs rest
  assume "key_to_bytes k = Ok bs"
  then show "key_from_bytes (bs @ rest) = Ok (k, rest)"
    by (cases k; clarsimp simp: result_simps)
      (simp_all add: key_from_bytes_def key_id_defs array32c.roundtrip urefc.roundtrip)
qed

lemma vec_uref_codec:
  "codec vec_uref_to_bytes vec_uref_from_bytes (\<lambda>us. length us \<le> u32_max)"
  using vec_codec [OF urefc.codec_axioms]
  by (simp add: vec_uref_to_bytes_def vec_uref_from_bytes_def)

lemma vec_key_codec:
  "codec vec_key_to_bytes vec_key_from_bytes (\<lambda>ks. length ks \<le> u32_max)"
  using vec_codec [OF keyc.codec_axioms]
  by (simp add: vec_key_to_bytes_def vec_key_from_bytes_def)

section \<open>The encoding of keys\<close>

text \<open>Serialization of keys never fails; its bytes, and what the trie uses of them.\<close>

fun key_bytes :: "key \<Rightarrow> bytes" where
  "key_bytes (Key_Account a) = 0 # array_bytes a"
| "key_bytes (Key_Hash a) = 1 # array_bytes a"
| "key_bytes (Key_URef (URef a None)) = 2 # array_bytes a @ [0]"
| "key_bytes (Key_URef (URef a (Some r))) = 2 # array_bytes a @ [1, bits r]"
| "key_bytes (Key_Local a) = 3 # array_bytes a"

lemma key_to_bytes_eq: "key_to_bytes k = Ok (key_bytes k)"
  by (induction k rule: key_bytes.induct)
    (simp_all add: array32_to_bytes_def uref_to_bytes_def rights_to_bytes_def u8_to_bytes_def
      key_id_defs)

lemma key_bytes_inj: "key_bytes k = key_bytes l \<longleftrightarrow> k = l"
  using keyc.ser_inj [where x = k and y = l and bs = "key_bytes k"] by (auto simp: key_to_bytes_eq)

lemma key_bytes_prefix_free: "prefix (key_bytes k) (key_bytes l) \<Longrightarrow> k = l"
  using keyc.ser_prefix_free(1) [where x = k and y = l] by (simp add: key_to_bytes_eq)

lemma length_key_bytes: "33 \<le> length (key_bytes k)" "length (key_bytes k) \<le> 35"
  by (induction k rule: key_bytes.induct) auto

lemma key_bytes_not_Nil [simp]: "key_bytes k \<noteq> []"
  using length_key_bytes(1) [of k] by auto

lemma key_bytes_length_by_tag:
  "hd (key_bytes k) \<noteq> 2 \<Longrightarrow> length (key_bytes k) = 33"
  "hd (key_bytes k) = 2 \<Longrightarrow> length (key_bytes k) = 34 \<or> length (key_bytes k) = 35"
  by (induction k rule: key_bytes.induct) auto

lemma key_serialized_size_bound: "length (key_bytes k) \<le> key_serialized_size k"
  by (induction k rule: key_bytes.induct)
    (auto simp: KEY_UREF_SERIALIZED_LENGTH_def UREF_SERIALIZED_LENGTH_def)

lemma key_normalize_idem [simp]: "key_normalize (key_normalize k) = key_normalize k"
  by (cases k) (simp_all add: remove_access_rights_def)

text \<open>Two keys are the same up to normalization when they differ in access rights at most.\<close>

lemma key_normalize_eq_iff:
  "key_normalize k = key_normalize l \<longleftrightarrow>
   k = l \<or> (\<exists>u v. k = Key_URef u \<and> l = Key_URef v \<and> addr u = addr v)"
  by (cases k; cases l) (auto simp: remove_access_rights_def)

section \<open>Properties\<close>

text \<open>Every key serializes, within the size its \<^verbatim>\<open>serialized_size\<close> announces, and is read back as the
  same key with the rest of the input untouched.\<close>

theorem key_serialization:
  "\<exists>bs. key_to_bytes k = Ok bs \<and> (\<forall>rest. key_from_bytes (bs @ rest) = Ok (k, rest))
     \<and> 33 \<le> length bs \<and> length bs \<le> key_serialized_size k"
  using keyc.roundtrip [where x = k and bs = "key_bytes k"] length_key_bytes(1) [of k]
    key_serialized_size_bound [of k]
  by (simp add: key_to_bytes_eq)

text \<open>C33. No encoding of a key is a prefix of the encoding of another key, which is what the paths of the
  trie rely on.\<close>

theorem key_encoding_prefix_free:
  assumes "key_to_bytes k = Ok bs" "key_to_bytes l = Ok cs" "prefix bs cs"
  shows "k = l"
  using assms key_bytes_prefix_free by (simp add: key_to_bytes_eq)

theorem key_encoding_prefix_free_witness:
  "key_to_bytes (Key_Hash (array32_fill 7)) = Ok (1 # replicate 32 7)
   \<and> Key_Hash (array32_fill 7) = Key_Hash (array32_fill 7)"
  using key_encoding_prefix_free [of "Key_Hash (array32_fill 7)" "1 # replicate 32 7"
      "Key_Hash (array32_fill 7)" "1 # replicate 32 7"]
  by (simp add: array32_to_bytes_def key_id_defs)

end
