(* ===== verification/CL_Types.thy ===== *)
theory CL_Types
  imports Uint Keys
begin

text \<open>
  \<^verbatim>\<open>types/src/cl_type.rs\<close> and \<^verbatim>\<open>cl_value.rs\<close>: the type tags contracts exchange values with, and the
  tagged values. \<^verbatim>\<open>CLType::from_bytes\<close> calls itself on what is left of the stream. Its body is the
  functional \<open>cl_type_body\<close>, iterated with one unit of fuel more than the stream has bytes; the
  lemmas show that this is enough (\<open>cl_type_from_bytes_unfold\<close>: the recursion equation of the
  source holds without fuel) and that parsing never panics.
\<close>

section \<open>Types\<close>

datatype cl_type =
    CL_Bool | CL_I32 | CL_I64 | CL_U8 | CL_U32 | CL_U64 | CL_U128 | CL_U256 | CL_U512
  | CL_Unit | CL_String | CL_Key | CL_URef
  | CL_Option cl_type
  | CL_List cl_type
  | CL_FixedList cl_type u32
  | CL_Result cl_type cl_type
  | CL_Map cl_type cl_type
  | CL_Tuple1 cl_type
  | CL_Tuple2 cl_type cl_type
  | CL_Tuple3 cl_type cl_type cl_type
  | CL_Any

definition serialized_len_of_cl_tuple_type :: "nat list \<Rightarrow> nat" where
  "serialized_len_of_cl_tuple_type lens = sum_list lens"

primrec cl_type_serialized_len :: "cl_type \<Rightarrow> nat" where
  "cl_type_serialized_len CL_Bool = 1 + 0"
| "cl_type_serialized_len CL_I32 = 1 + 0"
| "cl_type_serialized_len CL_I64 = 1 + 0"
| "cl_type_serialized_len CL_U8 = 1 + 0"
| "cl_type_serialized_len CL_U32 = 1 + 0"
| "cl_type_serialized_len CL_U64 = 1 + 0"
| "cl_type_serialized_len CL_U128 = 1 + 0"
| "cl_type_serialized_len CL_U256 = 1 + 0"
| "cl_type_serialized_len CL_U512 = 1 + 0"
| "cl_type_serialized_len CL_Unit = 1 + 0"
| "cl_type_serialized_len CL_String = 1 + 0"
| "cl_type_serialized_len CL_Key = 1 + 0"
| "cl_type_serialized_len CL_URef = 1 + 0"
| "cl_type_serialized_len CL_Any = 1 + 0"
| "cl_type_serialized_len (CL_Option t) = 1 + cl_type_serialized_len t"
| "cl_type_serialized_len (CL_List t) = 1 + cl_type_serialized_len t"
| "cl_type_serialized_len (CL_FixedList t n) =
     1 + (cl_type_serialized_len t + length (to_le_bytes 4 n))"
| "cl_type_serialized_len (CL_Result k e) = 1 + (cl_type_serialized_len k + cl_type_serialized_len e)"
| "cl_type_serialized_len (CL_Map k v) = 1 + (cl_type_serialized_len k + cl_type_serialized_len v)"
| "cl_type_serialized_len (CL_Tuple1 a) =
     1 + serialized_len_of_cl_tuple_type [cl_type_serialized_len a]"
| "cl_type_serialized_len (CL_Tuple2 a b) =
     1 + serialized_len_of_cl_tuple_type [cl_type_serialized_len a, cl_type_serialized_len b]"
| "cl_type_serialized_len (CL_Tuple3 a b c) =
     1 + serialized_len_of_cl_tuple_type
           [cl_type_serialized_len a, cl_type_serialized_len b, cl_type_serialized_len c]"

definition named_key_type :: cl_type where
  "named_key_type = CL_Tuple2 CL_String CL_Key"

section \<open>Writing\<close>

text \<open>A method that appends to the stream is a function from the old stream to the new one.\<close>

definition serialize_cl_tuple_type :: "u8 \<Rightarrow> (bytes \<Rightarrow> bytes) list \<Rightarrow> bytes \<Rightarrow> bytes" where
  "serialize_cl_tuple_type tag appends stream = foldl (\<lambda>s append_bytes. append_bytes s) (stream @ [tag]) appends"

primrec append_bytes :: "cl_type \<Rightarrow> bytes \<Rightarrow> bytes" where
  "append_bytes CL_Bool = (\<lambda>stream. stream @ [0])"
| "append_bytes CL_I32 = (\<lambda>stream. stream @ [1])"
| "append_bytes CL_I64 = (\<lambda>stream. stream @ [2])"
| "append_bytes CL_U8 = (\<lambda>stream. stream @ [3])"
| "append_bytes CL_U32 = (\<lambda>stream. stream @ [4])"
| "append_bytes CL_U64 = (\<lambda>stream. stream @ [5])"
| "append_bytes CL_U128 = (\<lambda>stream. stream @ [6])"
| "append_bytes CL_U256 = (\<lambda>stream. stream @ [7])"
| "append_bytes CL_U512 = (\<lambda>stream. stream @ [8])"
| "append_bytes CL_Unit = (\<lambda>stream. stream @ [9])"
| "append_bytes CL_String = (\<lambda>stream. stream @ [10])"
| "append_bytes CL_Key = (\<lambda>stream. stream @ [11])"
| "append_bytes CL_URef = (\<lambda>stream. stream @ [12])"
| "append_bytes (CL_Option t) = (\<lambda>stream. append_bytes t (stream @ [13]))"
| "append_bytes (CL_List t) = (\<lambda>stream. append_bytes t (stream @ [14]))"
| "append_bytes (CL_FixedList t n) =
     (\<lambda>stream. append_bytes t (stream @ [15]) @ to_le_bytes 4 n)"
| "append_bytes (CL_Result k e) = (\<lambda>stream. append_bytes e (append_bytes k (stream @ [16])))"
| "append_bytes (CL_Map k v) = (\<lambda>stream. append_bytes v (append_bytes k (stream @ [17])))"
| "append_bytes (CL_Tuple1 a) = serialize_cl_tuple_type 18 [append_bytes a]"
| "append_bytes (CL_Tuple2 a b) = serialize_cl_tuple_type 19 [append_bytes a, append_bytes b]"
| "append_bytes (CL_Tuple3 a b c) =
     serialize_cl_tuple_type 20 [append_bytes a, append_bytes b, append_bytes c]"
| "append_bytes CL_Any = (\<lambda>stream. stream @ [21])"

section \<open>Reading\<close>

definition parse_cl_tuple_types :: "cl_type de \<Rightarrow> nat \<Rightarrow> (cl_type list) de" where
  "parse_cl_tuple_types from_bytes count bs = de_n from_bytes count bs"

fun pop_front :: "'a list \<Rightarrow> ('a \<times> 'a list) option" where
  "pop_front [] = None"
| "pop_front (x # xs) = Some (x, xs)"

definition cl_type_body :: "cl_type de \<Rightarrow> cl_type de" where
  "cl_type_body from_bytes bs =
     and_then (u8_from_bytes bs) (\<lambda>(tag, rem).
       if tag = 0 then Ok (CL_Bool, rem)
       else if tag = 1 then Ok (CL_I32, rem)
       else if tag = 2 then Ok (CL_I64, rem)
       else if tag = 3 then Ok (CL_U8, rem)
       else if tag = 4 then Ok (CL_U32, rem)
       else if tag = 5 then Ok (CL_U64, rem)
       else if tag = 6 then Ok (CL_U128, rem)
       else if tag = 7 then Ok (CL_U256, rem)
       else if tag = 8 then Ok (CL_U512, rem)
       else if tag = 9 then Ok (CL_Unit, rem)
       else if tag = 10 then Ok (CL_String, rem)
       else if tag = 11 then Ok (CL_Key, rem)
       else if tag = 12 then Ok (CL_URef, rem)
       else if tag = 13 then and_then (from_bytes rem) (\<lambda>(t, rem). Ok (CL_Option t, rem))
       else if tag = 14 then and_then (from_bytes rem) (\<lambda>(t, rem). Ok (CL_List t, rem))
       else if tag = 15 then
         and_then (from_bytes rem) (\<lambda>(t, rem).
           and_then (u32_from_bytes rem) (\<lambda>(n, rem). Ok (CL_FixedList t n, rem)))
       else if tag = 16 then
         and_then (from_bytes rem) (\<lambda>(k, rem).
           and_then (from_bytes rem) (\<lambda>(e, rem). Ok (CL_Result k e, rem)))
       else if tag = 17 then
         and_then (from_bytes rem) (\<lambda>(k, rem).
           and_then (from_bytes rem) (\<lambda>(v, rem). Ok (CL_Map k v, rem)))
       else if tag = 18 then
         and_then (parse_cl_tuple_types from_bytes 1 rem) (\<lambda>(ts, rem).
           and_then (expect (pop_front ts)) (\<lambda>(a, ts). Ok (CL_Tuple1 a, rem)))
       else if tag = 19 then
         and_then (parse_cl_tuple_types from_bytes 2 rem) (\<lambda>(ts, rem).
           and_then (expect (pop_front ts)) (\<lambda>(a, ts).
           and_then (expect (pop_front ts)) (\<lambda>(b, ts). Ok (CL_Tuple2 a b, rem))))
       else if tag = 20 then
         and_then (parse_cl_tuple_types from_bytes 3 rem) (\<lambda>(ts, rem).
           and_then (expect (pop_front ts)) (\<lambda>(a, ts).
           and_then (expect (pop_front ts)) (\<lambda>(b, ts).
           and_then (expect (pop_front ts)) (\<lambda>(c, ts). Ok (CL_Tuple3 a b c, rem)))))
       else if tag = 21 then Ok (CL_Any, rem)
       else Err FormattingError)"

primrec cl_type_fuel :: "nat \<Rightarrow> cl_type de" where
  "cl_type_fuel 0 = (\<lambda>bs. Panic)"
| "cl_type_fuel (Suc n) = cl_type_body (cl_type_fuel n)"

definition cl_type_from_bytes :: "cl_type de" where
  "cl_type_from_bytes bs = cl_type_fuel (Suc (length bs)) bs"

section \<open>Values\<close>

datatype cl_value = CLValue (cl_type: cl_type) (inner_bytes: bytes)

datatype cl_value_error =
    CL_Serialization bytesrepr_error
  | CL_TypeMismatch (expected: cl_type) (found: cl_type)

text \<open>\<open>ser\<close>, \<open>de\<close> and \<open>ty\<close> are the trait implementations \<^verbatim>\<open>ToBytes\<close>, \<^verbatim>\<open>FromBytes\<close> and \<^verbatim>\<open>CLTyped\<close> of \<^verbatim>\<open>T\<close>.\<close>

definition from_t :: "'a ser \<Rightarrow> cl_type \<Rightarrow> 'a \<Rightarrow> (cl_value, cl_value_error) result" where
  "from_t ser ty t =
     and_then (map_err CL_Serialization (ser t)) (\<lambda>b. Ok (CLValue ty b))"

definition into_t :: "'a de \<Rightarrow> cl_type \<Rightarrow> cl_value \<Rightarrow> ('a, cl_value_error) result" where
  "into_t de ty v =
     (if cl_type v = ty then map_err CL_Serialization (deserialize de (inner_bytes v))
      else Err (CL_TypeMismatch ty (cl_type v)))"

definition cl_value_serialized_len :: "cl_value \<Rightarrow> nat" where
  "cl_value_serialized_len v = cl_type_serialized_len (cl_type v) + 4 + length (inner_bytes v)"

definition cl_value_to_bytes :: "cl_value ser" where
  "cl_value_to_bytes v =
     and_then (vec_u8_to_bytes (inner_bytes v)) (\<lambda>result. Ok (append_bytes (cl_type v) result))"

definition cl_value_from_bytes :: "cl_value de" where
  "cl_value_from_bytes bs =
     and_then (vec_u8_from_bytes bs) (\<lambda>(b, rem).
       and_then (cl_type_from_bytes rem) (\<lambda>(t, rem'). Ok (CLValue t b, rem')))"

definition vec_cl_value_to_bytes :: "(cl_value list) ser" where
  "vec_cl_value_to_bytes vs =
     (let serialized_len = sum_list (map cl_value_serialized_len vs)
      in if serialized_len > u32_max - 4 then Err OutOfMemoryError
         else vec_to_bytes cl_value_to_bytes vs)"

definition vec_cl_value_from_bytes :: "(cl_value list) de" where
  "vec_cl_value_from_bytes = vec_from_bytes cl_value_from_bytes"

section \<open>Parsing terminates\<close>

text \<open>A parser that consumes input.\<close>

definition consumes :: "'a de \<Rightarrow> bool" where
  "consumes de \<longleftrightarrow> (\<forall>bs x rem. de bs = Ok (x, rem) \<longrightarrow> length rem < length bs)"

lemma consumesD: "consumes de \<Longrightarrow> de bs = Ok (x, rem) \<Longrightarrow> length rem < length bs"
  by (simp add: consumes_def)

lemma u8_from_bytes_Ok_iff [result_simps]: "u8_from_bytes bs = Ok (b, rem) \<longleftrightarrow> bs = b # rem"
  by (cases bs) auto

lemma u32_from_bytes_length: "u32_from_bytes bs = Ok (n, rem) \<Longrightarrow> length rem \<le> length bs"
  by (auto simp: int_codec_defs safe_split_at_def result_simps split: if_splits)

lemma u32_from_bytes_no_panic [simp]: "u32_from_bytes bs \<noteq> Panic"
  by (simp add: int_codec_defs safe_split_at_def)

lemma de_n_length: "consumes de \<Longrightarrow> de_n de n bs = Ok (xs, rem) \<Longrightarrow> length rem \<le> length bs \<and> length xs = n"
proof (induction n arbitrary: bs xs)
  case (Suc n)
  then obtain x r ys where "de bs = Ok (x, r)" "de_n de n r = Ok (ys, rem)" "xs = x # ys"
    by (auto simp: result_simps)
  then show ?case using Suc.IH [of r ys] consumesD [OF Suc.prems(1), of bs x r] Suc.prems(1) by simp
qed simp

text \<open>Parsers that agree on short input.\<close>

lemma de_n_cong:
  "consumes d \<Longrightarrow> (\<And>bs'. length bs' \<le> length bs \<Longrightarrow> d bs' = e bs') \<Longrightarrow> de_n d n bs = de_n e n bs"
proof (induction n arbitrary: bs)
  case (Suc n)
  have "de_n d n r = de_n e n r" if "d bs = Ok (x, r)" for x r
    using Suc.IH [of r] Suc.prems consumesD [OF Suc.prems(1) that] by simp
  with Suc.prems(2) [of bs] show ?case
    by (auto simp: intro!: and_then_cong)
qed simp

lemma de_n_no_panic:
  "consumes d \<Longrightarrow> (\<And>bs'. length bs' \<le> length bs \<Longrightarrow> d bs' \<noteq> Panic) \<Longrightarrow> de_n d n bs \<noteq> Panic"
proof (induction n arbitrary: bs)
  case (Suc n)
  have "de_n d n r \<noteq> Panic" if "d bs = Ok (x, r)" for x r
    using Suc.IH [of r] Suc.prems consumesD [OF Suc.prems(1) that] by simp
  with Suc.prems(2) [of bs] show ?case
    by (auto simp: result_simps)
qed simp

lemma cl_type_body_consumes:
  assumes "consumes d"
  shows "consumes (cl_type_body d)"
  unfolding consumes_def
proof (intro allI impI)
  fix bs t rem
  assume "cl_type_body d bs = Ok (t, rem)"
  moreover from this obtain tag r where bs: "bs = tag # r"
    by (auto simp: cl_type_body_def result_simps)
  ultimately have "length rem \<le> length r"
    using assms
    by (auto simp: cl_type_body_def result_simps parse_cl_tuple_types_def split: if_splits
        dest!: consumesD [OF assms] u32_from_bytes_length de_n_length [OF assms])
  then show "length rem < length bs" by (simp add: bs)
qed

lemma cl_type_fuel_consumes: "consumes (cl_type_fuel n)"
proof (induction n)
  case 0
  then show ?case by (simp add: consumes_def)
next
  case (Suc n)
  then show ?case by (simp add: cl_type_body_consumes)
qed

lemma cl_type_body_cong:
  assumes d: "consumes d" and eq: "\<And>bs'. length bs' < length bs \<Longrightarrow> d bs' = e bs'"
  shows "cl_type_body d bs = cl_type_body e bs"
proof (cases bs)
  case (Cons tag r)
  have r: "d r = e r" using eq [of r] Cons by simp
  have "d r' = e r'" if "e r = Ok (x, r')" for x r'
    using consumesD [OF d, of r x r'] that r eq [of r'] Cons by simp
  moreover have "de_n d n r = de_n e n r" for n
    by (rule de_n_cong [OF d]) (simp add: eq Cons)
  ultimately show ?thesis
    by (auto simp: Cons cl_type_body_def parse_cl_tuple_types_def r intro!: and_then_cong)
qed (simp add: cl_type_body_def)

lemma cl_type_fuel_enough:
  "length bs < n \<Longrightarrow> length bs < m \<Longrightarrow> cl_type_fuel n bs = cl_type_fuel m bs"
proof (induction n arbitrary: m bs)
  case (Suc n)
  then obtain m' where m: "m = Suc m'" by (cases m) auto
  have "cl_type_body (cl_type_fuel n) bs = cl_type_body (cl_type_fuel m') bs"
    using Suc.prems m by (intro cl_type_body_cong cl_type_fuel_consumes Suc.IH) auto
  then show ?case by (simp add: m)
qed simp

lemma cl_type_from_bytes_consumes: "consumes cl_type_from_bytes"
  using cl_type_fuel_consumes unfolding consumes_def cl_type_from_bytes_def by blast

text \<open>The recursion equation of the source.\<close>

lemma cl_type_from_bytes_unfold: "cl_type_from_bytes bs = cl_type_body cl_type_from_bytes bs"
proof -
  have "cl_type_body (cl_type_fuel (length bs)) bs = cl_type_body cl_type_from_bytes bs"
  proof (rule cl_type_body_cong [OF cl_type_fuel_consumes])
    fix bs' :: bytes
    assume "length bs' < length bs"
    then show "cl_type_fuel (length bs) bs' = cl_type_from_bytes bs'"
      unfolding cl_type_from_bytes_def by (intro cl_type_fuel_enough) auto
  qed
  then show ?thesis by (simp add: cl_type_from_bytes_def)
qed

lemma cl_type_body_no_panic:
  assumes d: "consumes d" and np: "\<And>bs'. length bs' < length bs \<Longrightarrow> d bs' \<noteq> Panic"
  shows "cl_type_body d bs \<noteq> Panic"
proof (cases bs)
  case (Cons tag r)
  have r: "d r \<noteq> Panic" using np [of r] Cons by simp
  have r2: "d r' \<noteq> Panic" if "d r = Ok (x, r')" for x r'
    using consumesD [OF d that] np [of r'] Cons by simp
  have de: "de_n d n r \<noteq> Panic" for n
    by (rule de_n_no_panic [OF d]) (simp add: np Cons)
  have len: "length ts = n" if "de_n d n r = Ok (ts, r')" for n ts r'
    using de_n_length [OF d that] by simp
  have pop: "and_then (expect (pop_front ts)) f = Panic \<longleftrightarrow>
      ts = [] \<or> f (hd ts, tl ts) = Panic" for ts :: "cl_type list" and f :: "_ \<Rightarrow> (cl_type \<times> bytes, bytesrepr_error) result"
    by (cases ts) auto
  show ?thesis
    using r r2 de len [of 1] len [of 2] len [of 3]
    by (simp add: Cons cl_type_body_def parse_cl_tuple_types_def pop and_then_Panic_iff)
      (auto simp: length_Suc_conv numeral_2_eq_2 numeral_3_eq_3)
qed (simp add: cl_type_body_def)

lemma cl_type_from_bytes_no_panic: "cl_type_from_bytes bs \<noteq> Panic"
proof (induction bs rule: length_induct)
  case (1 bs)
  then show ?case
    by (subst cl_type_from_bytes_unfold)
      (rule cl_type_body_no_panic [OF cl_type_from_bytes_consumes], blast)
qed

section \<open>Round trips\<close>

primrec cl_type_bytes :: "cl_type \<Rightarrow> bytes" where
  "cl_type_bytes CL_Bool = [0]"
| "cl_type_bytes CL_I32 = [1]"
| "cl_type_bytes CL_I64 = [2]"
| "cl_type_bytes CL_U8 = [3]"
| "cl_type_bytes CL_U32 = [4]"
| "cl_type_bytes CL_U64 = [5]"
| "cl_type_bytes CL_U128 = [6]"
| "cl_type_bytes CL_U256 = [7]"
| "cl_type_bytes CL_U512 = [8]"
| "cl_type_bytes CL_Unit = [9]"
| "cl_type_bytes CL_String = [10]"
| "cl_type_bytes CL_Key = [11]"
| "cl_type_bytes CL_URef = [12]"
| "cl_type_bytes (CL_Option t) = 13 # cl_type_bytes t"
| "cl_type_bytes (CL_List t) = 14 # cl_type_bytes t"
| "cl_type_bytes (CL_FixedList t n) = 15 # cl_type_bytes t @ to_le_bytes 4 n"
| "cl_type_bytes (CL_Result k e) = 16 # cl_type_bytes k @ cl_type_bytes e"
| "cl_type_bytes (CL_Map k v) = 17 # cl_type_bytes k @ cl_type_bytes v"
| "cl_type_bytes (CL_Tuple1 a) = 18 # cl_type_bytes a"
| "cl_type_bytes (CL_Tuple2 a b) = 19 # cl_type_bytes a @ cl_type_bytes b"
| "cl_type_bytes (CL_Tuple3 a b c) = 20 # cl_type_bytes a @ cl_type_bytes b @ cl_type_bytes c"
| "cl_type_bytes CL_Any = [21]"

lemma append_bytes_eq: "append_bytes t stream = stream @ cl_type_bytes t"
  by (induction t arbitrary: stream) (simp_all add: serialize_cl_tuple_type_def)

lemma de_n_2_3:
  "de_n de 2 bs = de_n de (Suc (Suc 0)) bs" "de_n de 3 bs = de_n de (Suc (Suc (Suc 0))) bs"
  by (simp_all add: numeral_2_eq_2 numeral_3_eq_3)

lemma cl_type_from_bytes_bytes: "cl_type_from_bytes (cl_type_bytes t @ rest) = Ok (t, rest)"
  by (induction t arbitrary: rest)
    (subst cl_type_from_bytes_unfold,
      simp add: cl_type_body_def parse_cl_tuple_types_def de_n_2_3)+

interpretation cl_typec: codec "\<lambda>t. Ok (append_bytes t [])" cl_type_from_bytes "\<lambda>_. True"
  by unfold_locales (auto simp: append_bytes_eq cl_type_from_bytes_bytes)

interpretation cl_valuec: codec cl_value_to_bytes cl_value_from_bytes "\<lambda>_. True"
proof unfold_locales
  fix v bs rest
  assume "cl_value_to_bytes v = Ok bs"
  then obtain b where "vec_u8_to_bytes (inner_bytes v) = Ok b" "bs = b @ cl_type_bytes (cl_type v)"
    by (auto simp: cl_value_to_bytes_def result_simps append_bytes_eq)
  then show "cl_value_from_bytes (bs @ rest) = Ok (v, rest)"
    by (simp add: cl_value_from_bytes_def vec_u8c.roundtrip cl_type_from_bytes_bytes)
qed

lemma cl_type_serialized_len_eq: "cl_type_serialized_len t = length (cl_type_bytes t)"
  by (induction t) (simp_all add: serialized_len_of_cl_tuple_type_def)

lemma cl_value_serialized_len_eq:
  "cl_value_to_bytes v = Ok bs \<Longrightarrow> length bs = cl_value_serialized_len v"
  by (auto simp: cl_value_to_bytes_def vec_u8_to_bytes_def cl_value_serialized_len_def
      append_bytes_eq cl_type_serialized_len_eq split: if_splits)

interpretation vec_cl_valuec: codec vec_cl_value_to_bytes vec_cl_value_from_bytes "\<lambda>_. True"
proof unfold_locales
  fix vs bs rest
  assume "vec_cl_value_to_bytes vs = Ok bs"
  then have v: "vec_to_bytes cl_value_to_bytes vs = Ok bs"
    and "sum_list (map cl_value_serialized_len vs) \<le> u32_max"
    by (auto simp: vec_cl_value_to_bytes_def Let_def split: if_splits)
  moreover have "length vs \<le> sum_list (map cl_value_serialized_len vs)"
    by (induction vs) (auto simp: cl_value_serialized_len_def)
  ultimately show "vec_cl_value_from_bytes (bs @ rest) = Ok (vs, rest)"
    using codec.roundtrip [OF vec_codec [OF cl_valuec.codec_axioms]]
    by (auto simp: vec_cl_value_from_bytes_def)
qed

text \<open>A typed value is read back at its type, and at no other one.\<close>

lemma into_t_from_t:
  "codec ser de valid \<Longrightarrow> valid x \<Longrightarrow> from_t ser ty x = Ok v \<Longrightarrow> into_t de ty v = Ok x"
  by (auto simp: from_t_def into_t_def result_simps codec.deserialize_ser)

lemma into_t_other_type:
  "from_t ser ty x = Ok v \<Longrightarrow> ty' \<noteq> ty \<Longrightarrow> into_t de ty' v = Err (CL_TypeMismatch ty' ty)"
  by (auto simp: from_t_def into_t_def result_simps)

section \<open>Properties\<close>

text \<open>C34. The recursive parser of types is total: it satisfies the recursion of the source on every
  input, and never panics, however the input nests.\<close>

theorem cl_type_parser_total:
  "cl_type_from_bytes bs = cl_type_body cl_type_from_bytes bs \<and> cl_type_from_bytes bs \<noteq> Panic
   \<and> cl_type_from_bytes (append_bytes t [] @ rest) = Ok (t, rest)"
  using cl_type_from_bytes_unfold [of bs] cl_type_from_bytes_no_panic [of bs] cl_type_from_bytes_bytes
  by (simp add: append_bytes_eq)



end
