(* ===== verification/Accounts.thy ===== *)
theory Accounts
  imports CL_Types
begin

text \<open>
  \<^verbatim>\<open>types/src/account.rs\<close> (weights, public keys, purses and the error codes) and
  \<^verbatim>\<open>engine-shared/src/account.rs\<close> with \<^verbatim>\<open>account/associated_keys.rs\<close> and \<^verbatim>\<open>account/action_thresholds.rs\<close>.
  The newtypes \<^verbatim>\<open>PublicKey\<close>, \<^verbatim>\<open>Weight\<close> and \<^verbatim>\<open>PurseId\<close> are their contents. A method with \<^verbatim>\<open>&mut self\<close>
  returns its result together with the new state.

  The lemmas: the account invariant (deployment threshold at most the key management threshold,
  which all keys together reach; at most \<^verbatim>\<open>MAX_KEYS\<close> keys) holds of created accounts and every
  operation keeps it; a failed operation changes nothing; and the account is never locked.
\<close>

section \<open>Types\<close>

type_synonym public_key = array32
type_synonym weight = u8
type_synonym purse_id = uref
type_synonym named_keys = "(rstring, key) fmap"

definition public_key_cl_type :: cl_type where
  "public_key_cl_type = CL_FixedList CL_U8 32"

datatype action_type = Deployment | KeyManagement

datatype set_threshold_failure =
    KeyManagementThresholdError | DeploymentThresholdError | PermissionDeniedError
  | InsufficientTotalWeight

datatype add_key_failure = MaxKeysLimit | DuplicateKey | Add_PermissionDenied

datatype remove_key_failure = Remove_MissingKey | Remove_PermissionDenied | Remove_ThresholdViolation

datatype update_key_failure = Update_MissingKey | Update_PermissionDenied | Update_ThresholdViolation

text \<open>The error \<^verbatim>\<open>TryFromIntError(())\<close> and \<^verbatim>\<open>TryFromSliceForPublicKeyError(())\<close> carry no data.\<close>

definition action_type_try_from :: "u32 \<Rightarrow> (action_type, unit) result" where
  "action_type_try_from v =
     (if v = 0 then Ok Deployment else if v = 1 then Ok KeyManagement else Err ())"

definition set_threshold_failure_try_from :: "i32 \<Rightarrow> (set_threshold_failure, unit) result" where
  "set_threshold_failure_try_from v =
     (if v = 1 then Ok KeyManagementThresholdError
      else if v = 2 then Ok DeploymentThresholdError
      else if v = 3 then Ok PermissionDeniedError
      else if v = 4 then Ok InsufficientTotalWeight else Err ())"

fun set_threshold_failure_as_i32 :: "set_threshold_failure \<Rightarrow> i32" where
  "set_threshold_failure_as_i32 KeyManagementThresholdError = 1"
| "set_threshold_failure_as_i32 DeploymentThresholdError = 2"
| "set_threshold_failure_as_i32 PermissionDeniedError = 3"
| "set_threshold_failure_as_i32 InsufficientTotalWeight = 4"

definition add_key_failure_try_from :: "i32 \<Rightarrow> (add_key_failure, unit) result" where
  "add_key_failure_try_from v =
     (if v = 1 then Ok MaxKeysLimit else if v = 2 then Ok DuplicateKey
      else if v = 3 then Ok Add_PermissionDenied else Err ())"

fun add_key_failure_as_i32 :: "add_key_failure \<Rightarrow> i32" where
  "add_key_failure_as_i32 MaxKeysLimit = 1"
| "add_key_failure_as_i32 DuplicateKey = 2"
| "add_key_failure_as_i32 Add_PermissionDenied = 3"

definition remove_key_failure_try_from :: "i32 \<Rightarrow> (remove_key_failure, unit) result" where
  "remove_key_failure_try_from v =
     (if v = 1 then Ok Remove_MissingKey else if v = 2 then Ok Remove_PermissionDenied
      else if v = 3 then Ok Remove_ThresholdViolation else Err ())"

fun remove_key_failure_as_i32 :: "remove_key_failure \<Rightarrow> i32" where
  "remove_key_failure_as_i32 Remove_MissingKey = 1"
| "remove_key_failure_as_i32 Remove_PermissionDenied = 2"
| "remove_key_failure_as_i32 Remove_ThresholdViolation = 3"

definition update_key_failure_try_from :: "i32 \<Rightarrow> (update_key_failure, unit) result" where
  "update_key_failure_try_from v =
     (if v = 1 then Ok Update_MissingKey else if v = 2 then Ok Update_PermissionDenied
      else if v = 3 then Ok Update_ThresholdViolation else Err ())"

fun update_key_failure_as_i32 :: "update_key_failure \<Rightarrow> i32" where
  "update_key_failure_as_i32 Update_MissingKey = 1"
| "update_key_failure_as_i32 Update_PermissionDenied = 2"
| "update_key_failure_as_i32 Update_ThresholdViolation = 3"

definition public_key_try_from :: "bytes \<Rightarrow> (public_key, unit) result" where
  "public_key_try_from bs = (if length bs \<noteq> 32 then Err () else Ok (array32_copy bs))"

section \<open>Serialization of the newtypes\<close>

definition purse_id_to_bytes :: "purse_id ser" where "purse_id_to_bytes p = uref_to_bytes p"
definition purse_id_from_bytes :: "purse_id de" where "purse_id_from_bytes = uref_from_bytes"
definition weight_to_bytes :: "weight ser" where "weight_to_bytes w = u8_to_bytes w"
definition weight_from_bytes :: "weight de" where "weight_from_bytes = u8_from_bytes"
definition public_key_to_bytes :: "public_key ser" where
  "public_key_to_bytes k = array32_to_bytes k"
definition public_key_from_bytes :: "public_key de" where
  "public_key_from_bytes = array32_from_bytes"

section \<open>Associated keys\<close>

definition MAX_KEYS :: nat where "MAX_KEYS = 10"

type_synonym associated_keys = "(public_key, weight) fmap"

definition associated_keys_new :: "public_key \<Rightarrow> weight \<Rightarrow> associated_keys" where
  "associated_keys_new k w = fmupd k w fmempty"

definition contains_key :: "associated_keys \<Rightarrow> public_key \<Rightarrow> bool" where
  "contains_key keys k = (fmlookup keys k \<noteq> None)"

definition add_key ::
    "associated_keys \<Rightarrow> public_key \<Rightarrow> weight \<Rightarrow> (unit, add_key_failure) result \<times> associated_keys"
where
  "add_key keys k w =
     (if fm_len keys = MAX_KEYS then (Err MaxKeysLimit, keys)
      else if contains_key keys k then (Err DuplicateKey, keys)
      else (Ok (), fmupd k w keys))"

definition remove_key ::
    "associated_keys \<Rightarrow> public_key \<Rightarrow> (unit, remove_key_failure) result \<times> associated_keys" where
  "remove_key keys k =
     (ok_or (map_option (\<lambda>_. ()) (fmlookup keys k)) Remove_MissingKey, fmdrop k keys)"

definition update_key ::
    "associated_keys \<Rightarrow> public_key \<Rightarrow> weight \<Rightarrow> (unit, update_key_failure) result \<times> associated_keys"
where
  "update_key keys k w =
     (if \<not> contains_key keys k then (Err Update_MissingKey, keys) else (Ok (), fmupd k w keys))"

definition calculate_any_keys_weight :: "associated_keys \<Rightarrow> public_key list \<Rightarrow> weight" where
  "calculate_any_keys_weight keys ks =
     foldl saturating_add 0 (List.map_filter (fmlookup keys) ks)"

abbreviation btree_keys :: "('k::linorder, 'v) fmap \<Rightarrow> 'k list" where
  "btree_keys m \<equiv> map fst (entries m)"

definition calculate_keys_weight :: "associated_keys \<Rightarrow> public_key fset \<Rightarrow> weight" where
  "calculate_keys_weight keys authorization_keys =
     calculate_any_keys_weight keys (sorted_list_of_fset authorization_keys)"

definition total_keys_weight :: "associated_keys \<Rightarrow> weight" where
  "total_keys_weight keys = calculate_any_keys_weight keys (btree_keys keys)"

definition total_keys_weight_excluding :: "associated_keys \<Rightarrow> public_key \<Rightarrow> weight" where
  "total_keys_weight_excluding keys public_key =
     calculate_any_keys_weight keys (filter (\<lambda>element. element \<noteq> public_key) (btree_keys keys))"

definition associated_keys_to_bytes :: "associated_keys ser" where
  "associated_keys_to_bytes = btree_to_bytes public_key_to_bytes weight_to_bytes"

text \<open>The loop \<^verbatim>\<open>keys_map.into_iter().for_each(|(k, v)| keys.add_key(k, v).unwrap())\<close>.\<close>

fun add_keys_unwrap ::
    "(public_key \<times> weight) list \<Rightarrow> associated_keys \<Rightarrow> (associated_keys, 'e) result" where
  "add_keys_unwrap [] keys = Ok keys"
| "add_keys_unwrap ((k, v) # kvs) keys =
     (case add_key keys k v of
        (Ok _, keys') \<Rightarrow> add_keys_unwrap kvs keys'
      | (_, keys') \<Rightarrow> Panic)"

definition associated_keys_from_bytes :: "associated_keys de" where
  "associated_keys_from_bytes bs =
     and_then (btree_from_bytes public_key_from_bytes weight_from_bytes bs) (\<lambda>(keys_map, rem).
       and_then (add_keys_unwrap (entries keys_map) fmempty) (\<lambda>keys. Ok (keys, rem)))"

section \<open>Action thresholds\<close>

record action_thresholds =
  deployment :: weight
  key_management :: weight

definition action_thresholds_new ::
    "weight \<Rightarrow> weight \<Rightarrow> (action_thresholds, set_threshold_failure) result" where
  "action_thresholds_new d k =
     (if d > k then Err DeploymentThresholdError
      else Ok \<lparr>deployment = d, key_management = k\<rparr>)"

definition set_deployment_threshold ::
    "action_thresholds \<Rightarrow> weight \<Rightarrow> (unit, set_threshold_failure) result \<times> action_thresholds" where
  "set_deployment_threshold t new_threshold =
     (if new_threshold > key_management t then (Err DeploymentThresholdError, t)
      else (Ok (), t\<lparr>deployment := new_threshold\<rparr>))"

definition set_key_management_threshold ::
    "action_thresholds \<Rightarrow> weight \<Rightarrow> (unit, set_threshold_failure) result \<times> action_thresholds" where
  "set_key_management_threshold t new_threshold =
     (if deployment t > new_threshold then (Err KeyManagementThresholdError, t)
      else (Ok (), t\<lparr>key_management := new_threshold\<rparr>))"

fun set_threshold ::
    "action_thresholds \<Rightarrow> action_type \<Rightarrow> weight \<Rightarrow>
     (unit, set_threshold_failure) result \<times> action_thresholds" where
  "set_threshold t Deployment w = set_deployment_threshold t w"
| "set_threshold t KeyManagement w = set_key_management_threshold t w"

definition action_thresholds_default :: action_thresholds where
  "action_thresholds_default = \<lparr>deployment = 1, key_management = 1\<rparr>"

definition action_thresholds_to_bytes :: "action_thresholds ser" where
  "action_thresholds_to_bytes t =
     and_then (weight_to_bytes (deployment t)) (\<lambda>b1.
       and_then (weight_to_bytes (key_management t)) (\<lambda>b2. Ok (b1 @ b2)))"

definition action_thresholds_from_bytes :: "action_thresholds de" where
  "action_thresholds_from_bytes bs =
     and_then (weight_from_bytes bs) (\<lambda>(d, rem).
       and_then (weight_from_bytes rem) (\<lambda>(k, rem').
         Ok (\<lparr>deployment = d, key_management = k\<rparr>, rem')))"

section \<open>Accounts\<close>

record account =
  acc_public_key :: public_key
  acc_named_keys :: named_keys
  acc_purse_id :: purse_id
  acc_associated_keys :: associated_keys
  acc_action_thresholds :: action_thresholds

definition account_create :: "array32 \<Rightarrow> named_keys \<Rightarrow> purse_id \<Rightarrow> account" where
  "account_create account_addr named_keys purse_id =
     \<lparr>acc_public_key = account_addr, acc_named_keys = named_keys, acc_purse_id = purse_id,
      acc_associated_keys = associated_keys_new account_addr 1,
      acc_action_thresholds = action_thresholds_default\<rparr>"

definition account_named_keys_append :: "account \<Rightarrow> named_keys \<Rightarrow> account" where
  "account_named_keys_append a keys = a\<lparr>acc_named_keys := acc_named_keys a ++\<^sub>f keys\<rparr>"

definition purse_id_add_only :: "account \<Rightarrow> purse_id" where
  "purse_id_add_only a = uref_new (addr (acc_purse_id a)) ADD"

definition add_associated_key ::
    "account \<Rightarrow> public_key \<Rightarrow> weight \<Rightarrow> (unit, add_key_failure) result \<times> account" where
  "add_associated_key a k w =
     (case add_key (acc_associated_keys a) k w of
        (r, keys) \<Rightarrow> (r, a\<lparr>acc_associated_keys := keys\<rparr>))"

definition can_remove_key :: "account \<Rightarrow> public_key \<Rightarrow> bool" where
  "can_remove_key a k =
     (let total_weight_without = total_keys_weight_excluding (acc_associated_keys a) k
      in total_weight_without \<ge> deployment (acc_action_thresholds a)
         \<and> total_weight_without \<ge> key_management (acc_action_thresholds a))"

definition can_update_key :: "account \<Rightarrow> public_key \<Rightarrow> weight \<Rightarrow> bool" where
  "can_update_key a k w =
     (let total_weight = total_keys_weight_excluding (acc_associated_keys a) k;
          new_weight = saturating_add total_weight w
      in new_weight \<ge> deployment (acc_action_thresholds a)
         \<and> new_weight \<ge> key_management (acc_action_thresholds a))"

definition remove_associated_key ::
    "account \<Rightarrow> public_key \<Rightarrow> (unit, remove_key_failure) result \<times> account" where
  "remove_associated_key a k =
     (if contains_key (acc_associated_keys a) k \<and> \<not> can_remove_key a k
      then (Err Remove_ThresholdViolation, a)
      else case remove_key (acc_associated_keys a) k of
        (r, keys) \<Rightarrow> (r, a\<lparr>acc_associated_keys := keys\<rparr>))"

definition update_associated_key ::
    "account \<Rightarrow> public_key \<Rightarrow> weight \<Rightarrow> (unit, update_key_failure) result \<times> account" where
  "update_associated_key a k w =
     (if (case fmlookup (acc_associated_keys a) k of
            Some current_weight \<Rightarrow> w < current_weight \<and> \<not> can_update_key a k w
          | None \<Rightarrow> False)
      then (Err Update_ThresholdViolation, a)
      else case update_key (acc_associated_keys a) k w of
        (r, keys) \<Rightarrow> (r, a\<lparr>acc_associated_keys := keys\<rparr>))"

definition can_set_threshold :: "account \<Rightarrow> weight \<Rightarrow> (unit, set_threshold_failure) result" where
  "can_set_threshold a new_threshold =
     (if new_threshold > total_keys_weight (acc_associated_keys a)
      then Err InsufficientTotalWeight else Ok ())"

definition set_action_threshold ::
    "account \<Rightarrow> action_type \<Rightarrow> weight \<Rightarrow> (unit, set_threshold_failure) result \<times> account" where
  "set_action_threshold a ty w =
     (case can_set_threshold a w of
        Ok _ \<Rightarrow> (case set_threshold (acc_action_thresholds a) ty w of
            (r, t) \<Rightarrow> (r, a\<lparr>acc_action_thresholds := t\<rparr>))
      | Err e \<Rightarrow> (Err e, a)
      | Panic \<Rightarrow> (Panic, a))"

definition can_authorize :: "account \<Rightarrow> public_key fset \<Rightarrow> bool" where
  "can_authorize a authorization_keys =
     (authorization_keys \<noteq> {||}
      \<and> list_all (contains_key (acc_associated_keys a)) (sorted_list_of_fset authorization_keys))"

definition can_deploy_with :: "account \<Rightarrow> public_key fset \<Rightarrow> bool" where
  "can_deploy_with a authorization_keys =
     (calculate_keys_weight (acc_associated_keys a) authorization_keys
        \<ge> deployment (acc_action_thresholds a))"

definition can_manage_keys_with :: "account \<Rightarrow> public_key fset \<Rightarrow> bool" where
  "can_manage_keys_with a authorization_keys =
     (calculate_keys_weight (acc_associated_keys a) authorization_keys
        \<ge> key_management (acc_action_thresholds a))"

definition account_to_bytes :: "account ser" where
  "account_to_bytes a =
     (let action_thresholds_size = 2 * (1 + 1);
          associated_keys_size = fm_len (acc_associated_keys a) * (32 + 1) + 4;
          named_keys_size = KEY_UREF_SERIALIZED_LENGTH * fm_len (acc_named_keys a) + 4;
          purse_id_size = KEY_UREF_SERIALIZED_LENGTH;
          serialized_account_size = 32 + named_keys_size + purse_id_size + associated_keys_size
            + action_thresholds_size
      in if serialized_account_size \<ge> u32_max then Err OutOfMemoryError
         else and_then (array32_to_bytes (acc_public_key a)) (\<lambda>b1.
           and_then (btree_to_bytes str_to_bytes key_to_bytes (acc_named_keys a)) (\<lambda>b2.
           and_then (uref_to_bytes (acc_purse_id a)) (\<lambda>b3.
           and_then (associated_keys_to_bytes (acc_associated_keys a)) (\<lambda>b4.
           and_then (action_thresholds_to_bytes (acc_action_thresholds a)) (\<lambda>b5.
             Ok (b1 @ b2 @ b3 @ b4 @ b5)))))))"

definition account_from_bytes :: "account de" where
  "account_from_bytes bs =
     and_then (array32_from_bytes bs) (\<lambda>(public_key, rem).
     and_then (btree_from_bytes string_from_bytes key_from_bytes rem) (\<lambda>(named_keys, rem).
     and_then (uref_from_bytes rem) (\<lambda>(purse_id, rem).
     and_then (associated_keys_from_bytes rem) (\<lambda>(associated_keys, rem).
     and_then (action_thresholds_from_bytes rem) (\<lambda>(action_thresholds, rem).
       Ok (\<lparr>acc_public_key = public_key, acc_named_keys = named_keys, acc_purse_id = purse_id,
             acc_associated_keys = associated_keys, acc_action_thresholds = action_thresholds\<rparr>,
           rem))))))"

section \<open>Weights\<close>

text \<open>The weight of a set of keys, before saturation at 255.\<close>

definition weight_of :: "associated_keys \<Rightarrow> public_key \<Rightarrow> nat" where
  "weight_of keys k = (case fmlookup keys k of Some w \<Rightarrow> unat w | None \<Rightarrow> 0)"

lemma unat_saturating_add_u8: "unat (saturating_add a b :: u8) = min (unat a + unat b) 255"
  by (simp add: unat_saturating_add)

lemma unat_u8_le: "unat (a :: u8) \<le> 255"
  using unat_lt_pow [of a] by simp

lemma unat_foldl_saturating:
  "unat (foldl saturating_add a ws :: u8) = min (unat a + sum_list (map unat ws)) 255"
  by (induction ws arbitrary: a) (auto simp: unat_saturating_add_u8 min_def not_le unat_u8_le)

lemma sum_list_map_filter:
  "sum_list (map unat (List.map_filter (fmlookup keys) ks)) = sum_list (map (weight_of keys) ks)"
  by (induction ks) (auto simp: weight_of_def split: option.splits)

lemma unat_calculate_any_keys_weight:
  "distinct ks \<Longrightarrow>
   unat (calculate_any_keys_weight keys ks) = min (\<Sum>k \<in> set ks. weight_of keys k) 255"
  by (simp add: calculate_any_keys_weight_def unat_foldl_saturating sum_list_map_filter
      sum_list_distinct_conv_sum_set)

lemma set_btree_keys [simp]: "set (btree_keys m) = fset (fmdom m)"
  by (simp add: map_fst_entries)

lemma distinct_btree_keys [simp]: "distinct (btree_keys m)"
  by (simp add: distinct_entries)

lemma unat_calculate_keys_weight:
  "unat (calculate_keys_weight keys S) = min (\<Sum>k \<in> fset S. weight_of keys k) 255"
  by (simp add: calculate_keys_weight_def unat_calculate_any_keys_weight
      sorted_list_of_fset.rep_eq)

definition weight_sum :: "associated_keys \<Rightarrow> nat" where
  "weight_sum keys = (\<Sum>k \<in> fset (fmdom keys). weight_of keys k)"

definition weight_sum_without :: "associated_keys \<Rightarrow> public_key \<Rightarrow> nat" where
  "weight_sum_without keys k = (\<Sum>l \<in> fset (fmdom keys) - {k}. weight_of keys l)"

lemma unat_total_keys_weight: "unat (total_keys_weight keys) = min (weight_sum keys) 255"
  unfolding total_keys_weight_def weight_sum_def
  by (subst unat_calculate_any_keys_weight) (simp_all only: set_btree_keys distinct_btree_keys)

lemma unat_total_keys_weight_excluding:
  "unat (total_keys_weight_excluding keys k) = min (weight_sum_without keys k) 255"
proof -
  have "set (filter (\<lambda>l. l \<noteq> k) (btree_keys keys)) = fset (fmdom keys) - {k}"
    by (auto simp del: set_map simp: set_btree_keys)
  then show ?thesis
    unfolding total_keys_weight_excluding_def weight_sum_without_def
    by (subst unat_calculate_any_keys_weight)
      (simp_all only: distinct_btree_keys distinct_filter simp_thms)
qed

lemma weight_sum_fmupd: "weight_sum (fmupd k w keys) = unat w + weight_sum_without keys k"
proof -
  have "(\<Sum>l \<in> fset (fmdom keys) - {k}. weight_of (fmupd k w keys) l) =
        (\<Sum>l \<in> fset (fmdom keys) - {k}. weight_of keys l)"
    by (rule sum.cong) (auto simp: weight_of_def)
  moreover have "weight_of (fmupd k w keys) k = unat w" by (simp add: weight_of_def)
  ultimately show ?thesis
    by (simp add: weight_sum_def weight_sum_without_def sum.insert_remove)
qed

lemma weight_sum_fmdrop: "weight_sum (fmdrop k keys) = weight_sum_without keys k"
  unfolding weight_sum_def weight_sum_without_def
  by (rule sum.cong) (auto simp: weight_of_def)

lemma weight_sum_split: "weight_sum keys = weight_of keys k + weight_sum_without keys k"
proof (cases "k |\<in>| fmdom keys")
  case True
  then show ?thesis by (simp add: weight_sum_def weight_sum_without_def sum.remove)
next
  case False
  then have "weight_of keys k = 0" by (simp add: weight_of_def fmdom_notD)
  then show ?thesis using False by (simp add: weight_sum_def weight_sum_without_def)
qed

lemmas weight_simps = word_le_nat_alt word_less_nat_alt unat_total_keys_weight
  unat_total_keys_weight_excluding unat_saturating_add_u8

text \<open>A larger set of authorization keys has at least the weight.\<close>

lemma calculate_keys_weight_mono:
  "S |\<subseteq>| T \<Longrightarrow> calculate_keys_weight keys S \<le> calculate_keys_weight keys T"
  by (simp add: word_le_nat_alt unat_calculate_keys_weight less_eq_fset.rep_eq min_le_iff_disj
      sum_mono2)

section \<open>The account invariant\<close>

definition account_inv :: "account \<Rightarrow> bool" where
  "account_inv a \<longleftrightarrow>
     deployment (acc_action_thresholds a) \<le> key_management (acc_action_thresholds a)
     \<and> key_management (acc_action_thresholds a) \<le> total_keys_weight (acc_associated_keys a)
     \<and> fm_len (acc_associated_keys a) \<le> MAX_KEYS"

lemma account_create_inv: "account_inv (account_create adr nk p)"
  by (simp add: account_inv_def account_create_def action_thresholds_default_def
      associated_keys_new_def MAX_KEYS_def fm_len_fmupd weight_simps weight_sum_fmupd
      weight_sum_without_def fcard_fempty del: fmdom_fmupd)

lemma add_associated_key_inv:
  "account_inv a \<Longrightarrow> account_inv (snd (add_associated_key a k w))"
  using weight_sum_split [of "acc_associated_keys a" k]
  by (auto simp: account_inv_def add_associated_key_def add_key_def contains_key_def
      fm_len_fmupd fmdom_notI weight_simps weight_sum_fmupd weight_of_def simp del: fmdom_fmupd)

lemma remove_associated_key_inv:
  assumes "account_inv a"
  shows "account_inv (snd (remove_associated_key a k))"
proof (cases "contains_key (acc_associated_keys a) k")
  case True
  then show ?thesis
    using assms
    by (auto simp: account_inv_def remove_associated_key_def remove_key_def can_remove_key_def
        Let_def fm_len_fmdrop weight_simps weight_sum_fmdrop simp del: fmdom_drop)
next
  case False
  then have "fmdrop k (acc_associated_keys a) = acc_associated_keys a"
    by (intro fmap_ext) (auto simp: contains_key_def)
  then show ?thesis
    using assms False by (simp add: remove_associated_key_def remove_key_def)
qed

lemma update_associated_key_inv:
  assumes "account_inv a"
  shows "account_inv (snd (update_associated_key a k w))"
proof (cases "fmlookup (acc_associated_keys a) k")
  case None
  then show ?thesis
    using assms by (simp add: update_associated_key_def update_key_def contains_key_def)
next
  case (Some v)
  have w: "weight_sum (acc_associated_keys a) = unat v + weight_sum_without (acc_associated_keys a) k"
    using Some weight_sum_split [of "acc_associated_keys a" k] by (simp add: weight_of_def)
  have k: "k |\<in>| fmdom (acc_associated_keys a)" using Some by (rule fmdomI)
  show ?thesis
    using assms Some k
    by (auto simp: account_inv_def update_associated_key_def update_key_def contains_key_def
        can_update_key_def Let_def fm_len_fmupd weight_simps weight_sum_fmupd w simp del: fmdom_fmupd)
qed

lemma set_action_threshold_inv:
  assumes "account_inv a"
  shows "account_inv (snd (set_action_threshold a ty w))"
proof (cases "w > total_keys_weight (acc_associated_keys a)")
  case True
  then show ?thesis using assms by (simp add: set_action_threshold_def can_set_threshold_def)
next
  case False
  then show ?thesis
    using assms
    by (cases ty)
      (simp_all add: account_inv_def set_action_threshold_def can_set_threshold_def
        set_deployment_threshold_def set_key_management_threshold_def not_less)
qed

text \<open>The state machine of an account.\<close>

datatype account_op =
    AddKey public_key weight | RemoveKey public_key | UpdateKey public_key weight
  | SetThreshold action_type weight | AppendNamedKeys named_keys

fun account_step :: "account_op \<Rightarrow> account \<Rightarrow> account" where
  "account_step (AddKey k w) a = snd (add_associated_key a k w)"
| "account_step (RemoveKey k) a = snd (remove_associated_key a k)"
| "account_step (UpdateKey k w) a = snd (update_associated_key a k w)"
| "account_step (SetThreshold ty w) a = snd (set_action_threshold a ty w)"
| "account_step (AppendNamedKeys nk) a = account_named_keys_append a nk"

inductive account_reachable :: "account \<Rightarrow> bool" where
  create: "account_reachable (account_create adr nk p)"
| step: "account_reachable a \<Longrightarrow> account_reachable (account_step op a)"

lemma account_step_inv: "account_inv a \<Longrightarrow> account_inv (account_step op a)"
  by (cases op)
    (simp_all add: add_associated_key_inv remove_associated_key_inv update_associated_key_inv
      set_action_threshold_inv account_named_keys_append_def,
      simp add: account_inv_def)

lemma account_reachable_inv: "account_reachable a \<Longrightarrow> account_inv a"
  by (induction rule: account_reachable.induct) (simp_all add: account_create_inv account_step_inv)

text \<open>All keys together may deploy and manage keys.\<close>

lemma account_inv_not_locked:
  assumes "account_inv a" "fmdom (acc_associated_keys a) |\<subseteq>| S"
  shows "can_manage_keys_with a S" "can_deploy_with a S"
proof -
  have "total_keys_weight (acc_associated_keys a) \<le> calculate_keys_weight (acc_associated_keys a) S"
    using calculate_keys_weight_mono [OF assms(2)]
    by (simp add: word_le_nat_alt unat_total_keys_weight unat_calculate_keys_weight weight_sum_def)
  then show "can_manage_keys_with a S" "can_deploy_with a S"
    using assms(1) by (auto simp: account_inv_def can_manage_keys_with_def can_deploy_with_def)
qed

lemma manage_imp_deploy:
  "account_inv a \<Longrightarrow> can_manage_keys_with a S \<Longrightarrow> can_deploy_with a S"
  by (auto simp: account_inv_def can_manage_keys_with_def can_deploy_with_def)

text \<open>A failed operation leaves the account as it was.\<close>

lemma account_op_failed:
  "fst (add_associated_key a k w) \<noteq> Ok () \<Longrightarrow> snd (add_associated_key a k w) = a"
  "fst (remove_associated_key a k) \<noteq> Ok () \<Longrightarrow> snd (remove_associated_key a k) = a"
  "fst (update_associated_key a k w) \<noteq> Ok () \<Longrightarrow> snd (update_associated_key a k w) = a"
  "fst (set_action_threshold a ty w) \<noteq> Ok () \<Longrightarrow> snd (set_action_threshold a ty w) = a"
proof -
  show "fst (add_associated_key a k w) \<noteq> Ok () \<Longrightarrow> snd (add_associated_key a k w) = a"
    by (auto simp: add_associated_key_def add_key_def split: if_splits)
  have drop: "fmdrop k m = m" if "fmlookup m k = None" for m :: associated_keys
    using that by (intro fmap_ext) auto
  show "fst (remove_associated_key a k) \<noteq> Ok () \<Longrightarrow> snd (remove_associated_key a k) = a"
    by (cases "fmlookup (acc_associated_keys a) k")
      (auto simp: remove_associated_key_def remove_key_def drop split: if_splits)
  show "fst (update_associated_key a k w) \<noteq> Ok () \<Longrightarrow> snd (update_associated_key a k w) = a"
    by (auto simp: update_associated_key_def update_key_def split: if_splits)
  show "fst (set_action_threshold a ty w) \<noteq> Ok () \<Longrightarrow> snd (set_action_threshold a ty w) = a"
    by (cases ty)
      (auto simp: set_action_threshold_def can_set_threshold_def set_deployment_threshold_def
        set_key_management_threshold_def split: if_splits)
qed

section \<open>Round trips\<close>

lemma add_keys_unwrap_insert_all:
  "distinct (map fst kvs) \<Longrightarrow> fst ` set kvs \<inter> fset (fmdom keys) = {} \<Longrightarrow>
   fm_len keys + length kvs \<le> MAX_KEYS \<Longrightarrow> add_keys_unwrap kvs keys = Ok (insert_all kvs keys)"
proof (induction kvs keys rule: add_keys_unwrap.induct)
  case (2 k v kvs keys)
  then have "k |\<notin>| fmdom keys" by auto
  then have "add_key keys k v = (Ok (), fmupd k v keys)" "fm_len (fmupd k v keys) = Suc (fm_len keys)"
    using 2 by (auto simp: add_key_def contains_key_def fm_len_fmupd fmdom_notD simp del: fmdom_fmupd)
  moreover have "fst ` set kvs \<inter> fset (fmdom (fmupd k v keys)) = {}"
    using 2 by auto
  ultimately show ?case using 2 by (simp del: fmdom_fmupd)
qed simp

interpretation associated_keysc:
  codec associated_keys_to_bytes associated_keys_from_bytes "\<lambda>m. fm_len m \<le> MAX_KEYS"
proof unfold_locales
  fix m bs rest
  assume m: "fm_len m \<le> MAX_KEYS" and ser: "associated_keys_to_bytes m = Ok bs"
  have "codec public_key_to_bytes public_key_from_bytes (\<lambda>_. True)"
    "codec weight_to_bytes weight_from_bytes (\<lambda>_. True)"
    using array32c.codec_axioms u8c.codec_axioms
    by (simp_all add: public_key_to_bytes_def public_key_from_bytes_def weight_to_bytes_def
        weight_from_bytes_def codec_def)
  then have "btree_from_bytes public_key_from_bytes weight_from_bytes (bs @ rest) = Ok (m, rest)"
    using codec.roundtrip [OF btree_codec] m ser
    by (fastforce simp: associated_keys_to_bytes_def MAX_KEYS_def pred_prod_beta)
  moreover have "(add_keys_unwrap (entries m) fmempty :: (_, bytesrepr_error) result) = Ok m"
    using m
    by (subst add_keys_unwrap_insert_all)
      (auto simp: distinct_entries length_entries insert_all_entries fcard_fempty)
  ultimately show "associated_keys_from_bytes (bs @ rest) = Ok (m, rest)"
    by (simp add: associated_keys_from_bytes_def)
qed

interpretation action_thresholdsc:
  codec action_thresholds_to_bytes action_thresholds_from_bytes "\<lambda>_. True"
  by unfold_locales
    (auto simp: action_thresholds_to_bytes_def action_thresholds_from_bytes_def weight_to_bytes_def
      weight_from_bytes_def u8_to_bytes_def)

lemma named_keys_codec:
  "codec (btree_to_bytes str_to_bytes key_to_bytes) (btree_from_bytes string_from_bytes key_from_bytes)
     (\<lambda>m. fm_len m \<le> u32_max)"
  using btree_codec [OF strc.codec_axioms keyc.codec_axioms] by (simp add: pred_prod_beta)

interpretation accountc:
  codec account_to_bytes account_from_bytes "\<lambda>a. fm_len (acc_associated_keys a) \<le> MAX_KEYS"
proof unfold_locales
  fix a bs rest
  assume len: "fm_len (acc_associated_keys a) \<le> MAX_KEYS" and ser: "account_to_bytes a = Ok bs"
  have "fm_len (acc_named_keys a) \<le> u32_max"
    using ser by (auto simp: account_to_bytes_def Let_def KEY_UREF_SERIALIZED_LENGTH_def
        UREF_SERIALIZED_LENGTH_def split: if_splits)
  moreover obtain b1 b2 b3 b4 b5 where
    "array32_to_bytes (acc_public_key a) = Ok b1"
    "btree_to_bytes str_to_bytes key_to_bytes (acc_named_keys a) = Ok b2"
    "uref_to_bytes (acc_purse_id a) = Ok b3"
    "associated_keys_to_bytes (acc_associated_keys a) = Ok b4"
    "action_thresholds_to_bytes (acc_action_thresholds a) = Ok b5"
    "bs = b1 @ b2 @ b3 @ b4 @ b5"
    using ser by (auto simp: account_to_bytes_def Let_def result_simps split: if_splits)
  ultimately show "account_from_bytes (bs @ rest) = Ok (a, rest)"
    using len
    by (simp add: account_from_bytes_def array32c.roundtrip codec.roundtrip [OF named_keys_codec]
        urefc.roundtrip associated_keysc.roundtrip action_thresholdsc.roundtrip)
qed

text \<open>The error codes that cross the FFI boundary are read back as the same error.\<close>

lemma failure_codes:
  "set_threshold_failure_try_from (set_threshold_failure_as_i32 e1) = Ok e1"
  "add_key_failure_try_from (add_key_failure_as_i32 e2) = Ok e2"
  "remove_key_failure_try_from (remove_key_failure_as_i32 e3) = Ok e3"
  "update_key_failure_try_from (update_key_failure_as_i32 e4) = Ok e4"
  by (cases e1; cases e2; cases e3; cases e4;
      simp add: set_threshold_failure_try_from_def add_key_failure_try_from_def
        remove_key_failure_try_from_def update_key_failure_try_from_def)+

section \<open>Properties\<close>

text \<open>C36. However an account came about from its creation by adding, removing and updating keys, setting
  thresholds and appending named keys: it has at most ten keys, the deployment threshold is at most
  the key management threshold, that one is at most the total weight, and so the keys of the account
  together may always deploy and manage keys.\<close>

theorem account_never_locked:
  assumes "account_reachable a"
  shows "fm_len (acc_associated_keys a) \<le> 10
    \<and> deployment (acc_action_thresholds a) \<le> key_management (acc_action_thresholds a)
    \<and> key_management (acc_action_thresholds a) \<le> total_keys_weight (acc_associated_keys a)
    \<and> can_manage_keys_with a (fmdom (acc_associated_keys a))
    \<and> can_deploy_with a (fmdom (acc_associated_keys a))"
  using account_reachable_inv [OF assms]
    account_inv_not_locked [OF account_reachable_inv [OF assms], of "fmdom (acc_associated_keys a)"]
  by (simp add: account_inv_def MAX_KEYS_def)

theorem account_never_locked_witness:
  "\<exists>a. account_reachable a \<and> can_manage_keys_with a (fmdom (acc_associated_keys a))"
  using account_never_locked
    [OF account_reachable.step [OF account_reachable.create
        [of "array32_fill 1" fmempty "URef (array32_fill 2) None"], of "AddKey (array32_fill 3) 2"]]
    account_reachable.step [OF account_reachable.create
        [of "array32_fill 1" fmempty "URef (array32_fill 2) None"], of "AddKey (array32_fill 3) 2"]
  by blast

text \<open>An account operation that does not succeed leaves the account as it was.\<close>

theorem account_failure_unchanged:
  "snd (add_associated_key a k w) = (if fst (add_associated_key a k w) = Ok ()
     then a\<lparr>acc_associated_keys := fmupd k w (acc_associated_keys a)\<rparr> else a)
   \<and> snd (remove_associated_key a k) = (if fst (remove_associated_key a k) = Ok ()
     then a\<lparr>acc_associated_keys := fmdrop k (acc_associated_keys a)\<rparr> else a)
   \<and> snd (update_associated_key a k w) = (if fst (update_associated_key a k w) = Ok ()
     then a\<lparr>acc_associated_keys := fmupd k w (acc_associated_keys a)\<rparr> else a)"
  using account_op_failed(1) [of a k w] account_op_failed(2) [of a k] account_op_failed(3) [of a k w]
  by (auto simp: add_associated_key_def add_key_def remove_associated_key_def remove_key_def
      update_associated_key_def update_key_def split: if_splits)

text \<open>C37. The serialized form of a reachable account is read back as the same account.\<close>

theorem account_round_trip:
  assumes "account_reachable a" "account_to_bytes a = Ok bs"
  shows "account_from_bytes (bs @ rest) = Ok (a, rest)"
  using account_reachable_inv [OF assms(1)] assms(2) accountc.roundtrip by (simp add: account_inv_def)

theorem account_round_trip_witness:
  "\<exists>a bs. account_reachable a \<and> account_to_bytes a = Ok bs \<and> account_from_bytes (bs @ [7]) = Ok (a, [7])"
proof -
  let ?a = "account_create (array32_fill 1) fmempty (URef (array32_fill 2) None)"
  have e: "entries (fmupd (array32_fill 1) (1 :: weight) fmempty) = [(array32_fill 1, 1)]"
    by (simp add: sorted_list_of_fmap_def sorted_list_of_fset.rep_eq)
  have "\<exists>bs. account_to_bytes ?a = Ok bs"
    by (simp add: account_to_bytes_def account_create_def Let_def associated_keys_new_def e
        associated_keys_to_bytes_def btree_to_bytes_def pair_to_bytes_def public_key_to_bytes_def
        array32_to_bytes_def weight_to_bytes_def u8_to_bytes_def uref_to_bytes_def
        action_thresholds_to_bytes_def fcard_fempty fcard_finsert_if KEY_UREF_SERIALIZED_LENGTH_def
        UREF_SERIALIZED_LENGTH_def)
  then obtain bs where "account_to_bytes ?a = Ok bs" by blast
  then show ?thesis
    using account_round_trip [OF account_reachable.create, of _ _ _ bs "[7]"] account_reachable.create by blast
qed

end
