(* ===== verification/Versions.thy ===== *)
theory Versions
  imports Bytesrepr "HOL-Library.Product_Lexorder"
begin

text \<open>
  \<^verbatim>\<open>types/src/block_time.rs\<close>, \<^verbatim>\<open>phase.rs\<close>, \<^verbatim>\<open>semver.rs\<close> and \<^verbatim>\<open>protocol_version.rs\<close>. The version numbers are
  32 bit words and \<^verbatim>\<open>+ 1\<close> wraps around, as in a release build. The lemmas: the codecs, that an
  accepted upgrade is strictly later in the version order, and the exact upgrades accepted when
  no component is at its maximum.
\<close>

section \<open>Block time and phase\<close>

datatype block_time = BlockTime (time: u64)

definition block_time_saturating_sub :: "block_time \<Rightarrow> block_time \<Rightarrow> block_time" where
  "block_time_saturating_sub t s = BlockTime (saturating_sub (time t) (time s))"

definition block_time_to_bytes :: "block_time ser" where
  "block_time_to_bytes t = u64_to_bytes (time t)"

definition block_time_from_bytes :: "block_time de" where
  "block_time_from_bytes bs = and_then (u64_from_bytes bs) (\<lambda>(t, rem). Ok (BlockTime t, rem))"

datatype phase = System | Payment | Session | FinalizePayment

fun phase_to_u8 :: "phase \<Rightarrow> u8" where
  "phase_to_u8 System = 0"
| "phase_to_u8 Payment = 1"
| "phase_to_u8 Session = 2"
| "phase_to_u8 FinalizePayment = 3"

definition phase_from_u8 :: "u8 \<Rightarrow> phase option" where
  "phase_from_u8 b =
     (if b = 0 then Some System else if b = 1 then Some Payment
      else if b = 2 then Some Session else if b = 3 then Some FinalizePayment else None)"

definition phase_to_bytes :: "phase ser" where
  "phase_to_bytes p = Ok [phase_to_u8 p]"

definition phase_from_bytes :: "phase de" where
  "phase_from_bytes bs =
     and_then (u8_from_bytes bs) (\<lambda>(id, rest).
       and_then (ok_or (phase_from_u8 id) FormattingError) (\<lambda>p. Ok (p, rest)))"

interpretation block_timec: codec block_time_to_bytes block_time_from_bytes "\<lambda>_. True"
  by unfold_locales
    (simp add: block_time_to_bytes_def block_time_from_bytes_def u64c.roundtrip)

interpretation phasec: codec phase_to_bytes phase_from_bytes "\<lambda>_. True"
proof unfold_locales
  fix p bs rest
  assume "phase_to_bytes p = Ok bs"
  then show "phase_from_bytes (bs @ rest) = Ok (p, rest)"
    by (cases p) (auto simp: phase_to_bytes_def phase_from_bytes_def phase_from_u8_def)
qed

section \<open>Semantic versions\<close>

datatype sem_ver = SemVer (major: u32) (minor: u32) (patch: u32)

definition sem_ver_triple :: "sem_ver \<Rightarrow> u32 \<times> u32 \<times> u32" where
  "sem_ver_triple v = (major v, minor v, patch v)"

instantiation sem_ver :: linorder
begin

definition less_eq_sem_ver :: "sem_ver \<Rightarrow> sem_ver \<Rightarrow> bool" where
  "less_eq_sem_ver u v = (sem_ver_triple u \<le> sem_ver_triple v)"

definition less_sem_ver :: "sem_ver \<Rightarrow> sem_ver \<Rightarrow> bool" where
  "less_sem_ver u v = (sem_ver_triple u < sem_ver_triple v)"

lemma sem_ver_triple_inj: "sem_ver_triple u = sem_ver_triple v \<Longrightarrow> u = v"
  by (cases u; cases v) (simp add: sem_ver_triple_def)

instance
  by intro_classes
    (auto simp: less_eq_sem_ver_def less_sem_ver_def less_le_not_le
      intro: sem_ver_triple_inj order_trans)

end

definition sem_ver_to_bytes :: "sem_ver ser" where
  "sem_ver_to_bytes v =
     and_then (u32_to_bytes (major v)) (\<lambda>b1. and_then (u32_to_bytes (minor v)) (\<lambda>b2.
       and_then (u32_to_bytes (patch v)) (\<lambda>b3. Ok (b1 @ b2 @ b3))))"

definition sem_ver_from_bytes :: "sem_ver de" where
  "sem_ver_from_bytes bs =
     and_then (u32_from_bytes bs) (\<lambda>(a, rem). and_then (u32_from_bytes rem) (\<lambda>(b, rem').
       and_then (u32_from_bytes rem') (\<lambda>(c, rem''). Ok (SemVer a b c, rem''))))"

interpretation sem_verc: codec sem_ver_to_bytes sem_ver_from_bytes "\<lambda>_. True"
  by unfold_locales (auto simp: sem_ver_to_bytes_def sem_ver_from_bytes_def)

section \<open>Protocol versions\<close>

datatype protocol_version = ProtocolVersion (version: sem_ver)

datatype version_check_result = CodeIsRequired | CodeIsOptional | Invalid

fun is_invalid :: "version_check_result \<Rightarrow> bool" where
  "is_invalid Invalid = True"
| "is_invalid CodeIsRequired = False"
| "is_invalid CodeIsOptional = False"

fun is_code_required :: "version_check_result \<Rightarrow> bool" where
  "is_code_required CodeIsRequired = True"
| "is_code_required _ = False"

definition from_parts :: "u32 \<Rightarrow> u32 \<Rightarrow> u32 \<Rightarrow> protocol_version" where
  "from_parts a b c = ProtocolVersion (SemVer a b c)"

definition V1_0_0 :: protocol_version where
  "V1_0_0 = ProtocolVersion (SemVer 1 0 0)"

definition check_next_version :: "protocol_version \<Rightarrow> protocol_version \<Rightarrow> version_check_result" where
  "check_next_version cur nxt =
     (let self = version cur; next = version nxt in
      if major next < major self \<or> major next > major self + 1 then Invalid
      else if major next = saturating_add (major self) 1 then
        (if minor next \<noteq> 0 \<or> patch next \<noteq> 0 then Invalid else CodeIsRequired)
      else if minor next < minor self \<or> minor next > minor self + 1 then Invalid
      else if minor next = minor self + 1 then
        (if patch next \<noteq> 0 then Invalid else CodeIsOptional)
      else if patch next \<le> patch self then Invalid
      else CodeIsOptional)"

definition is_compatible_with :: "protocol_version \<Rightarrow> protocol_version \<Rightarrow> bool" where
  "is_compatible_with v w = (major (version v) = major (version w))"

definition protocol_version_to_bytes :: "protocol_version ser" where
  "protocol_version_to_bytes v = sem_ver_to_bytes (version v)"

definition protocol_version_from_bytes :: "protocol_version de" where
  "protocol_version_from_bytes bs =
     and_then (sem_ver_from_bytes bs) (\<lambda>(v, rem). Ok (ProtocolVersion v, rem))"

interpretation protocol_versionc:
  codec protocol_version_to_bytes protocol_version_from_bytes "\<lambda>_. True"
  by unfold_locales
    (simp add: protocol_version_to_bytes_def protocol_version_from_bytes_def sem_verc.roundtrip)

lemma unat_u32_max_iff: "unat (v :: u32) = 4294967295 \<longleftrightarrow> v = - 1"
  by (simp add: word_unat_eq_iff unsigned_minus_1_eq_mask mask_eq_exp_minus_1)

lemma unat_u32_bound: "v \<noteq> - 1 \<Longrightarrow> unat (v :: u32) < 4294967295"
  using unat_lt_pow [of v] unat_u32_max_iff [of v] by simp

lemma unat_succ_u32: "v \<noteq> - 1 \<Longrightarrow> unat (v + 1 :: u32) = unat v + 1"
  using unat_u32_bound [of v] by (simp add: unat_word_ariths)

lemma saturating_succ_u32: "v \<noteq> - 1 \<Longrightarrow> saturating_add v 1 = (v + 1 :: u32)"
  using unat_u32_bound [of v] by (simp add: saturating_add_def)

text \<open>The exact condition, over the values of the version numbers.\<close>

lemma check_next_version_valid_iff:
  assumes "cur = from_parts a b c" "nxt = from_parts a' b' c'" "a \<noteq> - 1" "b \<noteq> - 1"
  shows "check_next_version cur nxt =
    (if unat a' = unat a + 1 \<and> b' = 0 \<and> c' = 0 then CodeIsRequired
     else if a' = a \<and> (unat b' = unat b + 1 \<and> c' = 0 \<or> b' = b \<and> c < c') then CodeIsOptional
     else Invalid)"
  using assms(3,4)
  by (auto simp: check_next_version_def assms(1,2) from_parts_def Let_def saturating_succ_u32
      unat_succ_u32 word_less_nat_alt word_le_nat_alt word_unat_eq_iff)

text \<open>An accepted version is strictly later, at the maximal numbers too.\<close>

lemma check_next_version_less:
  assumes "\<not> is_invalid (check_next_version cur nxt)"
  shows "version cur < version nxt"
proof -
  have max: "unat (- 1 :: u32) = 4294967295" by (simp add: unat_u32_max_iff)
  consider "major (version cur) = - 1" | "major (version cur) \<noteq> - 1" "minor (version cur) = - 1"
    | "major (version cur) \<noteq> - 1" "minor (version cur) \<noteq> - 1"
    by blast
  then show ?thesis
  proof cases
    case 1
    then show ?thesis
      using assms unat_lt_pow [of "major (version nxt)"]
      by (simp add: check_next_version_def Let_def word_less_nat_alt max split: if_splits)
  next
    case 2
    then show ?thesis
      using assms unat_lt_pow [of "minor (version nxt)"]
      by (auto simp: check_next_version_def Let_def word_less_nat_alt max saturating_succ_u32
          less_sem_ver_def sem_ver_triple_def unat_succ_u32 split: if_splits)
  next
    case 3
    obtain a b c a' b' c' where v: "cur = from_parts a b c" "nxt = from_parts a' b' c'"
      by (metis from_parts_def protocol_version.exhaust sem_ver.exhaust)
    then have "a \<noteq> - 1" "b \<noteq> - 1"
      using 3 by (auto simp: from_parts_def)
    then show ?thesis
      using assms check_next_version_valid_iff [OF v]
      by (auto simp: v from_parts_def less_sem_ver_def sem_ver_triple_def word_less_nat_alt
          split: if_splits)
  qed
qed

section \<open>Properties\<close>

text \<open>Below the maximal version numbers, \<^verbatim>\<open>check_next_version\<close> accepts exactly the next major version
  (with code), the next minor version and the later patches of the same minor version; whatever it
  accepts is a later version.\<close>

theorem next_version_exact:
  assumes "a \<noteq> - 1" "b \<noteq> - 1"
  shows "check_next_version (from_parts a b c) (from_parts a' b' c') =
    (if unat a' = unat a + 1 \<and> b' = 0 \<and> c' = 0 then CodeIsRequired
     else if a' = a \<and> (unat b' = unat b + 1 \<and> c' = 0 \<or> b' = b \<and> c < c') then CodeIsOptional
     else Invalid)"
  using check_next_version_valid_iff [OF refl refl assms] .

theorem next_version_exact_witness:
  "check_next_version (from_parts 1 2 3) (from_parts 2 0 0) = CodeIsRequired
   \<and> check_next_version (from_parts 1 2 3) (from_parts 1 3 0) = CodeIsOptional
   \<and> check_next_version (from_parts 1 2 3) (from_parts 1 2 3) = Invalid"
  using next_version_exact [of 1 2 3 2 0 0] next_version_exact [of 1 2 3 1 3 0]
    next_version_exact [of 1 2 3 1 2 3]
  by simp

end
