(* ===== verification/Stored_Values.thy ===== *)
theory Stored_Values
  imports Accounts Versions
begin

text \<open>
  \<^verbatim>\<open>engine-shared/src/contract.rs\<close> and \<^verbatim>\<open>stored_value.rs\<close>: what the global state maps keys to. The
  strings of a \<^verbatim>\<open>TypeMismatch\<close> are formatted from types and transforms; they are kept as the value
  that is formatted (\<open>descr\<close>, the type of transforms being a parameter of it, since the two source
  files refer to each other).
\<close>

section \<open>Type mismatches\<close>

datatype 't descr =
    Str rstring
  | Dbg_CLType cl_type
  | Integral_compatible_with cl_type
  | Dbg_Transform 't

datatype 't type_mismatch = TypeMismatch (expected: "'t descr") (found: "'t descr")

section \<open>Contracts\<close>

record contract =
  con_bytes :: bytes
  con_named_keys :: named_keys
  con_protocol_version :: protocol_version

definition contract_new :: "bytes \<Rightarrow> named_keys \<Rightarrow> protocol_version \<Rightarrow> contract" where
  "contract_new b nk v = \<lparr>con_bytes = b, con_named_keys = nk, con_protocol_version = v\<rparr>"

definition contract_named_keys_append :: "contract \<Rightarrow> named_keys \<Rightarrow> contract" where
  "contract_named_keys_append c keys = c\<lparr>con_named_keys := con_named_keys c ++\<^sub>f keys\<rparr>"

definition contract_to_bytes :: "contract ser" where
  "contract_to_bytes c =
     (if length (con_bytes c) + KEY_UREF_SERIALIZED_LENGTH * fm_len (con_named_keys c) + 8
           \<ge> u32_max - 4 * 2
      then Err OutOfMemoryError
      else and_then (vec_u8_to_bytes (con_bytes c)) (\<lambda>b1.
        and_then (btree_to_bytes str_to_bytes key_to_bytes (con_named_keys c)) (\<lambda>b2.
        and_then (protocol_version_to_bytes (con_protocol_version c)) (\<lambda>b3.
          Ok (b1 @ b2 @ b3)))))"

definition contract_from_bytes :: "contract de" where
  "contract_from_bytes bs =
     and_then (vec_u8_from_bytes bs) (\<lambda>(b, rem1).
     and_then (btree_from_bytes string_from_bytes key_from_bytes rem1) (\<lambda>(nk, rem2).
     and_then (protocol_version_from_bytes rem2) (\<lambda>(v, rem3).
       Ok (\<lparr>con_bytes = b, con_named_keys = nk, con_protocol_version = v\<rparr>, rem3))))"

section \<open>Stored values\<close>

datatype stored_value = SV_CLValue cl_value | SV_Account account | SV_Contract contract

fun as_cl_value :: "stored_value \<Rightarrow> cl_value option" where
  "as_cl_value (SV_CLValue v) = Some v"
| "as_cl_value _ = None"

fun stored_as_account :: "stored_value \<Rightarrow> account option" where
  "stored_as_account (SV_Account a) = Some a"
| "stored_as_account _ = None"

fun as_contract :: "stored_value \<Rightarrow> contract option" where
  "as_contract (SV_Contract c) = Some c"
| "as_contract _ = None"

fun type_name :: "stored_value \<Rightarrow> 't descr" where
  "type_name (SV_CLValue v) = Dbg_CLType (cl_type v)"
| "type_name (SV_Account _) = Str (str_lit ''Account'')"
| "type_name (SV_Contract _) = Str (str_lit ''Contract'')"

fun cl_value_try_from :: "stored_value \<Rightarrow> (cl_value, 't type_mismatch) result" where
  "cl_value_try_from (SV_CLValue v) = Ok v"
| "cl_value_try_from sv = Err (TypeMismatch (Str (str_lit ''CLValue'')) (type_name sv))"

fun account_try_from :: "stored_value \<Rightarrow> (account, 't type_mismatch) result" where
  "account_try_from (SV_Account a) = Ok a"
| "account_try_from sv = Err (TypeMismatch (Str (str_lit ''Account'')) (type_name sv))"

fun contract_try_from :: "stored_value \<Rightarrow> (contract, 't type_mismatch) result" where
  "contract_try_from (SV_Contract c) = Ok c"
| "contract_try_from sv = Err (TypeMismatch (Str (str_lit ''Contract'')) (type_name sv))"

definition tagged_to_bytes :: "'a ser \<Rightarrow> u8 \<Rightarrow> 'a ser" where
  "tagged_to_bytes ser tag v =
     and_then (ser v) (\<lambda>b.
       if length b \<ge> u32_max - 1 then Err OutOfMemoryError else Ok ([tag] @ b))"

fun stored_value_to_bytes :: "stored_value ser" where
  "stored_value_to_bytes (SV_CLValue v) = tagged_to_bytes cl_value_to_bytes 0 v"
| "stored_value_to_bytes (SV_Account a) = tagged_to_bytes account_to_bytes 1 a"
| "stored_value_to_bytes (SV_Contract c) = tagged_to_bytes contract_to_bytes 2 c"

definition stored_value_from_bytes :: "stored_value de" where
  "stored_value_from_bytes bs =
     and_then (u8_from_bytes bs) (\<lambda>(tag, rem).
       if tag = 0 then and_then (cl_value_from_bytes rem) (\<lambda>(v, rem). Ok (SV_CLValue v, rem))
       else if tag = 1 then and_then (account_from_bytes rem) (\<lambda>(a, rem). Ok (SV_Account a, rem))
       else if tag = 2 then and_then (contract_from_bytes rem) (\<lambda>(c, rem). Ok (SV_Contract c, rem))
       else Err FormattingError)"

section \<open>Round trips\<close>

interpretation contractc: codec contract_to_bytes contract_from_bytes "\<lambda>_. True"
proof unfold_locales
  fix c bs rest
  assume ser: "contract_to_bytes c = Ok bs"
  then have "fm_len (con_named_keys c) \<le> u32_max"
    by (auto simp: contract_to_bytes_def KEY_UREF_SERIALIZED_LENGTH_def
        UREF_SERIALIZED_LENGTH_def split: if_splits)
  moreover obtain b1 b2 b3 where "vec_u8_to_bytes (con_bytes c) = Ok b1"
    "btree_to_bytes str_to_bytes key_to_bytes (con_named_keys c) = Ok b2"
    "protocol_version_to_bytes (con_protocol_version c) = Ok b3" "bs = b1 @ b2 @ b3"
    using ser by (auto simp: contract_to_bytes_def result_simps split: if_splits)
  ultimately show "contract_from_bytes (bs @ rest) = Ok (c, rest)"
    by (simp add: contract_from_bytes_def vec_u8c.roundtrip codec.roundtrip [OF named_keys_codec]
        protocol_versionc.roundtrip)
qed

definition stored_value_valid :: "stored_value \<Rightarrow> bool" where
  "stored_value_valid sv \<longleftrightarrow>
     (case sv of SV_Account a \<Rightarrow> fm_len (acc_associated_keys a) \<le> MAX_KEYS | _ \<Rightarrow> True)"

interpretation stored_valuec: codec stored_value_to_bytes stored_value_from_bytes stored_value_valid
proof unfold_locales
  fix sv bs rest
  assume "stored_value_valid sv" "stored_value_to_bytes sv = Ok bs"
  then show "stored_value_from_bytes (bs @ rest) = Ok (sv, rest)"
    by (cases sv; clarsimp simp: tagged_to_bytes_def result_simps stored_value_valid_def split: if_splits)
      (simp_all add: stored_value_from_bytes_def cl_valuec.roundtrip accountc.roundtrip
        contractc.roundtrip)
qed

section \<open>Properties\<close>

text \<open>C38. What is stored in the global state is read back as it was written: values and contracts always,
  accounts when they have at most ten associated keys.\<close>

theorem stored_value_round_trip:
  assumes "stored_value_valid sv" "stored_value_to_bytes sv = Ok bs"
  shows "deserialize stored_value_from_bytes bs = Ok sv"
  using assms by (rule stored_valuec.deserialize_ser)

theorem stored_value_round_trip_witness:
  "\<exists>bs. stored_value_valid (SV_CLValue (CLValue CL_U8 [5]))
   \<and> stored_value_to_bytes (SV_CLValue (CLValue CL_U8 [5])) = Ok bs
   \<and> deserialize stored_value_from_bytes bs = Ok (SV_CLValue (CLValue CL_U8 [5]))"
proof -
  have "\<exists>bs. stored_value_to_bytes (SV_CLValue (CLValue CL_U8 [5])) = Ok bs"
    by (simp add: tagged_to_bytes_def cl_value_to_bytes_def vec_u8_to_bytes_def append_bytes_eq)
  moreover have "stored_value_valid (SV_CLValue (CLValue CL_U8 [5]))"
    by (simp add: stored_value_valid_def)
  ultimately show ?thesis using stored_value_round_trip by blast
qed

end
