(* ===== verification/Store.thy ===== *)
theory Store
  imports Trie_Store Stored_Values
begin

text \<open>
  The storage layer under the trie: \<^verbatim>\<open>engine-storage/src/transaction_source/in_memory.rs\<close> (environment and
  transactions), \<^verbatim>\<open>store/mod.rs\<close> and \<^verbatim>\<open>store/store_ext.rs\<close> (typed access through a transaction) and the handles
  of \<^verbatim>\<open>trie_store/in_memory.rs\<close> and \<^verbatim>\<open>protocol_data_store/in_memory.rs\<close>.

  A transaction is a copy of the databases, as the code clones them; a mutex is the flag that says
  whether it is poisoned. \<open>trie_store\<close> is interpreted on transactions over the in-memory environment, and the
  interleaving of writers is a step relation.
\<close>

section \<open>Environment and transactions\<close>

type_synonym handle = "string option"
type_synonym bytes_map = "bytes \<rightharpoonup> bytes"
type_synonym databases = "handle \<rightharpoonup> bytes_map"

record in_memory_environment =
  env_data :: databases
  data_poisoned :: bool
  write_mutex_poisoned :: bool

definition environment_new :: in_memory_environment where
  "environment_new =
     \<lparr>env_data = [None \<mapsto> Map.empty], data_poisoned = False, write_mutex_poisoned = False\<rparr>"

definition environment_data ::
    "in_memory_environment \<Rightarrow> handle \<Rightarrow> (bytes_map option, storage_error) result" where
  "environment_data env name =
     (if data_poisoned env then Err PoisonError else Ok (env_data env name))"

definition create_read_txn :: "in_memory_environment \<Rightarrow> (databases, storage_error) result" where
  "create_read_txn env = (if data_poisoned env then Err PoisonError else Ok (env_data env))"

definition create_read_write_txn :: "in_memory_environment \<Rightarrow> (databases, storage_error) result" where
  "create_read_write_txn env =
     (if data_poisoned env then Err PoisonError
      else if write_mutex_poisoned env then Err PoisonError
      else Ok (env_data env))"

definition txn_read :: "databases \<Rightarrow> handle \<Rightarrow> bytes \<Rightarrow> (bytes option, storage_error) result" where
  "txn_read view handle key =
     (case view handle of Some sub_view \<Rightarrow> Ok (sub_view key) | None \<Rightarrow> Ok None)"

definition txn_write ::
    "databases \<Rightarrow> handle \<Rightarrow> bytes \<Rightarrow> bytes \<Rightarrow> (unit, storage_error) result \<times> databases" where
  "txn_write view handle key value =
     (let sub_view = (case view handle of Some m \<Rightarrow> m | None \<Rightarrow> Map.empty)
      in (Ok (), view(handle \<mapsto> sub_view(key \<mapsto> value))))"

text \<open>\<^verbatim>\<open>commit\<close> of a read-write transaction: \<^verbatim>\<open>extend\<close> replaces whole databases.\<close>

definition txn_commit ::
    "in_memory_environment \<Rightarrow> databases \<Rightarrow> (unit, storage_error) result \<times> in_memory_environment" where
  "txn_commit env view =
     (if data_poisoned env then (Err PoisonError, env)
      else (Ok (), env\<lparr>env_data := env_data env ++ view\<rparr>))"

definition read_txn_commit :: "databases \<Rightarrow> (unit, storage_error) result" where
  "read_txn_commit view = Ok ()"

section \<open>Typed access\<close>

definition store_get ::
    "handle \<Rightarrow> 'k ser \<Rightarrow> 'v de \<Rightarrow> databases \<Rightarrow> 'k \<Rightarrow> ('v option, storage_error) result" where
  "store_get handle key_ser val_de txn key =
     and_then (map_err BytesRepr (key_ser key)) (\<lambda>kb.
       and_then (txn_read txn handle kb) (\<lambda>found.
         case found of
           None \<Rightarrow> Ok None
         | Some value_bytes \<Rightarrow>
             and_then (map_err BytesRepr (deserialize val_de value_bytes)) (\<lambda>v. Ok (Some v))))"

definition store_put ::
    "handle \<Rightarrow> 'k ser \<Rightarrow> 'v ser \<Rightarrow> databases \<Rightarrow> 'k \<Rightarrow> 'v \<Rightarrow> (unit, storage_error) result \<times> databases" where
  "store_put handle key_ser val_ser txn key value =
     (case and_then (map_err BytesRepr (key_ser key)) (\<lambda>kb.
             and_then (map_err BytesRepr (val_ser value)) (\<lambda>vb. Ok (kb, vb))) of
        Ok (kb, vb) \<Rightarrow> txn_write txn handle kb vb
      | Err e \<Rightarrow> (Err e, txn)
      | Panic \<Rightarrow> (Panic, txn))"

primrec get_many ::
    "handle \<Rightarrow> 'k ser \<Rightarrow> 'v de \<Rightarrow> databases \<Rightarrow> 'k list \<Rightarrow> ('v option list, storage_error) result" where
  "get_many handle key_ser val_de txn [] = Ok []"
| "get_many handle key_ser val_de txn (k # ks) =
     and_then (store_get handle key_ser val_de txn k) (\<lambda>v.
       and_then (get_many handle key_ser val_de txn ks) (\<lambda>vs. Ok (v # vs)))"

fun put_many ::
    "handle \<Rightarrow> 'k ser \<Rightarrow> 'v ser \<Rightarrow> databases \<Rightarrow> ('k \<times> 'v) list \<Rightarrow> (unit, storage_error) result \<times> databases" where
  "put_many handle key_ser val_ser txn [] = (Ok (), txn)"
| "put_many handle key_ser val_ser txn ((k, v) # kvs) =
     (case store_put handle key_ser val_ser txn k v of
        (Ok _, txn') \<Rightarrow> put_many handle key_ser val_ser txn' kvs
      | (Err e, txn') \<Rightarrow> (Err e, txn')
      | (Panic, txn') \<Rightarrow> (Panic, txn'))"

text \<open>The handle of a store is its name, with an optional suffix.\<close>

definition trie_store_handle :: "string option \<Rightarrow> handle" where
  "trie_store_handle maybe_name =
     Some (case maybe_name of Some name \<Rightarrow> ''TRIE_STORE'' @ ''-'' @ name | None \<Rightarrow> ''TRIE_STORE'')"

definition protocol_data_store_handle :: "string option \<Rightarrow> handle" where
  "protocol_data_store_handle maybe_name =
     Some (case maybe_name of
         Some name \<Rightarrow> ''PROTOCOL_DATA_STORE'' @ ''-'' @ name
       | None \<Rightarrow> ''PROTOCOL_DATA_STORE'')"

section \<open>Laws of the store\<close>

lemma txn_read_write:
  "txn_read (snd (txn_write v n k b)) n' l =
     (if n' = n \<and> l = k then Ok (Some b) else txn_read v n' l)"
  by (auto simp: txn_read_def txn_write_def Let_def split: option.splits)

lemma fst_txn_write [simp]: "fst (txn_write v n k b) = Ok ()"
  by (simp add: txn_write_def Let_def)

lemma store_put_Ok:
  "key_ser k = Ok kb \<Longrightarrow> val_ser v = Ok vb \<Longrightarrow> store_put n key_ser val_ser txn k v = txn_write txn n kb vb"
  by (simp add: store_put_def)

text \<open>Reading back what was put, and what another key or another handle holds.\<close>

lemma store_get_put:
  assumes "codec ks kd vk" "codec vs vd vv" "vk k" "vk l" "vv v" "ks k = Ok kb" "ks l = Ok lb" "vs v = Ok vb"
  shows "store_get n' ks vd (snd (store_put n ks vs txn k v)) l =
    (if n' = n \<and> l = k then Ok (Some v) else store_get n' ks vd txn l)"
proof -
  have "lb = kb \<longleftrightarrow> l = k" using codec.ser_inj [OF assms(1)] assms(3,4,6,7) by auto
  then show ?thesis
    using assms codec.deserialize_ser [OF assms(2,5,8)]
    by (simp add: store_get_def store_put_Ok txn_read_write)
qed

section \<open>The trie store on transactions\<close>

abbreviation trie_ser :: "((key, stored_value) trie) ser" where
  "trie_ser \<equiv> trie_to_bytes key_to_bytes stored_value_to_bytes"

abbreviation trie_de :: "((key, stored_value) trie) de" where
  "trie_de \<equiv> trie_from_bytes key_from_bytes stored_value_from_bytes"

abbreviation trie_ok :: "(key, stored_value) trie \<Rightarrow> bool" where
  "trie_ok \<equiv> trie_valid (\<lambda>_. True) stored_value_valid"

definition trie_get :: "handle \<Rightarrow> databases \<Rightarrow> (key, stored_value) getter" where
  "trie_get handle txn = store_get handle blake2b_to_bytes trie_de txn"

definition trie_put :: "handle \<Rightarrow> (databases, key, stored_value) putter" where
  "trie_put handle txn = store_put handle blake2b_to_bytes trie_ser txn"

text \<open>The elements a transaction sees, and that all of them can be decoded.\<close>

definition txn_view :: "handle \<Rightarrow> databases \<Rightarrow> (key, stored_value) store" where
  "txn_view handle txn x = (case trie_get handle txn x of Ok r \<Rightarrow> r | _ \<Rightarrow> None)"

definition txn_inv :: "handle \<Rightarrow> databases \<Rightarrow> bool" where
  "txn_inv handle txn \<longleftrightarrow> (\<forall>x. \<exists>r. trie_get handle txn x = Ok r)"

lemma trie_element_codec: "codec trie_ser trie_de trie_ok"
  by (rule trie_codec [OF keyc.codec_axioms stored_valuec.codec_axioms])

interpretation blake2bc: codec blake2b_to_bytes blake2b_from_bytes "\<lambda>_. True"
  using array32c.codec_axioms by (simp add: blake2b_to_bytes_def blake2b_from_bytes_def codec_def)

lemma trie_get_put:
  assumes "trie_ok t" "trie_ser t = Ok b"
  shows "trie_get n' (snd (trie_put n txn x t)) y =
    (if n' = n \<and> y = x then Ok (Some t) else trie_get n' txn y)"
  unfolding trie_get_def trie_put_def
  by (rule store_get_put [OF blake2bc.codec_axioms trie_element_codec])
    (use assms in \<open>simp_all add: blake2b_to_bytes_def array32_to_bytes_def\<close>)

interpretation key_trie: trie_keys key_bytes
proof unfold_locales
  show "k = l" if "prefix (key_bytes k) (key_bytes l)" for k l
    using that by (rule key_bytes_prefix_free)
  show "length (key_bytes l) \<le> length (key_bytes k) + 1" if "hd (key_bytes k) = hd (key_bytes l)" for k l
    using that key_bytes_length_by_tag [of k] key_bytes_length_by_tag [of l]
    by (cases "hd (key_bytes k) = 2") auto
  show "length (key_bytes k) \<le> 1000" for k using length_key_bytes(2) [of k] by simp
qed simp

interpretation mem: trie_store key_bytes key_to_bytes stored_value_to_bytes H trie_ser "trie_hash H trie_ser"
    "txn_view handle" "txn_inv handle" trie_ok "trie_get handle" "trie_put handle"
  for H :: "bytes \<Rightarrow> blake2b_hash" and handle :: "string option"
proof unfold_locales
  show "trie_get handle s x = Ok (txn_view handle s x)" if inv: "txn_inv handle s" for s x
  proof -
    obtain r where "trie_get handle s x = Ok r" using inv by (auto simp: txn_inv_def)
    then show ?thesis by (simp add: txn_view_def)
  qed
next
  fix s t b x
  assume a: "txn_inv handle s" "trie_ok t" "trie_ser t = Ok b"
  let ?s = "snd (trie_put handle s x t)"
  have "fst (trie_put handle s x t) = Ok ()"
    using a(3) by (simp add: trie_put_def store_put_Ok blake2b_to_bytes_def array32_to_bytes_def)
  moreover have "txn_inv handle ?s"
    using a(1) trie_get_put [OF a(2,3), of handle handle s x] by (simp add: txn_inv_def)
  moreover have "txn_view handle ?s = (txn_view handle s)(x \<mapsto> t)"
    by (rule ext) (simp add: txn_view_def trie_get_put [OF a(2,3)])
  ultimately show "\<exists>s'. trie_put handle s x t = (Ok (), s') \<and> txn_inv handle s'
      \<and> txn_view handle s' = (txn_view handle s)(x \<mapsto> t)"
    by (intro exI [of _ ?s]) (simp add: prod_eq_iff)
next
  show "trie_ok t" if "parent_ok t" for t
    using that by (cases t) (simp_all add: trie_valid_def)
qed (simp_all add: key_to_bytes_eq)

section \<open>States and their roots\<close>

text \<open>The root \<open>root\<close> of a transaction's store holds the map \<open>m\<close>; every element is stored at its hash.\<close>

definition state_at ::
    "handle \<Rightarrow> databases \<Rightarrow> blake2b_hash \<Rightarrow> (key \<rightharpoonup> stored_value) \<Rightarrow> bool" where
  "state_at handle txn root m \<longleftrightarrow>
     (\<exists>t. txn_view handle txn root = Some t \<and> is_node t \<and> trie_repr key_bytes (txn_view handle txn) [] t m)"

definition store_ok :: "(bytes \<Rightarrow> blake2b_hash) \<Rightarrow> handle \<Rightarrow> databases \<Rightarrow> bool" where
  "store_ok H handle txn \<longleftrightarrow>
     txn_inv handle txn \<and> hash_ok (trie_hash H trie_ser) (txn_view handle txn)"

text \<open>The elements of a store, and those that a write adds.\<close>

definition store_elements :: "handle \<Rightarrow> databases \<Rightarrow> (key, stored_value) trie set" where
  "store_elements handle txn = ran (txn_view handle txn)"

definition mem_write ::
    "(bytes \<Rightarrow> blake2b_hash) \<Rightarrow> handle \<Rightarrow> databases \<Rightarrow> blake2b_hash \<Rightarrow> key \<Rightarrow> stored_value \<Rightarrow>
     ((write_result, storage_error) result \<times> databases) option" where
  "mem_write H handle txn root k v =
     trie_write (trie_get handle) (trie_put handle) H key_to_bytes trie_ser txn root k v"

definition mem_write_elements ::
    "(bytes \<Rightarrow> blake2b_hash) \<Rightarrow> handle \<Rightarrow> databases \<Rightarrow> blake2b_hash \<Rightarrow> key \<Rightarrow> stored_value \<Rightarrow>
     (key, stored_value) trie list" where
  "mem_write_elements H handle txn root k v =
     write_elements (trie_get handle) H key_to_bytes trie_ser txn root k v"

definition mem_read ::
    "handle \<Rightarrow> databases \<Rightarrow> blake2b_hash \<Rightarrow> key \<Rightarrow> (stored_value read_result, storage_error) result option"
where
  "mem_read handle txn root k = trie_read (trie_get handle txn) key_to_bytes root k"

text \<open>Values that can be stored below a key.\<close>

definition storable :: "key \<Rightarrow> stored_value \<Rightarrow> bool" where
  "storable k v \<longleftrightarrow> stored_value_valid v \<and> (\<exists>b. trie_ser (Leaf k v) = Ok b)"

lemma state_at_mono:
  "state_at n txn root m \<Longrightarrow> txn_view n txn \<subseteq>\<^sub>m txn_view n txn' \<Longrightarrow> state_at n txn' root m"
  using mem.holds_mono [of n txn root m txn'] by (simp add: state_at_def mem.holds_def)

lemma mem_read_state:
  "store_ok H n txn \<Longrightarrow> state_at n txn root m \<Longrightarrow>
   mem_read n txn root k = Some (Ok (case m k of Some v \<Rightarrow> Found v | None \<Rightarrow> NotFound))"
  using mem.read_correct [of n txn root m k] by (simp add: state_at_def mem.holds_def mem_read_def store_ok_def)

lemma mem_write_state:
  assumes "store_ok H n txn" "state_at n txn root m" "storable k v"
    "inj_on (trie_hash H trie_ser) (store_elements n txn \<union> set (mem_write_elements H n txn root k v))"
  shows "if m k = Some v then mem_write H n txn root k v = Some (Ok AlreadyExists, txn)
    else \<exists>root' txn'. mem_write H n txn root k v = Some (Ok (Written root'), txn')
      \<and> store_ok H n txn' \<and> txn_view n txn \<subseteq>\<^sub>m txn_view n txn' \<and> state_at n txn' root' (m(k \<mapsto> v))
      \<and> store_elements n txn' \<subseteq> store_elements n txn \<union> set (mem_write_elements H n txn root k v)"
proof -
  obtain b where "trie_ser (Leaf k v) = Ok b" using assms(3) by (auto simp: storable_def)
  then show ?thesis
    using mem.write_correct [of n txn H root m k v b] assms
    by (simp add: state_at_def mem.holds_def mem_write_def mem_write_elements_def store_ok_def
        store_elements_def storable_def trie_valid_def split: if_splits)
qed

lemma state_root_unique:
  "state_at n txn root m \<Longrightarrow> state_at n' txn' root' m \<Longrightarrow> store_ok H n txn \<Longrightarrow> store_ok H n' txn' \<Longrightarrow> root = root'"
  unfolding state_at_def store_ok_def
  using trie_repr_unique [of key_bytes "txn_view n txn" "[]" _ m "txn_view n' txn'" _ "trie_hash H trie_ser"]
    hash_okD
  by metis

end
