(* ===== verification/Transforms.thy ===== *)
theory Transforms
  imports Stored_Values
begin

text \<open>
  \<^verbatim>\<open>engine-shared/src/transform.rs\<close> and \<^verbatim>\<open>additive_map.rs\<close>: the effects of an execution. A transform is
  applied to a stored value, and two transforms of one key are combined by addition.

  An argument \<^verbatim>\<open>Y: AsPrimitive<i32> + ...\<close> is used only through its eight conversions, which the
  record \<open>addend\<close> holds. The lemmas: applying the sum of two transforms is applying one after the
  other, provided that for two numeric additions the stored integer is no wider than the type the
  sum is computed in (\<open>transform_add_apply\<close>); at a wider stored type the two differ.
\<close>

section \<open>Transforms\<close>

datatype 't transform_error =
    Serialization bytesrepr_error
  | Type_Mismatch "'t type_mismatch"

datatype transform =
    Identity
  | Write stored_value
  | AddInt32 i32
  | AddUInt64 u64
  | AddUInt128 U128
  | AddUInt256 U256
  | AddUInt512 U512
  | AddKeys named_keys
  | Failure "transform transform_error"

type_synonym error = "transform transform_error"

fun error_from_cl_value_error :: "cl_value_error \<Rightarrow> error" where
  "error_from_cl_value_error (CL_Serialization e) = Serialization e"
| "error_from_cl_value_error (CL_TypeMismatch exp fnd) =
     Type_Mismatch (TypeMismatch (Dbg_CLType exp) (Dbg_CLType fnd))"

section \<open>Applying a transform\<close>

record addend =
  as_i32 :: i32
  as_i64 :: i64
  as_u8 :: u8
  as_u32 :: u32
  as_u64 :: u64
  as_u128 :: U128
  as_u256 :: U256
  as_u512 :: U512
  addend_type :: cl_type

definition addend_of_i32 :: "i32 \<Rightarrow> addend" where
  "addend_of_i32 i =
     \<lparr>as_i32 = i, as_i64 = scast i, as_u8 = ucast i, as_u32 = i, as_u64 = scast i,
      as_u128 = signed_as_uint i, as_u256 = signed_as_uint i, as_u512 = signed_as_uint i,
      addend_type = CL_I32\<rparr>"

definition addend_of_u64 :: "u64 \<Rightarrow> addend" where
  "addend_of_u64 i =
     \<lparr>as_i32 = ucast i, as_i64 = i, as_u8 = ucast i, as_u32 = ucast i, as_u64 = i,
      as_u128 = ucast i, as_u256 = ucast i, as_u512 = ucast i, addend_type = CL_U64\<rparr>"

definition addend_of_u128 :: "U128 \<Rightarrow> addend" where
  "addend_of_u128 i =
     \<lparr>as_i32 = uint_as_primitive 2 i, as_i64 = uint_as_primitive 2 i,
      as_u8 = uint_as_primitive 2 i, as_u32 = uint_as_primitive 2 i,
      as_u64 = uint_as_primitive 2 i, as_u128 = i, as_u256 = u128_as_u256 i,
      as_u512 = u128_as_u512 i, addend_type = CL_U128\<rparr>"

definition addend_of_u256 :: "U256 \<Rightarrow> addend" where
  "addend_of_u256 i =
     \<lparr>as_i32 = uint_as_primitive 4 i, as_i64 = uint_as_primitive 4 i,
      as_u8 = uint_as_primitive 4 i, as_u32 = uint_as_primitive 4 i,
      as_u64 = uint_as_primitive 4 i, as_u128 = u256_as_u128 i, as_u256 = i,
      as_u512 = u256_as_u512 i, addend_type = CL_U256\<rparr>"

definition addend_of_u512 :: "U512 \<Rightarrow> addend" where
  "addend_of_u512 i =
     \<lparr>as_i32 = uint_as_primitive 8 i, as_i64 = uint_as_primitive 8 i,
      as_u8 = uint_as_primitive 8 i, as_u32 = uint_as_primitive 8 i,
      as_u64 = uint_as_primitive 8 i, as_u128 = u512_as_u128 i, as_u256 = u512_as_u256 i,
      as_u512 = i, addend_type = CL_U512\<rparr>"

definition do_wrapping_addition ::
    "('n::len word) ser \<Rightarrow> ('n word) de \<Rightarrow> cl_type \<Rightarrow> cl_value \<Rightarrow> 'n word \<Rightarrow>
     (stored_value, error) result" where
  "do_wrapping_addition ser de ty v to_add =
     and_then (map_err error_from_cl_value_error (into_t de ty v)) (\<lambda>x.
       let r = wrapping_add x to_add in
       and_then (map_err error_from_cl_value_error (from_t ser ty r)) (\<lambda>v'. Ok (SV_CLValue v')))"

definition wrapping_addition :: "stored_value \<Rightarrow> addend \<Rightarrow> (stored_value, error) result" where
  "wrapping_addition sv to_add =
     and_then (map_err Type_Mismatch (cl_value_try_from sv)) (\<lambda>v.
       case cl_type v of
         CL_I32 \<Rightarrow> do_wrapping_addition i32_to_bytes i32_from_bytes CL_I32 v (as_i32 to_add)
       | CL_I64 \<Rightarrow> do_wrapping_addition i64_to_bytes i64_from_bytes CL_I64 v (as_i64 to_add)
       | CL_U8 \<Rightarrow> do_wrapping_addition u8_to_bytes u8_from_bytes CL_U8 v (as_u8 to_add)
       | CL_U32 \<Rightarrow> do_wrapping_addition u32_to_bytes u32_from_bytes CL_U32 v (as_u32 to_add)
       | CL_U64 \<Rightarrow> do_wrapping_addition u64_to_bytes u64_from_bytes CL_U64 v (as_u64 to_add)
       | CL_U128 \<Rightarrow> do_wrapping_addition u128_to_bytes u128_from_bytes CL_U128 v (as_u128 to_add)
       | CL_U256 \<Rightarrow> do_wrapping_addition u256_to_bytes u256_from_bytes CL_U256 v (as_u256 to_add)
       | CL_U512 \<Rightarrow> do_wrapping_addition u512_to_bytes u512_from_bytes CL_U512 v (as_u512 to_add)
       | other \<Rightarrow> Err (Type_Mismatch
           (TypeMismatch (Integral_compatible_with (addend_type to_add)) (Dbg_CLType other))))"

fun add_keys_to :: "named_keys \<Rightarrow> stored_value \<Rightarrow> (stored_value, error) result" where
  "add_keys_to keys (SV_Contract c) = Ok (SV_Contract (contract_named_keys_append c keys))"
| "add_keys_to keys (SV_Account a) = Ok (SV_Account (account_named_keys_append a keys))"
| "add_keys_to keys (SV_CLValue v) =
     Err (Type_Mismatch (TypeMismatch (Str (str_lit ''Contract or Account'')) (Dbg_CLType (cl_type v))))"

fun transform_apply :: "transform \<Rightarrow> stored_value \<Rightarrow> (stored_value, error) result" where
  "transform_apply Identity sv = Ok sv"
| "transform_apply (Write new_value) sv = Ok new_value"
| "transform_apply (AddInt32 i) sv = wrapping_addition sv (addend_of_i32 i)"
| "transform_apply (AddUInt64 i) sv = wrapping_addition sv (addend_of_u64 i)"
| "transform_apply (AddUInt128 i) sv = wrapping_addition sv (addend_of_u128 i)"
| "transform_apply (AddUInt256 i) sv = wrapping_addition sv (addend_of_u256 i)"
| "transform_apply (AddUInt512 i) sv = wrapping_addition sv (addend_of_u512 i)"
| "transform_apply (AddKeys keys) sv = add_keys_to keys sv"
| "transform_apply (Failure e) sv = Err e"

section \<open>Adding transforms\<close>

text \<open>\<^verbatim>\<open>TryFrom<Transform>\<close> of the unsigned types; the error is the formatted transform.\<close>

fun try_from_u128 :: "transform \<Rightarrow> transform + U128" where
  "try_from_u128 (AddUInt128 x) = Inr x"
| "try_from_u128 other = Inl other"

fun try_from_u256 :: "transform \<Rightarrow> transform + U256" where
  "try_from_u256 (AddUInt256 x) = Inr x"
| "try_from_u256 other = Inl other"

fun try_from_u512 :: "transform \<Rightarrow> transform + U512" where
  "try_from_u512 (AddUInt512 x) = Inr x"
| "try_from_u512 other = Inl other"

definition wrapped_transform_addition ::
    "('n::len word \<Rightarrow> transform) \<Rightarrow> (transform \<Rightarrow> transform + 'n word) \<Rightarrow>
     'n word \<Rightarrow> transform \<Rightarrow> rstring \<Rightarrow> transform" where
  "wrapped_transform_addition into try_from i b exp =
     (case b of
        AddInt32 j \<Rightarrow> into (wrapping_add i (signed_as_uint j))
      | AddUInt64 j \<Rightarrow> into (wrapping_add i (ucast j))
      | _ \<Rightarrow> (case try_from b of
            Inl b_type \<Rightarrow> Failure (Type_Mismatch (TypeMismatch (Str exp) (Dbg_Transform b_type)))
          | Inr j \<Rightarrow> into (wrapping_add i j)))"

definition mismatch :: "string \<Rightarrow> transform \<Rightarrow> transform" where
  "mismatch exp other =
     Failure (Type_Mismatch (TypeMismatch (Str (str_lit exp)) (Dbg_Transform other)))"

text \<open>Applying a transform does not panic (\<open>transform_apply_no_panic\<close>), so the last case is not reached.\<close>

fun add_to_write :: "stored_value \<Rightarrow> transform \<Rightarrow> transform" where
  "add_to_write v b =
     (case transform_apply b v of
        Err e \<Rightarrow> Failure e
      | Ok new_value \<Rightarrow> Write new_value
      | Panic \<Rightarrow> Identity)"

fun add_to_int32 :: "i32 \<Rightarrow> transform \<Rightarrow> transform" where
  "add_to_int32 i (AddInt32 j) = AddInt32 (i + j)"
| "add_to_int32 i (AddUInt64 j) = AddUInt64 (j + scast i)"
| "add_to_int32 i (AddUInt128 j) = AddUInt128 (wrapping_add j (signed_as_uint i))"
| "add_to_int32 i (AddUInt256 j) = AddUInt256 (wrapping_add j (signed_as_uint i))"
| "add_to_int32 i (AddUInt512 j) = AddUInt512 (wrapping_add j (signed_as_uint i))"
| "add_to_int32 i other = mismatch ''AddInt32'' other"

fun add_to_uint64 :: "u64 \<Rightarrow> transform \<Rightarrow> transform" where
  "add_to_uint64 i (AddInt32 j) = AddInt32 (j + ucast i)"
| "add_to_uint64 i (AddUInt64 j) = AddUInt64 (i + j)"
| "add_to_uint64 i (AddUInt128 j) = AddUInt128 (wrapping_add j (ucast i))"
| "add_to_uint64 i (AddUInt256 j) = AddUInt256 (wrapping_add j (ucast i))"
| "add_to_uint64 i (AddUInt512 j) = AddUInt512 (wrapping_add j (ucast i))"
| "add_to_uint64 i other = mismatch ''AddUInt64'' other"

fun add_to_keys :: "named_keys \<Rightarrow> transform \<Rightarrow> transform" where
  "add_to_keys ks1 (AddKeys ks2) = AddKeys (ks1 ++\<^sub>f ks2)"
| "add_to_keys ks1 other = mismatch ''AddKeys'' other"

definition transform_add :: "transform \<Rightarrow> transform \<Rightarrow> transform" where
  "transform_add self other =
     (case (self, other) of
        (a, Identity) \<Rightarrow> a
      | (Identity, b) \<Rightarrow> b
      | (Failure e, _) \<Rightarrow> Failure e
      | (_, Failure e) \<Rightarrow> Failure e
      | (_, Write v) \<Rightarrow> Write v
      | (Write v, b) \<Rightarrow> add_to_write v b
      | (AddInt32 i, b) \<Rightarrow> add_to_int32 i b
      | (AddUInt64 i, b) \<Rightarrow> add_to_uint64 i b
      | (AddUInt128 i, b) \<Rightarrow>
          wrapped_transform_addition AddUInt128 try_from_u128 i b (str_lit ''U128'')
      | (AddUInt256 i, b) \<Rightarrow>
          wrapped_transform_addition AddUInt256 try_from_u256 i b (str_lit ''U256'')
      | (AddUInt512 i, b) \<Rightarrow>
          wrapped_transform_addition AddUInt512 try_from_u512 i b (str_lit ''U512'')
      | (AddKeys ks1, b) \<Rightarrow> add_to_keys ks1 b)"

section \<open>Additive maps\<close>

text \<open>
  \<^verbatim>\<open>AdditiveMap::insert_add\<close>: the entry, or the default value, plus the new one; \<open>dflt\<close> and \<open>add\<close> are
  the trait implementations \<^verbatim>\<open>Default\<close> and \<^verbatim>\<open>AddAssign\<close> of the values.
\<close>

definition insert_add :: "'v \<Rightarrow> ('v \<Rightarrow> 'v \<Rightarrow> 'v) \<Rightarrow> ('k, 'v) fmap \<Rightarrow> 'k \<Rightarrow> 'v \<Rightarrow> ('k, 'v) fmap" where
  "insert_add dflt add m k v =
     fmupd k (add (case fmlookup m k of Some c \<Rightarrow> c | None \<Rightarrow> dflt) v) m"

section \<open>The numeric transforms over the integers\<close>

text \<open>The number a numeric transform adds, and the width of the word that holds it.\<close>

fun add_val :: "transform \<Rightarrow> int option" where
  "add_val (AddInt32 i) = Some (sint i)"
| "add_val (AddUInt64 i) = Some (uint i)"
| "add_val (AddUInt128 i) = Some (uint i)"
| "add_val (AddUInt256 i) = Some (uint i)"
| "add_val (AddUInt512 i) = Some (uint i)"
| "add_val _ = None"

fun add_width :: "transform \<Rightarrow> nat" where
  "add_width (AddInt32 i) = 32"
| "add_width (AddUInt64 i) = 64"
| "add_width (AddUInt128 i) = 128"
| "add_width (AddUInt256 i) = 256"
| "add_width (AddUInt512 i) = 512"
| "add_width _ = 0"

fun cl_width :: "cl_type \<Rightarrow> nat" where
  "cl_width CL_I32 = 32"
| "cl_width CL_I64 = 64"
| "cl_width CL_U8 = 8"
| "cl_width CL_U32 = 32"
| "cl_width CL_U64 = 64"
| "cl_width CL_U128 = 128"
| "cl_width CL_U256 = 256"
| "cl_width CL_U512 = 512"
| "cl_width _ = 0"

definition addend_int :: "int \<Rightarrow> cl_type \<Rightarrow> addend" where
  "addend_int z ty =
     \<lparr>as_i32 = word_of_int z, as_i64 = word_of_int z, as_u8 = word_of_int z,
      as_u32 = word_of_int z, as_u64 = word_of_int z, as_u128 = word_of_int z,
      as_u256 = word_of_int z, as_u512 = word_of_int z, addend_type = ty\<rparr>"

text \<open>Equality of integers in their low \<open>n\<close> bits.\<close>

definition eq_bits :: "nat \<Rightarrow> int \<Rightarrow> int \<Rightarrow> bool" where
  "eq_bits n a b \<longleftrightarrow> take_bit n a = take_bit n b"

lemma word_of_int_eq_bits:
  assumes "eq_bits n a b" "LENGTH('m::len) \<le> n"
  shows "(word_of_int a :: 'm word) = word_of_int b"
proof -
  have "take_bit LENGTH('m) (take_bit n a) = take_bit LENGTH('m) (take_bit n b)"
    using assms(1) by (simp add: eq_bits_def)
  then show ?thesis
    using assms(2) by (simp add: word_of_int_eq_iff)
qed

lemma scast_word_of_int: "scast w = word_of_int (sint w)"
  by simp

lemma ucast_word_of_int: "ucast w = word_of_int (uint w)"
  by simp

lemma ucast_eq_sint: "LENGTH('m::len) \<le> LENGTH('n::len) \<Longrightarrow> (ucast (w :: 'n word) :: 'm word) = word_of_int (sint w)"
  by (subst ucast_word_of_int, rule word_of_int_eq_bits [where n = "LENGTH('n)"])
    (simp_all add: eq_bits_def uint_sint)

lemma addend_of_i32_int: "addend_of_i32 i = addend_int (sint i) CL_I32"
  by (simp add: addend_of_i32_def addend_int_def signed_as_uint_eq_scast ucast_eq_sint)

lemma addend_of_u64_int: "addend_of_u64 i = addend_int (uint i) CL_U64"
  by (simp add: addend_of_u64_def addend_int_def)

lemma addend_of_u128_int: "addend_of_u128 i = addend_int (uint i) CL_U128"
  by (simp add: addend_of_u128_def addend_int_def uint_as_primitive_eq_ucast u128_as_u256_def
      u128_as_u512_def uint_as_uint_eq_ucast)

lemma addend_of_u256_int: "addend_of_u256 i = addend_int (uint i) CL_U256"
  by (simp add: addend_of_u256_def addend_int_def uint_as_primitive_eq_ucast u256_as_u128_def
      u256_as_u512_def uint_as_uint_eq_ucast)

lemma addend_of_u512_int: "addend_of_u512 i = addend_int (uint i) CL_U512"
  by (simp add: addend_of_u512_def addend_int_def uint_as_primitive_eq_ucast u512_as_u128_def
      u512_as_u256_def uint_as_uint_eq_ucast)

lemmas addend_int_simps = addend_of_i32_int addend_of_u64_int addend_of_u128_int
  addend_of_u256_int addend_of_u512_int

lemma transform_apply_add_val:
  "add_val t = Some z \<Longrightarrow> \<exists>ty. \<forall>sv. transform_apply t sv = wrapping_addition sv (addend_int z ty)"
  by (cases t) (auto simp: addend_int_simps)

text \<open>The sum of two numeric transforms adds the sum, modulo its own width.\<close>

lemma eq_bits_add:
  fixes i j :: "'n::len word" and k :: "'m::len word"
  assumes n: "n = LENGTH('n)"
  shows "eq_bits n (uint (i + j)) (uint i + uint j)"
    and "eq_bits n (sint (i + j)) (sint i + sint j)"
    and "eq_bits n (uint (i + scast k)) (uint i + sint k)"
    and "eq_bits n (uint (i + ucast k)) (uint i + uint k)"
    and "eq_bits n (sint (i + ucast k)) (sint i + uint k)"
proof -
  have u: "eq_bits n (uint w) z" "eq_bits n (sint w) z" if "w = word_of_int z" for w :: "'n word" and z
    using that by (simp_all add: eq_bits_def n uint_word_of_int flip: uint_sint take_bit_eq_mod)
  show "eq_bits n (uint (i + j)) (uint i + uint j)" by (rule u) simp
  show "eq_bits n (sint (i + j)) (sint i + sint j)" by (rule u) simp
  show "eq_bits n (uint (i + scast k)) (uint i + sint k)" by (rule u) simp
  show "eq_bits n (uint (i + ucast k)) (uint i + uint k)" by (rule u) simp
  show "eq_bits n (sint (i + ucast k)) (sint i + uint k)" by (rule u) simp
qed

lemma eq_bits_add_swap:
  fixes i j :: "'n::len word" and k :: "'m::len word"
  assumes n: "n = LENGTH('n)"
  shows "eq_bits n (uint (i + scast k)) (sint k + uint i)"
    and "eq_bits n (uint (i + ucast k)) (uint k + uint i)"
    and "eq_bits n (sint (i + ucast k)) (uint k + sint i)"
  using eq_bits_add(3,4,5) [OF n, of i k]
  by (simp_all add: add.commute [of "uint i" "sint k"] add.commute [of "uint i" "uint k"]
      add.commute [of "sint i" "uint k"])

lemma transform_add_val:
  assumes "add_val a = Some x" "add_val b = Some y" "add_width (transform_add a b) \<noteq> 0"
  shows "\<exists>z. add_val (transform_add a b) = Some z \<and> eq_bits (add_width (transform_add a b)) z (x + y)"
  using assms
  by (cases a; cases b)
    (auto simp: transform_add_def wrapped_transform_addition_def signed_as_uint_eq_scast
      mismatch_def intro: eq_bits_add eq_bits_add_swap)

section \<open>Applying a sum\<close>

lemma do_wrapping_addition_type:
  "do_wrapping_addition ser de ty v a = Ok sv \<Longrightarrow> \<exists>v'. sv = SV_CLValue v' \<and> cl_type v' = ty"
  by (auto simp: do_wrapping_addition_def result_simps from_t_def Let_def)

lemma do_wrapping_addition_twice:
  assumes "codec ser de (\<lambda>_. True)" "do_wrapping_addition ser de ty v a = Ok (SV_CLValue v')"
    "do_wrapping_addition ser de ty v' b = Ok sv" "a + b = c"
  shows "do_wrapping_addition ser de ty v c = Ok sv"
proof -
  obtain x where x: "into_t de ty v = Ok x" "from_t ser ty (x + a) = Ok v'"
    using assms(2) by (auto simp: do_wrapping_addition_def result_simps Let_def)
  then have "into_t de ty v' = Ok (x + a)"
    using into_t_from_t [OF assms(1)] by simp
  then show ?thesis
    using assms(3,4) x by (auto simp: do_wrapping_addition_def add.assoc)
qed

lemma do_wrapping_addition_twice_int:
  assumes "codec ser de (\<lambda>_. True)"
    "do_wrapping_addition ser de ty v (word_of_int x :: 'm::len word) = Ok (SV_CLValue v')"
    "do_wrapping_addition ser de ty v' (word_of_int y) = Ok sv"
    "eq_bits n z (x + y)" "LENGTH('m) \<le> n"
  shows "do_wrapping_addition ser de ty v (word_of_int z) = Ok sv"
  using assms(1-3)
  by (rule do_wrapping_addition_twice)
    (use word_of_int_eq_bits [where 'm = 'm, OF assms(4,5)] in simp)

lemmas do_twice = i32c.codec_axioms [THEN do_wrapping_addition_twice_int]
  i64c.codec_axioms [THEN do_wrapping_addition_twice_int]
  u8c.codec_axioms [THEN do_wrapping_addition_twice_int]
  u32c.codec_axioms [THEN do_wrapping_addition_twice_int]
  u64c.codec_axioms [THEN do_wrapping_addition_twice_int]
  u128c.codec_axioms [THEN do_wrapping_addition_twice_int]
  u256c.codec_axioms [THEN do_wrapping_addition_twice_int]
  u512c.codec_axioms [THEN do_wrapping_addition_twice_int]

text \<open>The width of the stored integer, 0 when it is not one.\<close>

fun stored_width :: "stored_value \<Rightarrow> nat" where
  "stored_width (SV_CLValue v) = cl_width (cl_type v)"
| "stored_width _ = 0"

lemma wrapping_addition_twice:
  assumes "wrapping_addition sv (addend_int x t1) = Ok sv'"
    "wrapping_addition sv' (addend_int y t2) = Ok sv''"
    "eq_bits n z (x + y)" "stored_width sv \<le> n"
  shows "wrapping_addition sv (addend_int z t3) = Ok sv''"
proof -
  obtain v where sv: "sv = SV_CLValue v"
    using assms(1) by (cases sv) (auto simp: wrapping_addition_def)
  obtain v' where sv': "sv' = SV_CLValue v'" "cl_type v' = cl_type v"
    using assms(1) unfolding sv
    by (cases "cl_type v") (auto simp: wrapping_addition_def dest: do_wrapping_addition_type)
  show ?thesis
    using assms unfolding sv sv'(1)
    by (cases "cl_type v")
      (auto simp: wrapping_addition_def sv'(2) addend_int_def
        intro: do_twice [simplified])
qed

definition adds_fit :: "transform \<Rightarrow> transform \<Rightarrow> stored_value \<Rightarrow> bool" where
  "adds_fit a b sv \<longleftrightarrow>
     (add_val a \<noteq> None \<and> add_val b \<noteq> None \<longrightarrow> stored_width sv \<le> add_width (transform_add a b))"

lemma wrapping_addition_width: "wrapping_addition sv ad = Ok sv' \<Longrightarrow> 0 < stored_width sv"
  by (cases sv) (auto simp: wrapping_addition_def split: cl_type.splits)

lemma wrapping_addition_cl_value: "wrapping_addition sv ad = Ok sv' \<Longrightarrow> \<exists>v. sv' = SV_CLValue v"
  by (cases sv) (auto simp: wrapping_addition_def split: cl_type.splits dest: do_wrapping_addition_type)

lemma add_keys_to_Ok: "add_keys_to keys sv = Ok sv' \<Longrightarrow> stored_width sv' = 0 \<and> stored_width sv = 0"
  by (cases sv) auto

lemma transform_apply_numeric: "add_val t \<noteq> None \<Longrightarrow> transform_apply t sv = Ok sv' \<Longrightarrow>
   0 < stored_width sv \<and> (\<exists>v. sv' = SV_CLValue v)"
  by (cases t) (auto dest: wrapping_addition_width wrapping_addition_cl_value)

lemma add_val_cases:
  obtains "add_val t \<noteq> None" | "t = Identity" | v where "t = Write v" | ks where "t = AddKeys ks"
  | e where "t = Failure e"
  by (cases t) auto

lemma transform_add_apply_numeric:
  assumes "transform_apply a sv = Ok sv'" "transform_apply b sv' = Ok sv''" "adds_fit a b sv"
    "add_val a = Some x" "add_val b = Some y"
  shows "transform_apply (transform_add a b) sv = Ok sv''"
proof -
  have w: "stored_width sv \<le> add_width (transform_add a b)"
    using assms(3-5) by (simp add: adds_fit_def)
  moreover have "0 < stored_width sv"
    using transform_apply_numeric [of a sv sv'] assms(1,4) by simp
  ultimately obtain z where z: "add_val (transform_add a b) = Some z"
    "eq_bits (add_width (transform_add a b)) z (x + y)"
    using transform_add_val [OF assms(4,5)] by auto
  show ?thesis
    using transform_apply_add_val [OF assms(4)] transform_apply_add_val [OF assms(5)]
      transform_apply_add_val [OF z(1)] wrapping_addition_twice [OF _ _ z(2) w] assms(1,2)
    by metis
qed

lemma transform_add_simps [simp]:
  "transform_add a Identity = a"
  "transform_add Identity b = b"
  "transform_add a (Write v) = (case a of Failure e \<Rightarrow> Failure e | _ \<Rightarrow> Write v)"
  "transform_add (Write v) (AddKeys ks) = add_to_write v (AddKeys ks)"
  "transform_add (AddKeys ks) (AddKeys ks') = AddKeys (ks ++\<^sub>f ks')"
  by (cases a; cases b; simp add: transform_add_def)+

lemma transform_add_write:
  "add_val b \<noteq> None \<Longrightarrow> transform_add (Write v) b = add_to_write v b"
  by (cases b) (simp_all add: transform_add_def)

theorem transform_add_apply:
  assumes "transform_apply a sv = Ok sv'" "transform_apply b sv' = Ok sv''" "adds_fit a b sv"
  shows "transform_apply (transform_add a b) sv = Ok sv''"
proof (cases a rule: add_val_cases; cases b rule: add_val_cases)
  assume "add_val a \<noteq> None" "add_val b \<noteq> None"
  then show ?thesis using transform_add_apply_numeric [OF assms] by auto
next
  fix ks assume "add_val a \<noteq> None" "b = AddKeys ks"
  then show ?thesis using assms transform_apply_numeric [of a sv sv'] by auto
next
  fix ks assume "add_val b \<noteq> None" "a = AddKeys ks"
  then show ?thesis
    using assms transform_apply_numeric [of b sv' sv''] add_keys_to_Ok [of ks sv sv'] by auto
next
  fix ks ks' assume ab: "a = AddKeys ks" "b = AddKeys ks'"
  then show ?thesis
    using assms
    by (cases sv)
      (auto simp: contract_named_keys_append_def account_named_keys_append_def fmadd_assoc)
next
  fix v assume "a = Write v" "add_val b \<noteq> None"
  then show ?thesis using assms by (simp add: transform_add_write)
qed (use assms in \<open>auto split: transform.splits\<close>)

text \<open>Applying a transform does not panic.\<close>

lemma into_t_no_panic: "(\<And>bs. de bs \<noteq> Panic) \<Longrightarrow> into_t de ty v \<noteq> Panic"
  by (cases "de (inner_bytes v)") (auto simp: into_t_def deserialize_def split: if_splits)

lemma de_no_panic:
  "u8_from_bytes bs \<noteq> Panic" "int_from_bytes n bs \<noteq> Panic" "uint_from_bytes n bs \<noteq> Panic"
proof -
  show u8: "u8_from_bytes bs \<noteq> Panic" by (cases bs) auto
  show "int_from_bytes n bs \<noteq> Panic" by (simp add: int_from_bytes_def safe_split_at_def)
  show "uint_from_bytes n bs \<noteq> Panic"
    using u8
    by (cases "u8_from_bytes bs") (auto simp: uint_from_bytes_def safe_split_at_def split: if_splits)
qed

lemma do_wrapping_addition_no_panic:
  assumes "\<And>bs. de bs \<noteq> Panic" "\<And>x. ser x \<noteq> Panic"
  shows "do_wrapping_addition ser de ty v a \<noteq> Panic"
proof -
  have "map_err f r \<noteq> Panic" if "r \<noteq> Panic" for f and r :: "('c, 'd) result"
    using that by (cases r) auto
  moreover have "from_t ser ty x \<noteq> Panic" for x
    using assms(2) [of x] by (cases "ser x") (auto simp: from_t_def)
  ultimately show ?thesis
    using into_t_no_panic [of de ty v] assms(1)
    by (auto simp: do_wrapping_addition_def result_simps Let_def)
qed

lemma wrapping_addition_no_panic: "wrapping_addition sv ad \<noteq> Panic"
proof (cases sv)
  case (SV_CLValue v)
  then show ?thesis
    by (cases "cl_type v")
      (simp_all add: wrapping_addition_def do_wrapping_addition_no_panic de_no_panic
        int_codec_defs safe_split_at_def u8_to_bytes_def uint_to_bytes_def Let_def)
qed (simp_all add: wrapping_addition_def)

lemma transform_apply_no_panic: "transform_apply t sv \<noteq> Panic"
  by (cases t; cases sv) (simp_all add: wrapping_addition_no_panic)

section \<open>A sum that is not faithful\<close>

text \<open>The stored form of a 512 bit integer.\<close>

definition u512_stored :: "U512 \<Rightarrow> stored_value" where
  "u512_stored w = (case u512_to_bytes w of Ok b \<Rightarrow> SV_CLValue (CLValue CL_U512 b))"

lemma u512_to_bytes_Ok: "\<exists>b. u512_to_bytes w = Ok b"
  by (simp add: uint_to_bytes_def Let_def)

lemma u512_stored_eq_iff [simp]: "u512_stored v = u512_stored w \<longleftrightarrow> v = w"
  using u512_to_bytes_Ok [of v] u512_to_bytes_Ok [of w] u512c.ser_inj
  by (fastforce simp: u512_stored_def)

lemma transform_apply_u512:
  assumes "add_val t = Some z"
  shows "transform_apply t (u512_stored w) = Ok (u512_stored (w + word_of_int z))"
proof -
  obtain b where b: "u512_to_bytes w = Ok b" using u512_to_bytes_Ok by blast
  obtain c where c: "u512_to_bytes (w + word_of_int z) = Ok c" using u512_to_bytes_Ok by blast
  obtain ty where "transform_apply t (u512_stored w) = wrapping_addition (u512_stored w) (addend_int z ty)"
    using transform_apply_add_val [OF assms] by blast
  then show ?thesis
    using u512c.deserialize_ser [OF _ b]
    by (simp add: u512_stored_def b c wrapping_addition_def do_wrapping_addition_def into_t_def
        from_t_def addend_int_def)
qed

text \<open>
  Two 64 bit additions to a 512 bit integer: their sum is computed in 64 bits, so the carry that the
  two applications produce is lost.
\<close>

lemma transform_add_loses_carry:
  "\<exists>a b sv sv' sv''. transform_apply a sv = Ok sv' \<and> transform_apply b sv' = Ok sv'' \<and>
     transform_apply (transform_add a b) sv \<noteq> Ok sv''"
proof -
  let ?a = "AddUInt64 (9223372036854775808)"
  have v: "add_val ?a = Some (9223372036854775808)" by simp
  have sum: "transform_add ?a ?a = AddUInt64 0" by (simp add: transform_add_def)
  have "transform_apply ?a (u512_stored 0) = Ok (u512_stored (9223372036854775808))"
    using transform_apply_u512 [OF v, of 0] by simp
  moreover have "transform_apply ?a (u512_stored (9223372036854775808)) = Ok (u512_stored (18446744073709551616))"
    using transform_apply_u512 [OF v, of "9223372036854775808"] by simp
  moreover have "transform_apply (transform_add ?a ?a) (u512_stored 0) \<noteq> Ok (u512_stored (18446744073709551616))"
    using transform_apply_u512 [of "AddUInt64 0" 0 0] by (simp add: sum)
  ultimately show ?thesis by blast
qed

section \<open>Additive maps\<close>

lemma fmlookup_insert_add:
  "fmlookup (insert_add dflt add m k t) l =
     (if l = k then Some (add (case fmlookup m k of Some c \<Rightarrow> c | None \<Rightarrow> dflt) t)
      else fmlookup m l)"
  by (simp add: insert_add_def)

section \<open>Properties\<close>

text \<open>C39. Applying the sum of two transforms is applying them one after the other, when both succeed and
  the sum of two additions is computed in a type at least as wide as the stored number.\<close>

theorem transform_sum_sequential:
  assumes "transform_apply a sv = Ok sv'" "transform_apply b sv' = Ok sv''" "adds_fit a b sv"
  shows "transform_apply (transform_add a b) sv = Ok sv''"
  using assms by (rule transform_add_apply)

theorem transform_sum_sequential_witness:
  "transform_apply (AddUInt512 2) (u512_stored 1) = Ok (u512_stored 3)
   \<and> transform_apply (AddUInt512 4) (u512_stored 3) = Ok (u512_stored 7)
   \<and> transform_apply (transform_add (AddUInt512 2) (AddUInt512 4)) (u512_stored 1) = Ok (u512_stored 7)"
proof -
  have 1: "transform_apply (AddUInt512 2) (u512_stored 1) = Ok (u512_stored 3)"
    using transform_apply_u512 [of "AddUInt512 2" 2 1] by simp
  have 2: "transform_apply (AddUInt512 4) (u512_stored 3) = Ok (u512_stored 7)"
    using transform_apply_u512 [of "AddUInt512 4" 4 3] by simp
  obtain b where "u512_to_bytes 1 = Ok b" using u512_to_bytes_Ok by blast
  then have "adds_fit (AddUInt512 2) (AddUInt512 4) (u512_stored 1)"
    by (simp add: adds_fit_def u512_stored_def transform_add_def wrapped_transform_addition_def)
  then show ?thesis using transform_sum_sequential [OF 1 2] 1 2 by simp
qed


text \<open>Applying a transform never panics: it gives a value or an error.\<close>

theorem transform_apply_total: "\<exists>r. transform_apply t sv = Ok r \<or> (\<exists>e. transform_apply t sv = Err e)"
  using transform_apply_no_panic [of t sv] by (cases "transform_apply t sv") auto

end
