(* ===== verification/Protocol_Data.thy ===== *)
theory Protocol_Data
  imports Keys
begin

text \<open>
  \<^verbatim>\<open>engine-wasm-prep/src/wasm_costs.rs\<close> and \<^verbatim>\<open>engine-storage/src/protocol_data.rs\<close>: the costs of Wasm instructions
  and the data kept for a protocol version. The conversion to the rule set of \<^verbatim>\<open>pwasm_utils\<close> returns what is
  handed to that crate.
\<close>

record wasm_costs =
  wc_regular :: u32
  wc_div :: u32
  wc_mul :: u32
  wc_mem :: u32
  wc_initial_mem :: u32
  wc_grow_mem :: u32
  wc_memcpy :: u32
  wc_max_stack_height :: u32
  wc_opcodes_mul :: u32
  wc_opcodes_div :: u32

definition wasm_costs_default :: wasm_costs where
  "wasm_costs_default =
     \<lparr>wc_regular = 0, wc_div = 0, wc_mul = 0, wc_mem = 0, wc_initial_mem = 0, wc_grow_mem = 0,
      wc_memcpy = 0, wc_max_stack_height = 0, wc_opcodes_mul = 0, wc_opcodes_div = 0\<rparr>"

definition WASM_COSTS_SERIALIZED_LENGTH :: nat where
  "WASM_COSTS_SERIALIZED_LENGTH = 10 * 4"

definition wasm_costs_to_bytes :: "wasm_costs ser" where
  "wasm_costs_to_bytes c =
     and_then (u32_to_bytes (wc_regular c)) (\<lambda>b1.
     and_then (u32_to_bytes (wc_div c)) (\<lambda>b2.
     and_then (u32_to_bytes (wc_mul c)) (\<lambda>b3.
     and_then (u32_to_bytes (wc_mem c)) (\<lambda>b4.
     and_then (u32_to_bytes (wc_initial_mem c)) (\<lambda>b5.
     and_then (u32_to_bytes (wc_grow_mem c)) (\<lambda>b6.
     and_then (u32_to_bytes (wc_memcpy c)) (\<lambda>b7.
     and_then (u32_to_bytes (wc_max_stack_height c)) (\<lambda>b8.
     and_then (u32_to_bytes (wc_opcodes_mul c)) (\<lambda>b9.
     and_then (u32_to_bytes (wc_opcodes_div c)) (\<lambda>b10.
       Ok (b1 @ b2 @ b3 @ b4 @ b5 @ b6 @ b7 @ b8 @ b9 @ b10)))))))))))"

definition wasm_costs_from_bytes :: "wasm_costs de" where
  "wasm_costs_from_bytes bs =
     and_then (u32_from_bytes bs) (\<lambda>(regular, rem).
     and_then (u32_from_bytes rem) (\<lambda>(dv, rem).
     and_then (u32_from_bytes rem) (\<lambda>(mul, rem).
     and_then (u32_from_bytes rem) (\<lambda>(mem, rem).
     and_then (u32_from_bytes rem) (\<lambda>(initial_mem, rem).
     and_then (u32_from_bytes rem) (\<lambda>(grow_mem, rem).
     and_then (u32_from_bytes rem) (\<lambda>(memcpy, rem).
     and_then (u32_from_bytes rem) (\<lambda>(max_stack_height, rem).
     and_then (u32_from_bytes rem) (\<lambda>(opcodes_mul, rem).
     and_then (u32_from_bytes rem) (\<lambda>(opcodes_div, rem).
       Ok (\<lparr>wc_regular = regular, wc_div = dv, wc_mul = mul, wc_mem = mem, wc_initial_mem = initial_mem,
            wc_grow_mem = grow_mem, wc_memcpy = memcpy, wc_max_stack_height = max_stack_height,
            wc_opcodes_mul = opcodes_mul, wc_opcodes_div = opcodes_div\<rparr>, rem)))))))))))"

datatype instruction_type = Instr_Load | Instr_Store | Instr_Div | Instr_Mul

record rule_set =
  rs_regular :: u32
  rs_meterings :: "instruction_type \<rightharpoonup> u32"
  rs_grow_cost :: u32
  rs_forbidden_floats :: bool

definition wasm_costs_to_set :: "wasm_costs \<Rightarrow> rule_set" where
  "wasm_costs_to_set c =
     \<lparr>rs_regular = wc_regular c,
      rs_meterings = [Instr_Load \<mapsto> wc_mem c, Instr_Store \<mapsto> wc_mem c, Instr_Div \<mapsto> wc_div c,
        Instr_Mul \<mapsto> wc_mul c],
      rs_grow_cost = wc_grow_mem c, rs_forbidden_floats = True\<rparr>"

record protocol_data =
  pd_wasm_costs :: wasm_costs
  pd_mint :: uref
  pd_proof_of_stake :: uref

definition protocol_data_default :: protocol_data where
  "protocol_data_default =
     \<lparr>pd_wasm_costs = wasm_costs_default, pd_mint = uref_new (array32_fill 0) READ,
      pd_proof_of_stake = uref_new (array32_fill 0) READ\<rparr>"

definition system_contracts :: "protocol_data \<Rightarrow> uref list" where
  "system_contracts d =
     (if addr (pd_mint d) \<noteq> array32_fill 0 then [pd_mint d] else [])
     @ (if addr (pd_proof_of_stake d) \<noteq> array32_fill 0 then [pd_proof_of_stake d] else [])"

definition protocol_data_to_bytes :: "protocol_data ser" where
  "protocol_data_to_bytes d =
     and_then (wasm_costs_to_bytes (pd_wasm_costs d)) (\<lambda>b1.
     and_then (uref_to_bytes (pd_mint d)) (\<lambda>b2.
     and_then (uref_to_bytes (pd_proof_of_stake d)) (\<lambda>b3. Ok (b1 @ b2 @ b3))))"

definition protocol_data_from_bytes :: "protocol_data de" where
  "protocol_data_from_bytes bs =
     and_then (wasm_costs_from_bytes bs) (\<lambda>(wasm_costs, rem).
     and_then (uref_from_bytes rem) (\<lambda>(mint_reference, rem).
     and_then (uref_from_bytes rem) (\<lambda>(proof_of_stake_reference, rem).
       Ok (\<lparr>pd_wasm_costs = wasm_costs, pd_mint = mint_reference,
            pd_proof_of_stake = proof_of_stake_reference\<rparr>, rem))))"

interpretation wasm_costsc: codec wasm_costs_to_bytes wasm_costs_from_bytes "\<lambda>_. True"
  by unfold_locales (auto simp: wasm_costs_to_bytes_def wasm_costs_from_bytes_def)

lemma wasm_costs_to_bytes_length:
  "\<exists>bs. wasm_costs_to_bytes c = Ok bs \<and> length bs = WASM_COSTS_SERIALIZED_LENGTH"
  by (simp add: wasm_costs_to_bytes_def WASM_COSTS_SERIALIZED_LENGTH_def)

interpretation protocol_datac: codec protocol_data_to_bytes protocol_data_from_bytes "\<lambda>_. True"
proof unfold_locales
  fix d bs rest
  assume "protocol_data_to_bytes d = Ok bs"
  then obtain b1 b2 b3 where "wasm_costs_to_bytes (pd_wasm_costs d) = Ok b1"
    "uref_to_bytes (pd_mint d) = Ok b2" "uref_to_bytes (pd_proof_of_stake d) = Ok b3" "bs = b1 @ b2 @ b3"
    by (auto simp: protocol_data_to_bytes_def result_simps)
  then show "protocol_data_from_bytes (bs @ rest) = Ok (d, rest)"
    by (simp add: protocol_data_from_bytes_def wasm_costsc.roundtrip urefc.roundtrip)
qed

lemma uref_to_bytes_Ok: "\<exists>b. uref_to_bytes u = Ok b"
  by (cases u; cases "access_rights u")
    (auto simp: uref_to_bytes_def array32_to_bytes_def rights_to_bytes_def u8_to_bytes_def)

lemma protocol_data_to_bytes_Ok: "\<exists>b. protocol_data_to_bytes d = Ok b"
  using uref_to_bytes_Ok [of "pd_mint d"] uref_to_bytes_Ok [of "pd_proof_of_stake d"]
    wasm_costs_to_bytes_length [of "pd_wasm_costs d"]
  by (auto simp: protocol_data_to_bytes_def)

text \<open>Only addresses that are set name system contracts.\<close>

lemma set_system_contracts:
  "set (system_contracts d) = {u \<in> {pd_mint d, pd_proof_of_stake d}. addr u \<noteq> array32_fill 0}"
  by (auto simp: system_contracts_def)

end
