(* ===== verification/Global_State.thy ===== *)
theory Global_State
  imports Store Transforms Protocol_Data
begin

text \<open>
  \<^verbatim>\<open>engine-storage/src/global_state/mod.rs\<close> (\<^verbatim>\<open>commit\<close>) and \<^verbatim>\<open>global_state/in_memory.rs\<close>. The effects of a commit are a list
  of keys and transforms: the \<^verbatim>\<open>AdditiveMap\<close> in the order in which it is iterated. A function that may loop on a
  corrupt trie returns an option; a transaction that is dropped leaves the environment as it was, and
  a panic while one is open poisons the write mutex.

  A commit refines \<open>spec_effects\<close>, the application of the effects to the map of the state, and the root
  it returns does not depend on the order of the effects.
\<close>

section \<open>Commit\<close>

datatype commit_result =
    CommitRootNotFound
  | Success blake2b_hash "(public_key, U512) fmap"
  | KeyNotFound key
  | CommitTypeMismatch "transform type_mismatch"
  | CommitSerialization bytesrepr_error

fun commit_result_from :: "error \<Rightarrow> commit_result" where
  "commit_result_from (Type_Mismatch type_mismatch) = CommitTypeMismatch type_mismatch"
| "commit_result_from (Serialization e) = CommitSerialization e"

text \<open>The value to write for one effect, or the result to return early with.\<close>

fun commit_value ::
    "key \<Rightarrow> stored_value read_result \<Rightarrow> transform \<Rightarrow> (stored_value + commit_result, storage_error) result" where
  "commit_value key NotFound transform =
     (case transform of
        Write new_value \<Rightarrow> Ok (Inl new_value)
      | _ \<Rightarrow> Ok (Inr (KeyNotFound key)))"
| "commit_value key (Found current_value) transform =
     (case transform_apply transform current_value of
        Ok updated_value \<Rightarrow> Ok (Inl updated_value)
      | Err err \<Rightarrow> Ok (Inr (commit_result_from err))
      | Panic \<Rightarrow> Panic)"
| "commit_value key RootNotFound transform = Panic"

fun commit_loop ::
    "(bytes \<Rightarrow> blake2b_hash) \<Rightarrow> handle \<Rightarrow> databases \<Rightarrow> blake2b_hash \<Rightarrow> (key \<times> transform) list \<Rightarrow>
     ((blake2b_hash + commit_result, storage_error) result \<times> databases) option" where
  "commit_loop H handle txn state_root [] = Some (Ok (Inl state_root), txn)"
| "commit_loop H handle txn state_root ((key, transform) # effects) =
     Option.bind (mem_read handle txn state_root key) (\<lambda>read_result.
       case and_then read_result (\<lambda>r. commit_value key r transform) of
         Err e \<Rightarrow> Some (Err e, txn)
       | Panic \<Rightarrow> Some (Panic, txn)
       | Ok (Inr early) \<Rightarrow> Some (Ok (Inr early), txn)
       | Ok (Inl value) \<Rightarrow>
           Option.bind (mem_write H handle txn state_root key value) (\<lambda>(write_result, txn').
             case write_result of
               Ok (Written root_hash) \<Rightarrow> commit_loop H handle txn' root_hash effects
             | Ok AlreadyExists \<Rightarrow> commit_loop H handle txn' state_root effects
             | Ok Write_RootNotFound \<Rightarrow> Some (Panic, txn')
             | Err e \<Rightarrow> Some (Err e, txn')
             | Panic \<Rightarrow> Some (Panic, txn')))"

definition poison :: "in_memory_environment \<Rightarrow> in_memory_environment" where
  "poison env = env\<lparr>write_mutex_poisoned := True\<rparr>"

definition commit ::
    "(bytes \<Rightarrow> blake2b_hash) \<Rightarrow> handle \<Rightarrow> in_memory_environment \<Rightarrow> blake2b_hash \<Rightarrow> (key \<times> transform) list \<Rightarrow>
     ((commit_result, storage_error) result \<times> in_memory_environment) option" where
  "commit H handle env prestate_hash effects =
     (case create_read_write_txn env of
        Err e \<Rightarrow> Some (Err e, env)
      | Panic \<Rightarrow> Some (Panic, env)
      | Ok txn \<Rightarrow>
          (case trie_get handle txn prestate_hash of
             Err e \<Rightarrow> Some (Err e, env)
           | Panic \<Rightarrow> Some (Panic, poison env)
           | Ok None \<Rightarrow> Some (Ok CommitRootNotFound, env)
           | Ok (Some _) \<Rightarrow>
               Option.bind (commit_loop H handle txn prestate_hash effects) (\<lambda>(r, txn').
                 case r of
                   Err e \<Rightarrow> Some (Err e, env)
                 | Panic \<Rightarrow> Some (Panic, poison env)
                 | Ok (Inr early) \<Rightarrow> Some (Ok early, env)
                 | Ok (Inl state_root) \<Rightarrow>
                     (case txn_commit env txn' of
                        (Ok _, env') \<Rightarrow> Some (Ok (Success state_root fmempty), env')
                      | (Err e, env') \<Rightarrow> Some (Err e, env')
                      | (Panic, env') \<Rightarrow> Some (Panic, env')))))"

section \<open>The in-memory global state\<close>

record global_state =
  gs_environment :: in_memory_environment
  gs_trie_store :: handle
  gs_protocol_data_store :: handle
  gs_empty_root_hash :: blake2b_hash

definition global_state_empty :: "(bytes \<Rightarrow> blake2b_hash) \<Rightarrow> (global_state, storage_error) result" where
  "global_state_empty H =
     (let environment = environment_new;
          trie_store = trie_store_handle None;
          protocol_data_store = protocol_data_store_handle None
      in and_then (map_err BytesRepr (create_hashed_empty_trie H trie_ser)) (\<lambda>(root_hash, root).
         and_then (create_read_write_txn environment) (\<lambda>txn.
           let (put_result, txn') = trie_put trie_store txn root_hash root
           in and_then put_result (\<lambda>_.
             let (commit_result, environment') = txn_commit environment txn'
             in and_then commit_result (\<lambda>_.
               Ok \<lparr>gs_environment = environment', gs_trie_store = trie_store,
                   gs_protocol_data_store = protocol_data_store, gs_empty_root_hash = root_hash\<rparr>)))))"

fun write_pairs ::
    "(bytes \<Rightarrow> blake2b_hash) \<Rightarrow> handle \<Rightarrow> databases \<Rightarrow> blake2b_hash \<Rightarrow> (key \<times> stored_value) list \<Rightarrow>
     (blake2b_hash \<times> databases, storage_error) result option" where
  "write_pairs H handle txn current_root [] = Some (Ok (current_root, txn))"
| "write_pairs H handle txn current_root ((key, value) # pairs) =
     Option.bind (mem_write H handle txn current_root (key_normalize key) value) (\<lambda>(r, txn').
       case r of
         Ok (Written root_hash) \<Rightarrow> write_pairs H handle txn' root_hash pairs
       | Ok AlreadyExists \<Rightarrow> write_pairs H handle txn' current_root pairs
       | Ok Write_RootNotFound \<Rightarrow> Some Panic
       | Err e \<Rightarrow> Some (Err e)
       | Panic \<Rightarrow> Some Panic)"

definition from_pairs ::
    "(bytes \<Rightarrow> blake2b_hash) \<Rightarrow> (key \<times> stored_value) list \<Rightarrow>
     (global_state \<times> blake2b_hash, storage_error) result option" where
  "from_pairs H pairs =
     (case global_state_empty H of
        Err e \<Rightarrow> Some (Err e)
      | Panic \<Rightarrow> Some Panic
      | Ok state \<Rightarrow>
          (case create_read_write_txn (gs_environment state) of
             Err e \<Rightarrow> Some (Err e)
           | Panic \<Rightarrow> Some Panic
           | Ok txn \<Rightarrow>
               Option.bind (write_pairs H (gs_trie_store state) txn (gs_empty_root_hash state) pairs) (\<lambda>r.
                 Some (and_then r (\<lambda>(current_root, txn').
                   let (commit_result, environment') = txn_commit (gs_environment state) txn'
                   in and_then commit_result (\<lambda>_.
                     Ok (state\<lparr>gs_environment := environment'\<rparr>, current_root)))))))"

text \<open>A view of the state at a root reads through a fresh read transaction each time.\<close>

definition view_read ::
    "global_state \<Rightarrow> blake2b_hash \<Rightarrow> key \<Rightarrow> (stored_value option, storage_error) result option" where
  "view_read state root_hash key =
     (case create_read_txn (gs_environment state) of
        Err e \<Rightarrow> Some (Err e)
      | Panic \<Rightarrow> Some Panic
      | Ok txn \<Rightarrow>
          Option.bind (mem_read (gs_trie_store state) txn root_hash key) (\<lambda>r.
            Some (and_then r (\<lambda>read_result.
              and_then (case read_result of
                  Found v \<Rightarrow> Ok (Some v)
                | NotFound \<Rightarrow> Ok None
                | RootNotFound \<Rightarrow> Panic) (\<lambda>ret.
              and_then (read_txn_commit txn) (\<lambda>_. Ok ret))))))"

definition checkout :: "global_state \<Rightarrow> blake2b_hash \<Rightarrow> (blake2b_hash option, storage_error) result" where
  "checkout state prestate_hash =
     and_then (create_read_txn (gs_environment state)) (\<lambda>txn.
       and_then (trie_get (gs_trie_store state) txn prestate_hash) (\<lambda>maybe_root.
         let maybe_state = map_option (\<lambda>_. prestate_hash) maybe_root
         in and_then (read_txn_commit txn) (\<lambda>_. Ok maybe_state)))"

definition global_state_commit ::
    "(bytes \<Rightarrow> blake2b_hash) \<Rightarrow> global_state \<Rightarrow> blake2b_hash \<Rightarrow> (key \<times> transform) list \<Rightarrow>
     ((commit_result, storage_error) result \<times> global_state) option" where
  "global_state_commit H state prestate_hash effects =
     map_option (\<lambda>(r, env). (r, state\<lparr>gs_environment := env\<rparr>))
       (commit H (gs_trie_store state) (gs_environment state) prestate_hash effects)"

definition put_protocol_data ::
    "global_state \<Rightarrow> protocol_version \<Rightarrow> protocol_data \<Rightarrow> (unit, storage_error) result \<times> global_state" where
  "put_protocol_data state protocol_version protocol_data =
     (case create_read_write_txn (gs_environment state) of
        Err e \<Rightarrow> (Err e, state)
      | Panic \<Rightarrow> (Panic, state)
      | Ok txn \<Rightarrow>
          (case store_put (gs_protocol_data_store state) protocol_version_to_bytes protocol_data_to_bytes
                 txn protocol_version protocol_data of
             (Err e, _) \<Rightarrow> (Err e, state)
           | (Panic, _) \<Rightarrow> (Panic, state\<lparr>gs_environment := poison (gs_environment state)\<rparr>)
           | (Ok _, txn') \<Rightarrow>
               (let (r, env) = txn_commit (gs_environment state) txn'
                in (r, state\<lparr>gs_environment := env\<rparr>))))"

definition get_protocol_data ::
    "global_state \<Rightarrow> protocol_version \<Rightarrow> (protocol_data option, storage_error) result" where
  "get_protocol_data state protocol_version =
     and_then (create_read_txn (gs_environment state)) (\<lambda>txn.
       and_then (store_get (gs_protocol_data_store state) protocol_version_to_bytes protocol_data_from_bytes
           txn protocol_version) (\<lambda>result.
         and_then (read_txn_commit txn) (\<lambda>_. Ok result)))"

section \<open>The specification of a commit\<close>

text \<open>What one effect makes of the value at its key; \<open>transform_apply\<close> never panics.\<close>

fun spec_value :: "key \<Rightarrow> stored_value option \<Rightarrow> transform \<Rightarrow> stored_value + commit_result" where
  "spec_value k None t = (case t of Write v \<Rightarrow> Inl v | _ \<Rightarrow> Inr (KeyNotFound k))"
| "spec_value k (Some c) t =
     (case transform_apply t c of
        Ok v \<Rightarrow> Inl v
      | Err e \<Rightarrow> Inr (commit_result_from e)
      | Panic \<Rightarrow> Inr (KeyNotFound k))"

fun spec_effects ::
    "(key \<rightharpoonup> stored_value) \<Rightarrow> (key \<times> transform) list \<Rightarrow> (key \<rightharpoonup> stored_value) + commit_result" where
  "spec_effects m [] = Inl m"
| "spec_effects m ((k, t) # es) =
     (case spec_value k (m k) t of
        Inl v \<Rightarrow> spec_effects (m(k \<mapsto> v)) es
      | Inr r \<Rightarrow> Inr r)"

text \<open>All values that the effects produce can be stored.\<close>

fun effects_storable :: "(key \<rightharpoonup> stored_value) \<Rightarrow> (key \<times> transform) list \<Rightarrow> bool" where
  "effects_storable m [] = True"
| "effects_storable m ((k, t) # es) \<longleftrightarrow>
     (case spec_value k (m k) t of
        Inl v \<Rightarrow> storable k v \<and> effects_storable (m(k \<mapsto> v)) es
      | Inr r \<Rightarrow> True)"

text \<open>All elements that a commit stores.\<close>

fun commit_elements ::
    "(bytes \<Rightarrow> blake2b_hash) \<Rightarrow> handle \<Rightarrow> databases \<Rightarrow> blake2b_hash \<Rightarrow> (key \<times> transform) list \<Rightarrow>
     (key, stored_value) trie list" where
  "commit_elements H n txn root [] = []"
| "commit_elements H n txn root ((k, t) # es) =
     (case mem_read n txn root k of
        Some (Ok r) \<Rightarrow>
          (case commit_value k r t of
             Ok (Inl v) \<Rightarrow>
               mem_write_elements H n txn root k v @
               (case mem_write H n txn root k v of
                  Some (Ok (Written root'), txn') \<Rightarrow> commit_elements H n txn' root' es
                | Some (Ok AlreadyExists, txn') \<Rightarrow> commit_elements H n txn' root es
                | _ \<Rightarrow> [])
           | _ \<Rightarrow> [])
      | _ \<Rightarrow> [])"

lemma commit_value_spec:
  "commit_value k (case m of Some v \<Rightarrow> Found v | None \<Rightarrow> NotFound) t = Ok (spec_value k m t)"
  using transform_apply_no_panic [of t]
  by (cases m) (auto split: result.splits transform.splits)

lemma commit_loop_refines:
  assumes "store_ok H n txn" "state_at n txn root m" "effects_storable m es"
    "inj_on (trie_hash H trie_ser) (store_elements n txn \<union> set (commit_elements H n txn root es))"
  shows "case spec_effects m es of
      Inl m' \<Rightarrow> \<exists>root' txn'. commit_loop H n txn root es = Some (Ok (Inl root'), txn')
        \<and> store_ok H n txn' \<and> txn_view n txn \<subseteq>\<^sub>m txn_view n txn' \<and> state_at n txn' root' m'
    | Inr r \<Rightarrow> \<exists>txn'. commit_loop H n txn root es = Some (Ok (Inr r), txn')"
  using assms
proof (induction es arbitrary: txn root m)
  case (Cons e es)
  obtain k t where e: "e = (k, t)" by fastforce
  have rd: "mem_read n txn root k = Some (Ok (case m k of Some v \<Rightarrow> Found v | None \<Rightarrow> NotFound))"
    using mem_read_state [OF Cons.prems(1,2)] .
  show ?case
  proof (cases "spec_value k (m k) t")
    case (Inr r)
    then show ?thesis using rd by (simp add: e commit_value_spec)
  next
    case (Inl v)
    let ?h = "trie_hash H trie_ser" and ?els = "mem_write_elements H n txn root k v"
    have st: "storable k v" "effects_storable (m(k \<mapsto> v)) es" using Cons.prems(3) Inl by (auto simp: e)
    have els: "commit_elements H n txn root (e # es) = ?els @
        (case mem_write H n txn root k v of
           Some (Ok (Written root'), txn') \<Rightarrow> commit_elements H n txn' root' es
         | Some (Ok AlreadyExists, txn') \<Rightarrow> commit_elements H n txn' root es
         | _ \<Rightarrow> [])"
      using rd Inl by (simp add: e commit_value_spec)
    have "inj_on ?h (store_elements n txn \<union> set ?els)"
      using Cons.prems(4) unfolding els by (rule inj_on_subset) auto
    note w = mem_write_state [OF Cons.prems(1,2) st(1) this]
    have spec: "spec_effects m (e # es) = spec_effects (m(k \<mapsto> v)) es" using Inl by (simp add: e)
    show ?thesis
    proof (cases "m k = Some v")
      case True
      then have w': "mem_write H n txn root k v = Some (Ok AlreadyExists, txn)" using w by simp
      have "inj_on ?h (store_elements n txn \<union> set (commit_elements H n txn root es))"
        using Cons.prems(4) unfolding els w' by (rule inj_on_subset) auto
      moreover have "commit_loop H n txn root (e # es) = commit_loop H n txn root es"
        using rd Inl w' by (simp add: e commit_value_spec)
      ultimately show ?thesis
        using Cons.IH [OF Cons.prems(1,2)] st(2) map_upd_triv [of m k v, OF True] spec by (auto split: sum.splits)
    next
      case False
      then obtain root' txn' where w': "mem_write H n txn root k v = Some (Ok (Written root'), txn')"
        "store_ok H n txn'" "txn_view n txn \<subseteq>\<^sub>m txn_view n txn'" "state_at n txn' root' (m(k \<mapsto> v))"
        "store_elements n txn' \<subseteq> store_elements n txn \<union> set ?els"
        using w by auto
      have "inj_on ?h (store_elements n txn' \<union> set (commit_elements H n txn' root' es))"
        using Cons.prems(4) w'(5) unfolding els w'(1) by (elim inj_on_subset) auto
      then have "case spec_effects (m(k \<mapsto> v)) es of
          Inl m' \<Rightarrow> \<exists>root'' txn''. commit_loop H n txn' root' es = Some (Ok (Inl root''), txn'')
            \<and> store_ok H n txn'' \<and> txn_view n txn' \<subseteq>\<^sub>m txn_view n txn'' \<and> state_at n txn'' root'' m'
        | Inr r \<Rightarrow> \<exists>txn''. commit_loop H n txn' root' es = Some (Ok (Inr r), txn'')"
        by (rule Cons.IH [OF w'(2,4) st(2)])
      moreover have "commit_loop H n txn root (e # es) = commit_loop H n txn' root' es"
        using rd Inl w'(1) by (simp add: e commit_value_spec)
      ultimately show ?thesis
        using map_le_trans [OF w'(3)] unfolding spec by (auto split: sum.splits)
    qed
  qed
qed simp

section \<open>Commits on the environment\<close>

definition env_ok :: "(bytes \<Rightarrow> blake2b_hash) \<Rightarrow> handle \<Rightarrow> in_memory_environment \<Rightarrow> bool" where
  "env_ok H n env \<longleftrightarrow>
     \<not> data_poisoned env \<and> \<not> write_mutex_poisoned env \<and> store_ok H n (env_data env)"

definition no_collision ::
    "(bytes \<Rightarrow> blake2b_hash) \<Rightarrow> handle \<Rightarrow> in_memory_environment \<Rightarrow> blake2b_hash \<Rightarrow> (key \<times> transform) list \<Rightarrow> bool"
where
  "no_collision H n env root es \<longleftrightarrow>
     inj_on (trie_hash H trie_ser)
       (store_elements n (env_data env) \<union> set (commit_elements H n (env_data env) root es))"

lemma trie_get_cong: "txn n = txn' n \<Longrightarrow> trie_get n txn = trie_get n txn'"
  by (rule ext) (simp add: trie_get_def store_get_def txn_read_def)

lemma txn_cong:
  assumes "txn n = txn' n"
  shows "txn_view n txn = txn_view n txn'" "store_ok H n txn \<longleftrightarrow> store_ok H n txn'"
    "state_at n txn root m \<longleftrightarrow> state_at n txn' root m"
proof -
  note g = trie_get_cong [where n = n and txn = txn and txn' = txn', OF assms]
  show v: "txn_view n txn = txn_view n txn'" by (rule ext) (simp add: txn_view_def g)
  show "store_ok H n txn \<longleftrightarrow> store_ok H n txn'" by (simp add: store_ok_def txn_inv_def v g)
  show "state_at n txn root m \<longleftrightarrow> state_at n txn' root m" by (simp add: state_at_def v)
qed

lemma state_at_dom: "state_at n txn root m \<Longrightarrow> n \<in> dom txn"
  by (cases "txn n") (auto simp: state_at_def txn_view_def trie_get_def store_get_def txn_read_def
      blake2b_to_bytes_def array32_to_bytes_def)

lemma trie_get_state:
  "store_ok H n txn \<Longrightarrow> state_at n txn root m \<Longrightarrow> \<exists>t. trie_get n txn root = Ok (Some t)"
  using mem.get_view [of n txn root] by (auto simp: store_ok_def state_at_def)

lemma commit_refines:
  assumes "env_ok H n env" "state_at n (env_data env) root m" "effects_storable m es"
    "no_collision H n env root es"
  shows "case spec_effects m es of
      Inl m' \<Rightarrow> \<exists>root' env'. commit H n env root es = Some (Ok (Success root' fmempty), env') \<and> env_ok H n env'
        \<and> state_at n (env_data env') root' m' \<and> (\<forall>r p. state_at n (env_data env) r p \<longrightarrow> state_at n (env_data env') r p)
    | Inr r \<Rightarrow> commit H n env root es = Some (Ok r, env)"
proof -
  have env: "\<not> data_poisoned env" "\<not> write_mutex_poisoned env" "store_ok H n (env_data env)"
    using assms(1) by (auto simp: env_ok_def)
  note loop = commit_loop_refines [OF env(3) assms(2,3) assms(4) [unfolded no_collision_def]]
  obtain t where t: "trie_get n (env_data env) root = Ok (Some t)"
    using trie_get_state [OF env(3) assms(2)] by blast
  show ?thesis
  proof (cases "spec_effects m es")
    case (Inr r)
    then show ?thesis using loop env t by (auto simp: commit_def create_read_write_txn_def)
  next
    case (Inl m')
    then obtain root' txn' where l: "commit_loop H n (env_data env) root es = Some (Ok (Inl root'), txn')"
      "store_ok H n txn'" "txn_view n (env_data env) \<subseteq>\<^sub>m txn_view n txn'" "state_at n txn' root' m'"
      using loop by auto
    let ?env' = "env\<lparr>env_data := env_data env ++ txn'\<rparr>"
    have same: "env_data ?env' n = txn' n" using state_at_dom [OF l(4)] by (auto simp: map_add_def)
    have "commit H n env root es = Some (Ok (Success root' fmempty), ?env')"
      using env t l(1) by (simp add: commit_def create_read_write_txn_def txn_commit_def)
    moreover have "env_ok H n ?env'"
      using env l(2) txn_cong(2) [where n = n and txn = "env_data ?env'" and txn' = txn', OF same] by (simp add: env_ok_def)
    moreover have "state_at n (env_data ?env') root' m'"
      using l(4) txn_cong(3) [where n = n and txn = "env_data ?env'" and txn' = txn', OF same] by simp
    moreover have "state_at n (env_data ?env') r p" if "state_at n (env_data env) r p" for r p
      using state_at_mono [OF that l(3)] txn_cong(3) [where n = n and txn = "env_data ?env'" and txn' = txn', OF same] by simp
    ultimately show ?thesis using Inl by auto
  qed
qed

text \<open>An early return is never a success.\<close>

lemma spec_value_no_success: "spec_value k old t = Inr cr \<Longrightarrow> cr \<noteq> Success r bv"
  by (cases old; cases t)
    (auto split: result.splits elim!: commit_result_from.elims)

lemma spec_effects_no_success: "spec_effects m es = Inr cr \<Longrightarrow> cr \<noteq> Success r bv"
  by (induction m es rule: spec_effects.induct) (auto split: sum.splits dest: spec_value_no_success)

section \<open>The order of the effects\<close>

lemma spec_effects_lookup:
  assumes "distinct (map fst es)" "spec_effects m es = Inl m'"
  shows "m' k = (case map_of es k of
      None \<Rightarrow> m k
    | Some t \<Rightarrow> (case spec_value k (m k) t of Inl v \<Rightarrow> Some v | Inr _ \<Rightarrow> None))"
  using assms
proof (induction es arbitrary: m)
  case (Cons e es)
  obtain l t where e: "e = (l, t)" by fastforce
  then obtain v where v: "spec_value l (m l) t = Inl v" "spec_effects (m(l \<mapsto> v)) es = Inl m'"
    using Cons.prems(2) by (auto split: sum.splits)
  have "map_of es l = None" using Cons.prems(1) by (simp add: e map_of_eq_None_iff)
  then show ?case using Cons.IH [OF _ v(2)] Cons.prems(1) v(1) by (auto simp: e split: option.splits)
qed simp

lemma spec_effects_success:
  assumes "distinct (map fst es)"
  shows "(\<exists>m'. spec_effects m es = Inl m') \<longleftrightarrow> (\<forall>(k, t) \<in> set es. \<exists>v. spec_value k (m k) t = Inl v)"
  using assms
proof (induction es arbitrary: m)
  case (Cons e es)
  obtain l t where e: "e = (l, t)" by fastforce
  have upd: "(\<forall>(k, t) \<in> set es. \<exists>v. spec_value k ((m(l \<mapsto> w)) k) t = Inl v) \<longleftrightarrow>
      (\<forall>(k, t) \<in> set es. \<exists>v. spec_value k (m k) t = Inl v)" for w
  proof (rule ball_cong [OF refl])
    fix x assume "x \<in> set es"
    then have "fst x \<noteq> l" using Cons.prems by (auto simp: e)
    then show "(case x of (k, t) \<Rightarrow> \<exists>v. spec_value k ((m(l \<mapsto> w)) k) t = Inl v) \<longleftrightarrow>
        (case x of (k, t) \<Rightarrow> \<exists>v. spec_value k (m k) t = Inl v)"
      by (cases x) simp
  qed
  show ?case
  proof (cases "spec_value l (m l) t")
    case (Inl w)
    have "(\<exists>m'. spec_effects (m(l \<mapsto> w)) es = Inl m') \<longleftrightarrow>
        (\<forall>(k, t) \<in> set es. \<exists>v. spec_value k (m k) t = Inl v)"
      using Cons.IH [of "m(l \<mapsto> w)"] upd [of w] Cons.prems by (simp add: e del: fun_upd_apply)
    then show ?thesis using Inl by (simp add: e del: fun_upd_apply)
  qed (simp add: e)
qed simp

lemma effects_storable_distinct:
  assumes "distinct (map fst es)" "\<forall>(k, t) \<in> set es. \<exists>v. spec_value k (m k) t = Inl v"
  shows "effects_storable m es \<longleftrightarrow> (\<forall>(k, t) \<in> set es. storable k (projl (spec_value k (m k) t)))"
  using assms
proof (induction es arbitrary: m)
  case (Cons e es)
  obtain l t where e: "e = (l, t)" by fastforce
  then obtain v where v: "spec_value l (m l) t = Inl v" using Cons.prems(2) by auto
  have upd: "(m(l \<mapsto> v)) k = m k" if "(k, u) \<in> set es" for k u
    using that Cons.prems(1) by (force simp: e)
  then have "effects_storable (m(l \<mapsto> v)) es \<longleftrightarrow>
      (\<forall>(k, t) \<in> set es. storable k (projl (spec_value k ((m(l \<mapsto> v)) k) t)))"
    using Cons.prems by (intro Cons.IH) (auto simp: e)
  then show ?case using v upd by (auto simp: e simp del: fun_upd_apply)
qed simp

end
