(* ===== verification/System_Errors.thy ===== *)
theory System_Errors
  imports Stored_Values
begin

text \<open>
  \<^verbatim>\<open>types/src/system_contract_errors\<close>, \<^verbatim>\<open>types/src/api_error.rs\<close> and \<^verbatim>\<open>types/src/transfer_result.rs\<close>: the
  errors of the system contracts and the codes with which the host and the contracts exchange them.
  A status code of a host function is read back as the result that was sent; two errors of the mint
  contract are not read back from their serialized form.
\<close>

section \<open>Errors of the system contracts\<close>

datatype mint_error =
    Mint_InsufficientFunds | Mint_SourceNotFound | Mint_DestNotFound | Mint_InvalidURef
  | Mint_InvalidAccessRights | Mint_InvalidNonEmptyPurseCreation | Mint_StorageError
  | Mint_PurseNotFound | Mint_MissingArgument | Mint_InvalidArgument

fun mint_error_as_u8 :: "mint_error \<Rightarrow> u8" where
  "mint_error_as_u8 Mint_InsufficientFunds = 0"
| "mint_error_as_u8 Mint_SourceNotFound = 1"
| "mint_error_as_u8 Mint_DestNotFound = 2"
| "mint_error_as_u8 Mint_InvalidURef = 3"
| "mint_error_as_u8 Mint_InvalidAccessRights = 4"
| "mint_error_as_u8 Mint_InvalidNonEmptyPurseCreation = 5"
| "mint_error_as_u8 Mint_StorageError = 6"
| "mint_error_as_u8 Mint_PurseNotFound = 7"
| "mint_error_as_u8 Mint_MissingArgument = 102"
| "mint_error_as_u8 Mint_InvalidArgument = 103"

datatype pos_error =
    Pos_NotBonded | Pos_TooManyEventsInQueue | Pos_CannotUnbondLastValidator | Pos_SpreadTooHigh
  | Pos_MultipleRequests | Pos_BondTooSmall | Pos_BondTooLarge | Pos_UnbondTooLarge
  | Pos_BondTransferFailed | Pos_UnbondTransferFailed | Pos_MissingArgument
  | Pos_InvalidArgument | Pos_TimeWentBackwards | Pos_StakesNotFound | Pos_PaymentPurseNotFound
  | Pos_PaymentPurseKeyUnexpectedType | Pos_PaymentPurseBalanceNotFound
  | Pos_BondingPurseNotFound | Pos_BondingPurseKeyUnexpectedType
  | Pos_RefundPurseKeyUnexpectedType | Pos_RewardsPurseNotFound
  | Pos_RewardsPurseKeyUnexpectedType | Pos_QueueNotStoredAsByteArray
  | Pos_QueueDeserializationFailed | Pos_QueueDeserializationExtraBytes
  | Pos_StakesKeyDeserializationFailed | Pos_StakesDeserializationFailed
  | Pos_SystemFunctionCalledByUserAccount | Pos_InsufficientPaymentForAmountSpent
  | Pos_FailedTransferToRewardsPurse | Pos_FailedTransferToAccountPurse
  | Pos_SetRefundPurseCalledOutsidePayment

fun pos_error_as_u8 :: "pos_error \<Rightarrow> u8" where
  "pos_error_as_u8 Pos_NotBonded = 0"
| "pos_error_as_u8 Pos_TooManyEventsInQueue = 1"
| "pos_error_as_u8 Pos_CannotUnbondLastValidator = 2"
| "pos_error_as_u8 Pos_SpreadTooHigh = 3"
| "pos_error_as_u8 Pos_MultipleRequests = 4"
| "pos_error_as_u8 Pos_BondTooSmall = 5"
| "pos_error_as_u8 Pos_BondTooLarge = 6"
| "pos_error_as_u8 Pos_UnbondTooLarge = 7"
| "pos_error_as_u8 Pos_BondTransferFailed = 8"
| "pos_error_as_u8 Pos_UnbondTransferFailed = 9"
| "pos_error_as_u8 Pos_MissingArgument = 10"
| "pos_error_as_u8 Pos_InvalidArgument = 11"
| "pos_error_as_u8 Pos_TimeWentBackwards = 12"
| "pos_error_as_u8 Pos_StakesNotFound = 13"
| "pos_error_as_u8 Pos_PaymentPurseNotFound = 14"
| "pos_error_as_u8 Pos_PaymentPurseKeyUnexpectedType = 15"
| "pos_error_as_u8 Pos_PaymentPurseBalanceNotFound = 16"
| "pos_error_as_u8 Pos_BondingPurseNotFound = 17"
| "pos_error_as_u8 Pos_BondingPurseKeyUnexpectedType = 18"
| "pos_error_as_u8 Pos_RefundPurseKeyUnexpectedType = 19"
| "pos_error_as_u8 Pos_RewardsPurseNotFound = 20"
| "pos_error_as_u8 Pos_RewardsPurseKeyUnexpectedType = 21"
| "pos_error_as_u8 Pos_QueueNotStoredAsByteArray = 22"
| "pos_error_as_u8 Pos_QueueDeserializationFailed = 23"
| "pos_error_as_u8 Pos_QueueDeserializationExtraBytes = 24"
| "pos_error_as_u8 Pos_StakesKeyDeserializationFailed = 25"
| "pos_error_as_u8 Pos_StakesDeserializationFailed = 26"
| "pos_error_as_u8 Pos_SystemFunctionCalledByUserAccount = 27"
| "pos_error_as_u8 Pos_InsufficientPaymentForAmountSpent = 28"
| "pos_error_as_u8 Pos_FailedTransferToRewardsPurse = 29"
| "pos_error_as_u8 Pos_FailedTransferToAccountPurse = 30"
| "pos_error_as_u8 Pos_SetRefundPurseCalledOutsidePayment = 31"

datatype system_contract_error = MintError mint_error | PosError pos_error

datatype purse_id_error = InvalidURef | InvalidAccessRights "access_rights option"

fun mint_error_from_purse_id_error :: "purse_id_error \<Rightarrow> mint_error" where
  "mint_error_from_purse_id_error InvalidURef = Mint_InvalidURef"
| "mint_error_from_purse_id_error (InvalidAccessRights _) = Mint_InvalidAccessRights"

definition mint_error_try_from :: "u8 \<Rightarrow> (mint_error, unit) result" where
  "mint_error_try_from d =
     (if d = mint_error_as_u8 Mint_InsufficientFunds then Ok Mint_InsufficientFunds
      else if d = mint_error_as_u8 Mint_SourceNotFound then Ok Mint_SourceNotFound
      else if d = mint_error_as_u8 Mint_DestNotFound then Ok Mint_DestNotFound
      else if d = mint_error_as_u8 Mint_InvalidURef then Ok Mint_InvalidURef
      else if d = mint_error_as_u8 Mint_InvalidAccessRights then Ok Mint_InvalidAccessRights
      else if d = mint_error_as_u8 Mint_MissingArgument then Ok Mint_MissingArgument
      else if d = mint_error_as_u8 Mint_InvalidArgument then Ok Mint_InvalidArgument
      else if d = mint_error_as_u8 Mint_InvalidNonEmptyPurseCreation
      then Ok Mint_InvalidNonEmptyPurseCreation
      else Err ())"

definition mint_error_to_bytes :: "mint_error ser" where
  "mint_error_to_bytes e = u8_to_bytes (mint_error_as_u8 e)"

definition mint_error_from_bytes :: "mint_error de" where
  "mint_error_from_bytes bs =
     and_then (u8_from_bytes bs) (\<lambda>(value, rem).
       and_then (map_err (\<lambda>_. FormattingError) (mint_error_try_from value)) (\<lambda>error. Ok (error, rem)))"

datatype purse_lookup_error = Lookup_KeyNotFound | Lookup_KeyUnexpectedType

fun lookup_bonding :: "purse_lookup_error \<Rightarrow> pos_error" where
  "lookup_bonding Lookup_KeyNotFound = Pos_BondingPurseNotFound"
| "lookup_bonding Lookup_KeyUnexpectedType = Pos_BondingPurseKeyUnexpectedType"

fun lookup_payment :: "purse_lookup_error \<Rightarrow> pos_error" where
  "lookup_payment Lookup_KeyNotFound = Pos_PaymentPurseNotFound"
| "lookup_payment Lookup_KeyUnexpectedType = Pos_PaymentPurseKeyUnexpectedType"

fun lookup_rewards :: "purse_lookup_error \<Rightarrow> pos_error" where
  "lookup_rewards Lookup_KeyNotFound = Pos_RewardsPurseNotFound"
| "lookup_rewards Lookup_KeyUnexpectedType = Pos_RewardsPurseKeyUnexpectedType"

section \<open>Errors of the contract interface\<close>

type_synonym u16 = "16 word"

definition RESERVED_ERROR_MAX :: u32 where "RESERVED_ERROR_MAX = 65535"
definition POS_ERROR_OFFSET :: u32 where "POS_ERROR_OFFSET = RESERVED_ERROR_MAX - 255"
definition MINT_ERROR_OFFSET :: u32 where "MINT_ERROR_OFFSET = (POS_ERROR_OFFSET - 1) - 255"

datatype api_error =
    Api_None | Api_MissingArgument | Api_InvalidArgument | Api_Deserialize | Api_Read
  | Api_ValueNotFound | Api_ContractNotFound | Api_GetKey | Api_UnexpectedKeyVariant
  | Api_UnexpectedValueVariant | Api_UnexpectedContractRefVariant | Api_InvalidPurseName
  | Api_InvalidPurse | Api_UpgradeContractAtURef | Api_Transfer | Api_NoAccessRights
  | Api_ValueConversion | Api_CLTypeMismatch | Api_EarlyEndOfStream | Api_FormattingError
  | Api_LeftOverBytes | Api_OutOfMemoryError | Api_MaxKeysLimit | Api_DuplicateKey
  | Api_PermissionDenied | Api_MissingKey | Api_ThresholdViolation
  | Api_KeyManagementThresholdError | Api_DeploymentThresholdError | Api_PermissionDeniedError
  | Api_InsufficientTotalWeight | Api_InvalidSystemContract | Api_PurseNotCreated
  | Api_Unhandled | Api_BufferTooSmall | Api_HostBufferEmpty | Api_HostBufferFull | Api_Mint u8
  | Api_ProofOfStake u8 | Api_User u16

fun api_from_bytesrepr :: "bytesrepr_error \<Rightarrow> api_error" where
  "api_from_bytesrepr EarlyEndOfStream = Api_EarlyEndOfStream"
| "api_from_bytesrepr FormattingError = Api_FormattingError"
| "api_from_bytesrepr LeftOverBytes = Api_LeftOverBytes"
| "api_from_bytesrepr OutOfMemoryError = Api_OutOfMemoryError"

fun api_from_add_key :: "add_key_failure \<Rightarrow> api_error" where
  "api_from_add_key MaxKeysLimit = Api_MaxKeysLimit"
| "api_from_add_key DuplicateKey = Api_DuplicateKey"
| "api_from_add_key Add_PermissionDenied = Api_PermissionDenied"

fun api_from_update_key :: "update_key_failure \<Rightarrow> api_error" where
  "api_from_update_key Update_MissingKey = Api_MissingKey"
| "api_from_update_key Update_PermissionDenied = Api_PermissionDenied"
| "api_from_update_key Update_ThresholdViolation = Api_ThresholdViolation"

fun api_from_remove_key :: "remove_key_failure \<Rightarrow> api_error" where
  "api_from_remove_key Remove_MissingKey = Api_MissingKey"
| "api_from_remove_key Remove_PermissionDenied = Api_PermissionDenied"
| "api_from_remove_key Remove_ThresholdViolation = Api_ThresholdViolation"

fun api_from_set_threshold :: "set_threshold_failure \<Rightarrow> api_error" where
  "api_from_set_threshold KeyManagementThresholdError = Api_KeyManagementThresholdError"
| "api_from_set_threshold DeploymentThresholdError = Api_DeploymentThresholdError"
| "api_from_set_threshold PermissionDeniedError = Api_PermissionDeniedError"
| "api_from_set_threshold InsufficientTotalWeight = Api_InsufficientTotalWeight"

fun api_from_cl_value :: "cl_value_error \<Rightarrow> api_error" where
  "api_from_cl_value (CL_Serialization e) = api_from_bytesrepr e"
| "api_from_cl_value (CL_TypeMismatch _ _) = Api_CLTypeMismatch"

definition api_from_mint :: "mint_error \<Rightarrow> api_error" where
  "api_from_mint e = Api_Mint (mint_error_as_u8 e)"

definition api_from_pos :: "pos_error \<Rightarrow> api_error" where
  "api_from_pos e = Api_ProofOfStake (pos_error_as_u8 e)"

fun u32_from_api :: "api_error \<Rightarrow> u32" where
  "u32_from_api Api_None = 1"
| "u32_from_api Api_MissingArgument = 2"
| "u32_from_api Api_InvalidArgument = 3"
| "u32_from_api Api_Deserialize = 4"
| "u32_from_api Api_Read = 5"
| "u32_from_api Api_ValueNotFound = 6"
| "u32_from_api Api_ContractNotFound = 7"
| "u32_from_api Api_GetKey = 8"
| "u32_from_api Api_UnexpectedKeyVariant = 9"
| "u32_from_api Api_UnexpectedValueVariant = 10"
| "u32_from_api Api_UnexpectedContractRefVariant = 11"
| "u32_from_api Api_InvalidPurseName = 12"
| "u32_from_api Api_InvalidPurse = 13"
| "u32_from_api Api_UpgradeContractAtURef = 14"
| "u32_from_api Api_Transfer = 15"
| "u32_from_api Api_NoAccessRights = 16"
| "u32_from_api Api_ValueConversion = 17"
| "u32_from_api Api_CLTypeMismatch = 18"
| "u32_from_api Api_EarlyEndOfStream = 19"
| "u32_from_api Api_FormattingError = 20"
| "u32_from_api Api_LeftOverBytes = 21"
| "u32_from_api Api_OutOfMemoryError = 22"
| "u32_from_api Api_MaxKeysLimit = 23"
| "u32_from_api Api_DuplicateKey = 24"
| "u32_from_api Api_PermissionDenied = 25"
| "u32_from_api Api_MissingKey = 26"
| "u32_from_api Api_ThresholdViolation = 27"
| "u32_from_api Api_KeyManagementThresholdError = 28"
| "u32_from_api Api_DeploymentThresholdError = 29"
| "u32_from_api Api_PermissionDeniedError = 30"
| "u32_from_api Api_InsufficientTotalWeight = 31"
| "u32_from_api Api_InvalidSystemContract = 32"
| "u32_from_api Api_PurseNotCreated = 33"
| "u32_from_api Api_Unhandled = 34"
| "u32_from_api Api_BufferTooSmall = 35"
| "u32_from_api Api_HostBufferEmpty = 36"
| "u32_from_api Api_HostBufferFull = 37"
| "u32_from_api (Api_Mint value) = MINT_ERROR_OFFSET + ucast value"
| "u32_from_api (Api_ProofOfStake value) = POS_ERROR_OFFSET + ucast value"
| "u32_from_api (Api_User value) = RESERVED_ERROR_MAX + 1 + ucast value"

text \<open>A \<^verbatim>\<open>Result<(), ApiError>\<close> is a sum with the error on the left.\<close>

fun i32_from :: "api_error + unit \<Rightarrow> i32" where
  "i32_from (Inr _) = 0"
| "i32_from (Inl e) = u32_from_api e"

text \<open>The arms of the \<^verbatim>\<open>match\<close> are tried in order; the comparisons of its last arm are signed.\<close>

definition result_from :: "i32 \<Rightarrow> api_error + unit" where
  "result_from value =
     (if value = 0 then Inr ()
      else if value = 1 then Inl Api_None
      else if value = 2 then Inl Api_MissingArgument
      else if value = 3 then Inl Api_InvalidArgument
      else if value = 4 then Inl Api_Deserialize
      else if value = 5 then Inl Api_Read
      else if value = 6 then Inl Api_ValueNotFound
      else if value = 7 then Inl Api_ContractNotFound
      else if value = 8 then Inl Api_GetKey
      else if value = 9 then Inl Api_UnexpectedKeyVariant
      else if value = 10 then Inl Api_UnexpectedValueVariant
      else if value = 11 then Inl Api_UnexpectedContractRefVariant
      else if value = 12 then Inl Api_InvalidPurseName
      else if value = 13 then Inl Api_InvalidPurse
      else if value = 14 then Inl Api_UpgradeContractAtURef
      else if value = 15 then Inl Api_Transfer
      else if value = 16 then Inl Api_NoAccessRights
      else if value = 17 then Inl Api_ValueConversion
      else if value = 18 then Inl Api_CLTypeMismatch
      else if value = 19 then Inl Api_EarlyEndOfStream
      else if value = 20 then Inl Api_FormattingError
      else if value = 21 then Inl Api_LeftOverBytes
      else if value = 22 then Inl Api_OutOfMemoryError
      else if value = 23 then Inl Api_MaxKeysLimit
      else if value = 24 then Inl Api_DuplicateKey
      else if value = 25 then Inl Api_PermissionDenied
      else if value = 26 then Inl Api_MissingKey
      else if value = 27 then Inl Api_ThresholdViolation
      else if value = 28 then Inl Api_KeyManagementThresholdError
      else if value = 29 then Inl Api_DeploymentThresholdError
      else if value = 30 then Inl Api_PermissionDeniedError
      else if value = 31 then Inl Api_InsufficientTotalWeight
      else if value = 32 then Inl Api_InvalidSystemContract
      else if value = 33 then Inl Api_PurseNotCreated
      else if value = 34 then Inl Api_Unhandled
      else if value = 35 then Inl Api_BufferTooSmall
      else if value = 36 then Inl Api_HostBufferEmpty
      else if value = 37 then Inl Api_HostBufferFull
      else if sint value > sint RESERVED_ERROR_MAX \<and> sint value \<le> sint (2 * RESERVED_ERROR_MAX + 1)
      then Inl (Api_User (ucast value))
      else if sint value \<ge> sint POS_ERROR_OFFSET \<and> sint value \<le> sint RESERVED_ERROR_MAX
      then Inl (Api_ProofOfStake (ucast value))
      else if sint value \<ge> sint MINT_ERROR_OFFSET \<and> sint value < sint POS_ERROR_OFFSET
      then Inl (Api_Mint (ucast value))
      else Inl Api_Unhandled)"

datatype transferred_to = ExistingAccount | NewAccount

type_synonym transfer_result = "api_error + transferred_to"

fun transferred_to_as_i32 :: "transferred_to \<Rightarrow> i32" where
  "transferred_to_as_i32 ExistingAccount = 0"
| "transferred_to_as_i32 NewAccount = 1"

definition transfer_result_from :: "i32 \<Rightarrow> transfer_result" where
  "transfer_result_from x =
     (if x = transferred_to_as_i32 ExistingAccount then Inr ExistingAccount
      else if x = transferred_to_as_i32 NewAccount then Inr NewAccount
      else Inl Api_Transfer)"

fun transfer_i32_from :: "transfer_result \<Rightarrow> i32" where
  "transfer_i32_from (Inr transferred_to) = transferred_to_as_i32 transferred_to"
| "transfer_i32_from (Inl _) = 2"

section \<open>Codes\<close>

lemma offset_values [simp]:
  "RESERVED_ERROR_MAX = 65535" "POS_ERROR_OFFSET = 65280" "MINT_ERROR_OFFSET = 65024"
  by (simp_all add: RESERVED_ERROR_MAX_def POS_ERROR_OFFSET_def MINT_ERROR_OFFSET_def)

lemma sint_small: "uint w < 2 ^ 31 \<Longrightarrow> sint w = uint w" for w :: i32
  by (simp add: sint_uint signed_take_bit_int_eq_self_iff) (rule order_trans [OF _ uint_ge_0], simp)

lemma uint_offset:
  fixes v :: "'n::len word" and w :: u32
  assumes "LENGTH('n) \<le> 16" "uint w < 2 ^ 17"
  shows "uint (w + ucast v) = uint w + uint v"
proof -
  have "uint v < 2 ^ 16"
    using uint_lt2p [of v] assms(1) power_increasing [of "LENGTH('n)" 16 "2::int"] by linarith
  then have v: "uint (ucast v :: u32) = uint v" "uint w + uint v < 2 ^ 32"
    using assms(2) by (simp_all add: unsigned_ucast_eq take_bit_int_eq_self)
  then show ?thesis by (simp add: uint_word_ariths)
qed

lemma result_from_large:
  assumes "37 < uint value" "uint value < 2 ^ 31"
  shows "result_from value =
     (if 65535 < uint value \<and> uint value \<le> 131071 then Inl (Api_User (ucast value))
      else if 65280 \<le> uint value \<and> uint value \<le> 65535 then Inl (Api_ProofOfStake (ucast value))
      else if 65024 \<le> uint value \<and> uint value < 65280 then Inl (Api_Mint (ucast value))
      else Inl Api_Unhandled)"
proof -
  have ne: "value \<noteq> n" if "uint n \<le> 37" for n
    using that assms(1) by auto
  show ?thesis
    using assms(2) by (simp add: result_from_def sint_small ne)
qed

lemma ucast_offset:
  fixes v :: "'n::len word" and w :: u32
  assumes "uint (w + ucast v) = uint w + uint v" "take_bit LENGTH('n) (uint w) = 0"
  shows "(ucast (w + ucast v) :: 'n word) = v"
proof -
  have "uint (ucast (w + ucast v) :: 'n word) = take_bit LENGTH('n) (uint w + uint v)"
    using assms(1) by (simp add: unsigned_ucast_eq)
  also have "\<dots> = take_bit LENGTH('n) (take_bit LENGTH('n) (uint w) + take_bit LENGTH('n) (uint v))"
    by (simp add: take_bit_add)
  also have "\<dots> = uint v" using assms(2) by (simp add: take_bit_int_eq_self)
  finally show ?thesis by (rule word_uint_eqI)
qed

lemma result_from_code: "result_from (u32_from_api e) = Inl e"
proof (cases e)
  case (Api_Mint v)
  have u: "uint (65024 + ucast v :: u32) = uint (65024 :: u32) + uint v" by (rule uint_offset) simp_all
  obtain i where "uint v = i" "0 \<le> i" "i < 256" using uint_lt2p [of v] by simp
  then show ?thesis using Api_Mint u ucast_offset [OF u] by (simp add: result_from_large)
next
  case (Api_ProofOfStake v)
  have u: "uint (65280 + ucast v :: u32) = uint (65280 :: u32) + uint v" by (rule uint_offset) simp_all
  obtain i where "uint v = i" "0 \<le> i" "i < 256" using uint_lt2p [of v] by simp
  then show ?thesis using Api_ProofOfStake u ucast_offset [OF u] by (simp add: result_from_large)
next
  case (Api_User v)
  have u: "uint (65536 + ucast v :: u32) = uint (65536 :: u32) + uint v" by (rule uint_offset) simp_all
  obtain i where "uint v = i" "0 \<le> i" "i < 65536" using uint_lt2p [of v] by simp
  then show ?thesis using Api_User u ucast_offset [OF u] by (simp add: result_from_large)
qed (simp_all add: result_from_def)

section \<open>Properties\<close>

text \<open>C28. A host function's result is read back from its status code by the contract, for every error
  of the interface, of the system contracts and of the user.\<close>

theorem api_error_round_trip: "result_from (i32_from r) = r"
proof (cases r)
  case (Inl e)
  then show ?thesis by (simp add: result_from_code)
next
  case (Inr u)
  then show ?thesis by (simp add: result_from_def)
qed

text \<open>C29. The errors of the mint contract that are read back from their serialized form are all but
  two: a storage error and a missing purse are rejected as malformed.\<close>

theorem mint_error_not_read_back:
  "(\<exists>bs. mint_error_to_bytes e = Ok bs \<and> deserialize mint_error_from_bytes bs =
      (if e = Mint_StorageError \<or> e = Mint_PurseNotFound then Err FormattingError else Ok e))"
  by (cases e)
    (simp_all add: mint_error_to_bytes_def u8_to_bytes_def deserialize_def mint_error_from_bytes_def
      mint_error_try_from_def)

end
