(* ===== verification/Exec.thy ===== *)
theory Exec
  imports Prelude
begin

text \<open>
  Code that threads a state: a computation takes the state and gives a result with the new state, or
  does not return (\<open>None\<close>). An error or a panic keeps the changes made so far, as an early return of
  the source does.

  \<open>hoare\<close> is total correctness: the computation returns and does not panic. The locale
  \<open>state_order\<close> carries a reflexive and transitive relation of states through computations.
\<close>

named_theorems exec_simps \<open>unfolding rules for computations that return a value\<close>

section \<open>Computations\<close>

type_synonym ('s, 'a, 'e) exec = "'s \<Rightarrow> (('a, 'e) result \<times> 's) option"

definition of_result :: "('a, 'e) result \<Rightarrow> ('s, 'a, 'e) exec" where
  "of_result r = (\<lambda>s. Some (r, s))"

definition return :: "'a \<Rightarrow> ('s, 'a, 'e) exec" where
  "return x = (\<lambda>s. Some (Ok x, s))"

definition throw :: "'e \<Rightarrow> ('s, 'a, 'e) exec" where
  "throw e = (\<lambda>s. Some (Err e, s))"

definition panic :: "('s, 'a, 'e) exec" where
  "panic = (\<lambda>s. Some (Panic, s))"

definition gets :: "('s \<Rightarrow> 'a) \<Rightarrow> ('s, 'a, 'e) exec" where
  "gets f = (\<lambda>s. Some (Ok (f s), s))"

definition modify :: "('s \<Rightarrow> 's) \<Rightarrow> ('s, unit, 'e) exec" where
  "modify f = (\<lambda>s. Some (Ok (), f s))"

definition seq :: "('s, 'a, 'e) exec \<Rightarrow> ('a \<Rightarrow> ('s, 'b, 'e) exec) \<Rightarrow> ('s, 'b, 'e) exec" where
  "seq m f = (\<lambda>s.
     case m s of
       None \<Rightarrow> None
     | Some (Ok x, s') \<Rightarrow> f x s'
     | Some (Err e, s') \<Rightarrow> Some (Err e, s')
     | Some (Panic, s') \<Rightarrow> Some (Panic, s'))"

text \<open>A computation on a part of the state, with its errors converted.\<close>

definition zoom ::
    "('s \<Rightarrow> 't) \<Rightarrow> ('t \<Rightarrow> 's \<Rightarrow> 's) \<Rightarrow> ('e \<Rightarrow> 'f) \<Rightarrow> ('t, 'a, 'e) exec \<Rightarrow> ('s, 'a, 'f) exec" where
  "zoom part put into m = (\<lambda>s.
     case m (part s) of
       None \<Rightarrow> None
     | Some (r, t) \<Rightarrow> Some (map_err into r, put t s))"

text \<open>A computation whose error is a value for what follows.\<close>

definition attempt :: "('s, 'a, 'e) exec \<Rightarrow> ('s, 'e + 'a, 'f) exec" where
  "attempt m = (\<lambda>s.
     case m s of
       None \<Rightarrow> None
     | Some (Ok x, s') \<Rightarrow> Some (Ok (Inr x), s')
     | Some (Err e, s') \<Rightarrow> Some (Ok (Inl e), s')
     | Some (Panic, s') \<Rightarrow> Some (Panic, s'))"

fun for_each :: "('x \<Rightarrow> ('s, unit, 'e) exec) \<Rightarrow> 'x list \<Rightarrow> ('s, unit, 'e) exec" where
  "for_each f [] = return ()"
| "for_each f (x # xs) = seq (f x) (\<lambda>_. for_each f xs)"

section \<open>Evaluation\<close>

lemma exec_basic [simp]:
  "of_result r s = Some (r, s)"
  "return x s = Some (Ok x, s)"
  "throw e s = Some (Err e, s)"
  "panic s = Some (Panic, s)"
  "gets f s = Some (Ok (f s), s)"
  "modify g s = Some (Ok (), g s)"
  by (simp_all add: of_result_def return_def throw_def panic_def gets_def modify_def)

lemma seq_step:
  "m s = Some (Ok x, s') \<Longrightarrow> seq m f s = f x s'"
  "m s = Some (Err e, s') \<Longrightarrow> seq m f s = Some (Err e, s')"
  "m s = Some (Panic, s') \<Longrightarrow> seq m f s = Some (Panic, s')"
  by (simp_all add: seq_def)

lemma seq_return [simp]: "seq (return x) f s = f x s"
  by (simp add: seq_def)

lemma seq_throw [simp]: "seq (throw e) f s = Some (Err e, s)"
  by (simp add: seq_def)

lemma seq_gets [simp]: "seq (gets g) f s = f (g s) s"
  by (simp add: seq_def)

lemma seq_modify [simp]: "seq (modify h) f s = f () (h s)"
  by (simp add: seq_def)

lemma seq_of_result [simp]:
  "seq (of_result (Ok x)) f s = f x s"
  "seq (of_result (Err e)) f s = Some (Err e, s)"
  "seq (of_result Panic) f s = Some (Panic, s)"
  by (simp_all add: seq_def)

lemma seq_assoc: "seq (seq m f) g = seq m (\<lambda>x. seq (f x) g)"
  by (rule ext) (auto simp: seq_def split: option.splits result.splits)

lemma seq_Ok_iff [exec_simps]:
  "seq m f s = Some (Ok y, t) \<longleftrightarrow> (\<exists>x s'. m s = Some (Ok x, s') \<and> f x s' = Some (Ok y, t))"
  by (auto simp: seq_def split: option.splits result.splits)

lemma seq_Err_iff [exec_simps]:
  "seq m f s = Some (Err e, t) \<longleftrightarrow>
     m s = Some (Err e, t) \<or> (\<exists>x s'. m s = Some (Ok x, s') \<and> f x s' = Some (Err e, t))"
  by (auto simp: seq_def split: option.splits result.splits)

lemma seq_None_iff [exec_simps]:
  "seq m f s = None \<longleftrightarrow> m s = None \<or> (\<exists>x s'. m s = Some (Ok x, s') \<and> f x s' = None)"
  by (auto simp: seq_def split: option.splits result.splits)

lemma seq_Panic_iff [exec_simps]:
  "seq m f s = Some (Panic, t) \<longleftrightarrow>
     m s = Some (Panic, t) \<or> (\<exists>x s'. m s = Some (Ok x, s') \<and> f x s' = Some (Panic, t))"
  by (auto simp: seq_def split: option.splits result.splits)

lemma zoom_eq:
  "m (part s) = Some (r, t) \<Longrightarrow> zoom part put into m s = Some (map_err into r, put t s)"
  by (simp add: zoom_def)

lemma zoom_Ok_iff [exec_simps]:
  "zoom part put into m s = Some (Ok x, s') \<longleftrightarrow> (\<exists>t. m (part s) = Some (Ok x, t) \<and> s' = put t s)"
  by (auto simp: zoom_def result_simps split: option.splits)

lemma attempt_Ok_iff [exec_simps]:
  "attempt m s = Some (Ok y, s') \<longleftrightarrow>
     (case y of Inl e \<Rightarrow> m s = Some (Err e, s') | Inr x \<Rightarrow> m s = Some (Ok x, s'))"
  by (auto simp: attempt_def split: option.splits result.splits sum.splits)

section \<open>Total correctness\<close>

definition hoare ::
    "('s \<Rightarrow> bool) \<Rightarrow> ('s, 'a, 'e) exec \<Rightarrow> ('a \<Rightarrow> 's \<Rightarrow> bool) \<Rightarrow> ('e \<Rightarrow> 's \<Rightarrow> bool) \<Rightarrow> bool" where
  "hoare P m Q E \<longleftrightarrow>
     (\<forall>s. P s \<longrightarrow> (\<exists>r s'. m s = Some (r, s') \<and>
        (case r of Ok x \<Rightarrow> Q x s' | Err e \<Rightarrow> E e s' | Panic \<Rightarrow> False)))"

lemma hoareI:
  assumes "\<And>s. P s \<Longrightarrow> (\<exists>x s'. m s = Some (Ok x, s') \<and> Q x s') \<or> (\<exists>e s'. m s = Some (Err e, s') \<and> E e s')"
  shows "hoare P m Q E"
  unfolding hoare_def using assms by fastforce

lemma hoareE:
  assumes "hoare P m Q E" "P s"
  obtains x s' where "m s = Some (Ok x, s')" "Q x s'" | e s' where "m s = Some (Err e, s')" "E e s'"
  using assms unfolding hoare_def by (fastforce split: result.splits)

lemma hoare_seq:
  assumes "hoare P m R E" "\<And>x. hoare (R x) (f x) Q E"
  shows "hoare P (seq m f) Q E"
proof (rule hoareI)
  fix s assume "P s"
  with assms(1) show "(\<exists>x s'. seq m f s = Some (Ok x, s') \<and> Q x s') \<or>
      (\<exists>e s'. seq m f s = Some (Err e, s') \<and> E e s')"
  proof (cases rule: hoareE)
    case (1 x s')
    from assms(2) this(2) show ?thesis
      using 1(1) by (cases rule: hoareE) (simp_all add: seq_def)
  next
    case (2 e s')
    then show ?thesis by (simp add: seq_step(2))
  qed
qed

lemma hoare_conseq:
  assumes "hoare P' m Q' E'" "\<And>s. P s \<Longrightarrow> P' s" "\<And>x s. Q' x s \<Longrightarrow> Q x s" "\<And>e s. E' e s \<Longrightarrow> E e s"
  shows "hoare P m Q E"
proof (rule hoareI)
  fix s assume "P s"
  then have "P' s" by (rule assms(2))
  with assms(1) show "(\<exists>x s'. m s = Some (Ok x, s') \<and> Q x s') \<or> (\<exists>e s'. m s = Some (Err e, s') \<and> E e s')"
    by (cases rule: hoareE) (use assms(3,4) in blast)+
qed

lemma hoare_return: "(\<And>s. P s \<Longrightarrow> Q x s) \<Longrightarrow> hoare P (return x) Q E"
  by (rule hoareI) simp

lemma hoare_throw: "(\<And>s. P s \<Longrightarrow> E e s) \<Longrightarrow> hoare P (throw e) Q E"
  by (rule hoareI) simp

lemma hoare_gets: "(\<And>s. P s \<Longrightarrow> Q (f s) s) \<Longrightarrow> hoare P (gets f) Q E"
  by (rule hoareI) simp

lemma hoare_modify: "(\<And>s. P s \<Longrightarrow> Q () (f s)) \<Longrightarrow> hoare P (modify f) Q E"
  by (rule hoareI) simp

section \<open>Relations of states\<close>

definition keeps :: "('s \<Rightarrow> 's \<Rightarrow> bool) \<Rightarrow> ('s, 'a, 'e) exec \<Rightarrow> bool" where
  "keeps R m \<longleftrightarrow> (\<forall>s r s'. m s = Some (r, s') \<longrightarrow> R s s')"

lemma keepsD: "keeps R m \<Longrightarrow> m s = Some (r, s') \<Longrightarrow> R s s'"
  by (simp add: keeps_def)

locale state_order =
  fixes R :: "'s \<Rightarrow> 's \<Rightarrow> bool"
  assumes order_refl: "R s s"
    and order_trans: "R s t \<Longrightarrow> R t u \<Longrightarrow> R s u"
begin

lemma keeps_basic:
  "keeps R (of_result r)" "keeps R (return x)" "keeps R (throw e)" "keeps R panic"
  "keeps R (gets f)"
  by (simp_all add: keeps_def order_refl)

lemma keeps_seq:
  assumes "keeps R m" "\<And>x. keeps R (f x)"
  shows "keeps R (seq m f)"
proof -
  have "R s s'" if "seq m f s = Some (r, s')" for s r s'
  proof (cases r)
    case (Ok y)
    then show ?thesis using that assms by (fastforce simp: keeps_def exec_simps intro: order_trans)
  next
    case (Err e)
    then show ?thesis using that assms by (fastforce simp: keeps_def exec_simps intro: order_trans)
  next
    case Panic
    then show ?thesis using that assms by (fastforce simp: keeps_def exec_simps intro: order_trans)
  qed
  then show ?thesis by (simp add: keeps_def)
qed

lemma keeps_for_each: "(\<And>x. keeps R (f x)) \<Longrightarrow> keeps R (for_each f xs)"
  by (induction xs) (simp_all add: keeps_basic keeps_seq)

end

end
