(* ===== verification/Tracking_Copy.thy ===== *)
theory Tracking_Copy
  imports Global_State System_Errors Exec
begin

text \<open>
  \<^verbatim>\<open>engine-core/src/tracking_copy\<close>: the view of the global state that a deploy reads and writes, with
  the effects it records, and \<^verbatim>\<open>engine_state/op.rs\<close>, \<^verbatim>\<open>execution_effect.rs\<close>, \<^verbatim>\<open>execution/error.rs\<close>.

  The cache of reads is a \<^verbatim>\<open>LinkedHashMap\<close> of another crate, measured with sizes that the compiler
  and the allocator choose; both are fields of \<open>externals\<close>. \<open>linked_map_laws\<close> states the documented
  behaviour of the map: entries in order of insertion, \<^verbatim>\<open>get_refresh\<close> moves an entry to the back,
  \<^verbatim>\<open>pop_front\<close> takes the oldest one. The reader is any function of the key; a global state view
  and the forked copy are readers.
\<close>

section \<open>Operations and effects\<close>

datatype op = Op_Read | Op_Write | Op_Add | Op_NoOp

definition op_add :: "op \<Rightarrow> op \<Rightarrow> op" where
  "op_add self other =
     (case (self, other) of
        (a, Op_NoOp) \<Rightarrow> a
      | (Op_NoOp, b) \<Rightarrow> b
      | (Op_Read, Op_Read) \<Rightarrow> Op_Read
      | (Op_Add, Op_Add) \<Rightarrow> Op_Add
      | _ \<Rightarrow> Op_Write)"

record execution_effect =
  eff_ops :: "(key, op) fmap"
  eff_transforms :: "(key, transform) fmap"

section \<open>Errors of an execution\<close>

typedecl wasmi_error
typedecl parity_wasm_error
typedecl rand_error

datatype resolver_error = UnknownProtocolVersion protocol_version | NoImportedMemory

text \<open>
  The strings of \<^verbatim>\<open>URefNotFound\<close> and \<^verbatim>\<open>FunctionNotFound\<close> are formatted from the values kept here:
  where a query stopped, and the key with the mismatch of a typed read.
\<close>

datatype query_stop =
    Root_Missing
  | Name_Not_In_Account rstring
  | Name_Not_In_Contract rstring
  | Name_Not_Followed rstring stored_value
  | Key_Missing key

datatype query_message = Query_Message query_stop key "rstring list"

datatype error_text =
    Text rstring
  | Query_Text query_message
  | Typed_Read key "transform type_mismatch"
  | Not_A_Contract key

datatype exec_error =
    Interpreter wasmi_error
  | Storage storage_error
  | Exec_BytesRepr bytesrepr_error
  | Exec_KeyNotFound key
  | AccountNotFound key
  | TypeMismatchError "transform type_mismatch"
  | InvalidAccess access_rights
  | ForgedReference uref
  | URefNotFound error_text
  | FunctionNotFound error_text
  | ParityWasm parity_wasm_error
  | GasLimit
  | Ret "uref list"
  | Rng rand_error
  | ResolverError resolver_error
  | Revert u32
  | AddKeyFailure add_key_failure
  | RemoveKeyFailure remove_key_failure
  | UpdateKeyFailure update_key_failure
  | SetThresholdFailure set_threshold_failure
  | SystemContractError system_contract_error
  | DeploymentAuthorizationFailure
  | ExpectedReturnValue
  | UnexpectedReturnValue
  | InvalidContext
  | IncompatibleProtocolMajorVersion u32 u32
  | Exec_CLValue cl_value_error
  | HostBufferEmpty

section \<open>The cache\<close>

record 'm externals =
  lhm_new :: 'm
  lhm_insert :: "key \<Rightarrow> stored_value \<Rightarrow> 'm \<Rightarrow> 'm"
  lhm_get_refresh :: "key \<Rightarrow> 'm \<Rightarrow> stored_value option \<times> 'm"
  lhm_pop_front :: "'m \<Rightarrow> ((key \<times> stored_value) \<times> 'm) option"
  size_of_stored_value :: nat
  string_capacity :: "rstring \<Rightarrow> nat"

text \<open>\<^verbatim>\<open>heap_size\<close> of the named keys sums the capacities of the names; the size of a key is 0.\<close>

definition named_keys_heap_size :: "('m, 'z) externals_scheme \<Rightarrow> named_keys \<Rightarrow> nat" where
  "named_keys_heap_size X nk = sum_list (map (\<lambda>(name, key). string_capacity X name + 0) (entries nk))"

definition stored_value_byte_size :: "('m, 'z) externals_scheme \<Rightarrow> stored_value \<Rightarrow> nat" where
  "stored_value_byte_size X sv =
     size_of_stored_value X +
     (case sv of
        SV_CLValue v \<Rightarrow> cl_value_serialized_len v
      | SV_Account a \<Rightarrow> named_keys_heap_size X (acc_named_keys a)
      | SV_Contract c \<Rightarrow> named_keys_heap_size X (con_named_keys c) + length (con_bytes c))"

definition heap_measure :: "('m, 'z) externals_scheme \<Rightarrow> key \<Rightarrow> stored_value \<Rightarrow> nat" where
  "heap_measure X k v = size_of_stored_value X + stored_value_byte_size X v"

record 'm tracking_copy_cache =
  max_cache_size :: nat
  current_cache_size :: nat
  reads_cached :: 'm
  muts_cached :: "(key, stored_value) fmap"

definition cache_new :: "('m, 'z) externals_scheme \<Rightarrow> nat \<Rightarrow> 'm tracking_copy_cache" where
  "cache_new X max_size =
     \<lparr>max_cache_size = max_size, current_cache_size = 0, reads_cached = lhm_new X, muts_cached = fmempty\<rparr>"

text \<open>The loop that drops the oldest reads; a size below zero is a panic.\<close>

partial_function (option) evict ::
    "('m, 'z) externals_scheme \<Rightarrow> (key \<Rightarrow> stored_value \<Rightarrow> nat) \<Rightarrow>
     'm tracking_copy_cache \<Rightarrow> ((unit, storage_error) result \<times> 'm tracking_copy_cache) option" where
  "evict X meter c =
     (if current_cache_size c > max_cache_size c then
        (case lhm_pop_front X (reads_cached c) of
           Some ((k, v), rest) \<Rightarrow>
             if current_cache_size c < meter k v then Some (Panic, c)
             else evict X meter
               (c\<lparr>reads_cached := rest, current_cache_size := current_cache_size c - meter k v\<rparr>)
         | None \<Rightarrow> Some (Ok (), c))
      else Some (Ok (), c))"

definition insert_read ::
    "('m, 'z) externals_scheme \<Rightarrow> (key \<Rightarrow> stored_value \<Rightarrow> nat) \<Rightarrow> key \<Rightarrow> stored_value \<Rightarrow>
     ('m tracking_copy_cache, unit, storage_error) exec" where
  "insert_read X meter key value =
     seq (modify (\<lambda>c. c\<lparr>reads_cached := lhm_insert X key value (reads_cached c),
                         current_cache_size := current_cache_size c + meter key value\<rparr>))
       (\<lambda>_. evict X meter)"

definition insert_write :: "key \<Rightarrow> stored_value \<Rightarrow> 'm tracking_copy_cache \<Rightarrow> 'm tracking_copy_cache" where
  "insert_write key value c = c\<lparr>muts_cached := fmupd key value (muts_cached c)\<rparr>"

definition cache_get ::
    "('m, 'z) externals_scheme \<Rightarrow> key \<Rightarrow> ('m tracking_copy_cache, stored_value option, storage_error) exec" where
  "cache_get X key = (\<lambda>c.
     case fmlookup (muts_cached c) key of
       Some value \<Rightarrow> Some (Ok (Some value), c)
     | None \<Rightarrow>
         (case lhm_get_refresh X key (reads_cached c) of
            (value, reads) \<Rightarrow> Some (Ok value, c\<lparr>reads_cached := reads\<rparr>)))"

section \<open>Tracking copies\<close>

type_synonym state_reader = "key \<Rightarrow> (stored_value option, storage_error) result option"

record 'm tracking_copy =
  tc_reader :: state_reader
  tc_cache :: "'m tracking_copy_cache"
  tc_ops :: "(key, op) fmap"
  tc_fns :: "(key, transform) fmap"

type_synonym ('m, 'a) tc_exec = "('m tracking_copy, 'a, storage_error) exec"

datatype add_result =
    Add_Success
  | Add_KeyNotFound key
  | Add_TypeMismatch "transform type_mismatch"
  | Add_Serialization bytesrepr_error

fun add_result_from :: "cl_value_error \<Rightarrow> add_result" where
  "add_result_from (CL_Serialization e) = Add_Serialization e"
| "add_result_from (CL_TypeMismatch e f) = Add_TypeMismatch (TypeMismatch (Dbg_CLType e) (Dbg_CLType f))"

definition tracking_copy_new :: "('m, 'z) externals_scheme \<Rightarrow> state_reader \<Rightarrow> 'm tracking_copy" where
  "tracking_copy_new X reader =
     \<lparr>tc_reader = reader, tc_cache = cache_new X (1024 * 16), tc_ops = fmempty, tc_fns = fmempty\<rparr>"

abbreviation on_cache :: "('m tracking_copy_cache, 'a, storage_error) exec \<Rightarrow> ('m, 'a) tc_exec" where
  "on_cache \<equiv> zoom tc_cache (\<lambda>c tc. tc\<lparr>tc_cache := c\<rparr>) (\<lambda>e. e)"

definition reader_read :: "key \<Rightarrow> ('m, stored_value option) tc_exec" where
  "reader_read key = (\<lambda>tc. map_option (\<lambda>r. (r, tc)) (tc_reader tc key))"

definition tc_get :: "('m, 'z) externals_scheme \<Rightarrow> key \<Rightarrow> ('m, stored_value option) tc_exec" where
  "tc_get X key =
     seq (on_cache (cache_get X key)) (\<lambda>cached.
       case cached of
         Some value \<Rightarrow> return (Some value)
       | None \<Rightarrow>
           seq (reader_read key) (\<lambda>maybe_value.
             case maybe_value of
               Some value \<Rightarrow>
                 seq (on_cache (insert_read X (heap_measure X) key value)) (\<lambda>_. return (Some value))
             | None \<Rightarrow> return None))"

definition record_effect :: "key \<Rightarrow> op \<Rightarrow> transform \<Rightarrow> 'm tracking_copy \<Rightarrow> 'm tracking_copy" where
  "record_effect key op t tc =
     tc\<lparr>tc_ops := insert_add Op_NoOp op_add (tc_ops tc) key op,
        tc_fns := insert_add Identity transform_add (tc_fns tc) key t\<rparr>"

definition tc_read :: "('m, 'z) externals_scheme \<Rightarrow> key \<Rightarrow> ('m, stored_value option) tc_exec" where
  "tc_read X key =
     (let normalized_key = key_normalize key in
      seq (tc_get X normalized_key) (\<lambda>maybe_value.
        case maybe_value of
          Some value \<Rightarrow>
            seq (modify (record_effect normalized_key Op_Read Identity)) (\<lambda>_. return (Some value))
        | None \<Rightarrow> return None))"

definition write_cache :: "key \<Rightarrow> stored_value \<Rightarrow> 'm tracking_copy \<Rightarrow> 'm tracking_copy" where
  "write_cache key value tc = tc\<lparr>tc_cache := insert_write key value (tc_cache tc)\<rparr>"

definition tc_write :: "key \<Rightarrow> stored_value \<Rightarrow> ('m, unit) tc_exec" where
  "tc_write key value =
     (let normalized_key = key_normalize key in
      modify (record_effect normalized_key Op_Write (Write value) \<circ> write_cache normalized_key value))"

text \<open>The transform that adding a value amounts to, or the result to return early with.\<close>

definition add_mismatch :: "stored_value \<Rightarrow> (transform, add_result) result" where
  "add_mismatch value =
     Err (Add_TypeMismatch (TypeMismatch
       (Str (str_lit ''I32, U64, U128, U256, U512 or (String, Key) tuple'')) (type_name value)))"

definition add_transform :: "stored_value \<Rightarrow> (transform, add_result) result" where
  "add_transform value =
     (case value of
        SV_CLValue v \<Rightarrow>
          (case cl_type v of
             CL_I32 \<Rightarrow> and_then (map_err add_result_from (into_t i32_from_bytes CL_I32 v)) (\<lambda>i. Ok (AddInt32 i))
           | CL_U64 \<Rightarrow> and_then (map_err add_result_from (into_t u64_from_bytes CL_U64 v)) (\<lambda>i. Ok (AddUInt64 i))
           | CL_U128 \<Rightarrow>
               and_then (map_err add_result_from (into_t u128_from_bytes CL_U128 v)) (\<lambda>i. Ok (AddUInt128 i))
           | CL_U256 \<Rightarrow>
               and_then (map_err add_result_from (into_t u256_from_bytes CL_U256 v)) (\<lambda>i. Ok (AddUInt256 i))
           | CL_U512 \<Rightarrow>
               and_then (map_err add_result_from (into_t u512_from_bytes CL_U512 v)) (\<lambda>i. Ok (AddUInt512 i))
           | ty \<Rightarrow>
               if ty = named_key_type then
                 and_then (map_err add_result_from
                   (into_t (pair_from_bytes string_from_bytes key_from_bytes) named_key_type v))
                   (\<lambda>(name, key). Ok (AddKeys (fmap_of_list [(name, key)])))
               else add_mismatch value)
      | _ \<Rightarrow> add_mismatch value)"

definition tc_add :: "('m, 'z) externals_scheme \<Rightarrow> key \<Rightarrow> stored_value \<Rightarrow> ('m, add_result) tc_exec" where
  "tc_add X key value =
     (let normalized_key = key_normalize key in
      seq (tc_get X normalized_key) (\<lambda>current.
        case current of
          None \<Rightarrow> return (Add_KeyNotFound normalized_key)
        | Some current_value \<Rightarrow>
            (case add_transform value of
               Err early \<Rightarrow> return early
             | Panic \<Rightarrow> panic
             | Ok transform \<Rightarrow>
                 (case transform_apply transform current_value of
                    Ok new_value \<Rightarrow>
                      seq (modify (record_effect normalized_key Op_Add transform
                             \<circ> write_cache normalized_key new_value)) (\<lambda>_. return Add_Success)
                  | Err (Type_Mismatch type_mismatch) \<Rightarrow> return (Add_TypeMismatch type_mismatch)
                  | Err (Serialization e) \<Rightarrow> return (Add_Serialization e)
                  | Panic \<Rightarrow> panic))))"

definition tc_effect :: "'m tracking_copy \<Rightarrow> execution_effect" where
  "tc_effect tc = \<lparr>eff_ops = tc_ops tc, eff_transforms = tc_fns tc\<rparr>"

text \<open>\<^verbatim>\<open>StateReader for &TrackingCopy\<close>, and \<^verbatim>\<open>fork\<close>.\<close>

definition copy_read :: "'m tracking_copy \<Rightarrow> state_reader" where
  "copy_read tc key =
     (case fmlookup (muts_cached (tc_cache tc)) key of
        Some value \<Rightarrow> Some (Ok (Some value))
      | None \<Rightarrow> tc_reader tc key)"

definition fork :: "('m, 'z) externals_scheme \<Rightarrow> 'm tracking_copy \<Rightarrow> 'm tracking_copy" where
  "fork X tc = tracking_copy_new X (copy_read tc)"

section \<open>Queries\<close>

datatype query_result = Query_Success stored_value | ValueNotFound query_message

text \<open>In the fold of a query the error is a position with a message, or an error of the storage.\<close>

definition read_key_or_stop ::
    "('m, 'z) externals_scheme \<Rightarrow> key \<Rightarrow> nat \<Rightarrow>
     ('m tracking_copy, stored_value, (nat \<times> query_stop) + storage_error) exec" where
  "read_key_or_stop X key i =
     seq (zoom (\<lambda>tc. tc) (\<lambda>tc _. tc) Inr (tc_read X key)) (\<lambda>maybe_value.
       case maybe_value of
         Some value \<Rightarrow> return value
       | None \<Rightarrow> throw (Inl (i, Key_Missing key)))"

fun query_fold ::
    "('m, 'z) externals_scheme \<Rightarrow> nat \<Rightarrow> stored_value \<Rightarrow> rstring list \<Rightarrow>
     ('m tracking_copy, stored_value, (nat \<times> query_stop) + storage_error) exec" where
  "query_fold X i current [] = return current"
| "query_fold X i current (name # path) =
     seq (case current of
            SV_Account account \<Rightarrow>
              (case fmlookup (acc_named_keys account) name of
                 Some key \<Rightarrow> read_key_or_stop X key i
               | None \<Rightarrow> throw (Inl (i, Name_Not_In_Account name)))
          | SV_Contract contract \<Rightarrow>
              (case fmlookup (con_named_keys contract) name of
                 Some key \<Rightarrow> read_key_or_stop X key i
               | None \<Rightarrow> throw (Inl (i, Name_Not_In_Contract name)))
          | other \<Rightarrow> throw (Inl (i, Name_Not_Followed name other)))
       (\<lambda>value. query_fold X (i + 1) value path)"

definition error_path_msg :: "key \<Rightarrow> rstring list \<Rightarrow> query_stop \<Rightarrow> nat \<Rightarrow> query_message" where
  "error_path_msg key path missing_key missing_at_index =
     Query_Message missing_key key (take missing_at_index path)"

definition query ::
    "('m, 'z) externals_scheme \<Rightarrow> key \<Rightarrow> rstring list \<Rightarrow> ('m, query_result) tc_exec" where
  "query X base_key path =
     seq (tc_read X base_key) (\<lambda>maybe_value.
       case maybe_value of
         None \<Rightarrow> return (ValueNotFound (error_path_msg base_key path Root_Missing 0))
       | Some base_value \<Rightarrow>
           seq (attempt (query_fold X 0 base_value path)) (\<lambda>result.
             case result of
               Inr value \<Rightarrow> return (Query_Success value)
             | Inl (Inl (i, s)) \<Rightarrow> return (ValueNotFound (error_path_msg base_key path s i))
             | Inl (Inr err) \<Rightarrow> throw err))"

section \<open>Accounts, contracts and balances\<close>

text \<open>\<^verbatim>\<open>TrackingCopyExt\<close>, with the errors of an execution; \<open>H\<close> is BLAKE2b.\<close>

abbreviation with_storage_error :: "('m, 'a) tc_exec \<Rightarrow> ('m tracking_copy, 'a, exec_error) exec" where
  "with_storage_error \<equiv> zoom (\<lambda>tc. tc) (\<lambda>tc _. tc) Storage"

definition get_account ::
    "('m, 'z) externals_scheme \<Rightarrow> array32 \<Rightarrow> ('m tracking_copy, account, exec_error) exec" where
  "get_account X account_address =
     (let account_key = Key_Account account_address in
      seq (with_storage_error (tc_get X account_key)) (\<lambda>maybe_value.
        case maybe_value of
          Some (SV_Account account) \<Rightarrow> return account
        | Some other \<Rightarrow>
            throw (TypeMismatchError (TypeMismatch (Str (str_lit ''Account'')) (type_name other)))
        | None \<Rightarrow> throw (Exec_KeyNotFound account_key)))"

definition get_purse_balance_key ::
    "('m, 'z) externals_scheme \<Rightarrow> (bytes \<Rightarrow> array32) \<Rightarrow> uref \<Rightarrow> key \<Rightarrow>
     ('m tracking_copy, key, exec_error) exec" where
  "get_purse_balance_key X H mint_contract_uref outer_key =
     seq (of_result (ok_or (as_uref outer_key) (URefNotFound (Text (str_lit ''public purse balance'')))))
       (\<lambda>uref.
     seq (of_result (map_err Exec_BytesRepr (array32_to_bytes (addr uref)))) (\<lambda>local_key_bytes.
       let balance_mapping_key = key_local H (addr mint_contract_uref) local_key_bytes in
       seq (with_storage_error (query X balance_mapping_key [])) (\<lambda>result.
         case result of
           Query_Success stored_value \<Rightarrow>
             seq (of_result (map_err TypeMismatchError (cl_value_try_from stored_value))) (\<lambda>cl_value.
               of_result (map_err Exec_CLValue (into_t key_from_bytes CL_Key cl_value)))
         | ValueNotFound msg \<Rightarrow> throw (URefNotFound (Query_Text msg)))))"

definition get_purse_balance ::
    "('m, 'z) externals_scheme \<Rightarrow> key \<Rightarrow> ('m tracking_copy, motes, exec_error) exec" where
  "get_purse_balance X key =
     seq (attempt (query X key [])) (\<lambda>result.
       case result of
         Inl _ \<Rightarrow> throw (Exec_KeyNotFound key)
       | Inr (Query_Success stored_value) \<Rightarrow>
           seq (of_result (map_err TypeMismatchError (cl_value_try_from stored_value))) (\<lambda>cl_value.
             seq (of_result (map_err Exec_CLValue (into_t u512_from_bytes CL_U512 cl_value))) (\<lambda>balance.
               return (Motes balance)))
       | Inr (ValueNotFound _) \<Rightarrow> throw (Exec_KeyNotFound key))"

definition get_contract ::
    "('m, 'z) externals_scheme \<Rightarrow> key \<Rightarrow> ('m tracking_copy, contract, exec_error) exec" where
  "get_contract X key =
     seq (with_storage_error (tc_get X (key_normalize key))) (\<lambda>maybe_value.
       case maybe_value of
         Some (SV_Contract contract) \<Rightarrow> return contract
       | Some other \<Rightarrow>
           throw (TypeMismatchError (TypeMismatch (Str (str_lit ''Contract'')) (type_name other)))
       | None \<Rightarrow> throw (Exec_KeyNotFound key))"

end
