(* ===== verification/Runtime_Context.thy ===== *)
theory Runtime_Context
  imports Tracking_Copy
begin

text \<open>
  \<^verbatim>\<open>engine-core/src/runtime_context/mod.rs\<close> and \<^verbatim>\<open>execution/address_generator.rs\<close>: what a running
  contract may do with the state. The context holds the access rights of the references that the
  contract has been given; every operation that a contract can call checks them.

  The tracking copy and the address generator, which the source shares between contexts by reference,
  are fields of the context. BLAKE2b and the ChaCha generator of \<^verbatim>\<open>rand_chacha\<close> are parameters.
\<close>

section \<open>Addresses\<close>

record ('m, 'g) runtime_externals = "'m externals" +
  blake2b :: "bytes \<Rightarrow> array32"
  rng_from_seed :: "array32 \<Rightarrow> 'g"
  rng_fill_bytes :: "'g \<Rightarrow> array32 \<times> 'g"

definition address_generator_new ::
    "('m, 'g, 'z) runtime_externals_scheme \<Rightarrow> array32 \<Rightarrow> phase \<Rightarrow> 'g" where
  "address_generator_new X hash phase = rng_from_seed X (blake2b X (array_bytes hash @ [phase_to_u8 phase]))"

definition create_address :: "('m, 'g, 'z) runtime_externals_scheme \<Rightarrow> 'g \<Rightarrow> array32 \<times> 'g" where
  "create_address X gen = rng_fill_bytes X gen"

definition SYSTEM_ACCOUNT_ADDR :: array32 where "SYSTEM_ACCOUNT_ADDR = array32_fill 0"

definition attenuate_uref_for_account :: "account \<Rightarrow> uref \<Rightarrow> uref" where
  "attenuate_uref_for_account account uref =
     (if acc_public_key account = SYSTEM_ACCOUNT_ADDR then into_read_add_write uref else into_read uref)"

section \<open>The context\<close>

type_synonym known_rights = "(array32, access_rights fset) fmap"

record ('m, 'g) runtime_context =
  ctx_state :: "'m tracking_copy"
  ctx_named_keys :: named_keys
  ctx_access_rights :: known_rights
  ctx_account :: account
  ctx_args :: "cl_value list"
  ctx_authorization_keys :: "public_key fset"
  ctx_base_key :: key
  ctx_blocktime :: block_time
  ctx_deploy_hash :: array32
  ctx_gas_limit :: gas
  ctx_gas_counter :: gas
  ctx_fn_store_id :: u32
  ctx_address_generator :: 'g
  ctx_protocol_version :: protocol_version
  ctx_phase :: phase
  ctx_protocol_data :: protocol_data

type_synonym ('m, 'g, 'a) ctx_exec = "(('m, 'g) runtime_context, 'a, exec_error) exec"

abbreviation on_state :: "('m, 'a) tc_exec \<Rightarrow> ('m, 'g, 'a) ctx_exec" where
  "on_state \<equiv> zoom ctx_state (\<lambda>tc c. c\<lparr>ctx_state := tc\<rparr>) Storage"

definition named_keys_get :: "('m, 'g) runtime_context \<Rightarrow> rstring \<Rightarrow> key option" where
  "named_keys_get c name = fmlookup (ctx_named_keys c) name"

definition named_keys_contains_key :: "('m, 'g) runtime_context \<Rightarrow> rstring \<Rightarrow> bool" where
  "named_keys_contains_key c name = (fmlookup (ctx_named_keys c) name \<noteq> None)"

definition get_caller :: "('m, 'g) runtime_context \<Rightarrow> public_key" where
  "get_caller c = acc_public_key (ctx_account c)"

text \<open>\<^verbatim>\<open>HashMap::extend\<close> replaces the entries of the addresses it is given.\<close>

definition access_rights_extend ::
    "known_rights \<Rightarrow> ('m, 'g) runtime_context \<Rightarrow> ('m, 'g) runtime_context" where
  "access_rights_extend rights c = c\<lparr>ctx_access_rights := ctx_access_rights c ++\<^sub>f rights\<rparr>"

definition set_gas_counter :: "gas \<Rightarrow> ('m, 'g) runtime_context \<Rightarrow> ('m, 'g) runtime_context" where
  "set_gas_counter g c = c\<lparr>ctx_gas_counter := g\<rparr>"

definition inc_fn_store_id :: "('m, 'g) runtime_context \<Rightarrow> ('m, 'g) runtime_context" where
  "inc_fn_store_id c = c\<lparr>ctx_fn_store_id := ctx_fn_store_id c + 1\<rparr>"

definition ctx_seed :: "('m, 'g) runtime_context \<Rightarrow> array32" where
  "ctx_seed c =
     (case ctx_base_key c of
        Key_Account b \<Rightarrow> b
      | Key_Hash b \<Rightarrow> b
      | Key_URef u \<Rightarrow> addr u
      | Key_Local h \<Rightarrow> h)"

section \<open>Checks\<close>

definition is_readable :: "('m, 'g) runtime_context \<Rightarrow> key \<Rightarrow> bool" where
  "is_readable c key =
     (case key of
        Key_Account _ \<Rightarrow> ctx_base_key c = key
      | Key_Hash _ \<Rightarrow> True
      | Key_URef u \<Rightarrow> uref_is_readable u
      | Key_Local _ \<Rightarrow> False)"

definition is_addable :: "('m, 'g) runtime_context \<Rightarrow> key \<Rightarrow> bool" where
  "is_addable c key =
     (case key of
        Key_Account _ \<Rightarrow> ctx_base_key c = key
      | Key_Hash _ \<Rightarrow> ctx_base_key c = key
      | Key_URef u \<Rightarrow> uref_is_addable u
      | Key_Local _ \<Rightarrow> False)"

definition is_writeable :: "('m, 'g) runtime_context \<Rightarrow> key \<Rightarrow> bool" where
  "is_writeable c key =
     (case key of
        Key_Account _ \<Rightarrow> False
      | Key_Hash _ \<Rightarrow> False
      | Key_URef u \<Rightarrow> uref_is_writeable u
      | Key_Local _ \<Rightarrow> False)"

definition validate_readable :: "('m, 'g) runtime_context \<Rightarrow> key \<Rightarrow> (unit, exec_error) result" where
  "validate_readable c key = (if is_readable c key then Ok () else Err (InvalidAccess READ))"

definition validate_addable :: "('m, 'g) runtime_context \<Rightarrow> key \<Rightarrow> (unit, exec_error) result" where
  "validate_addable c key = (if is_addable c key then Ok () else Err (InvalidAccess ADD))"

definition validate_writeable :: "('m, 'g) runtime_context \<Rightarrow> key \<Rightarrow> (unit, exec_error) result" where
  "validate_writeable c key = (if is_writeable c key then Ok () else Err (InvalidAccess WRITE))"

text \<open>The first \<^verbatim>\<open>if\<close> of \<^verbatim>\<open>validate_uref\<close>: the reference is covered by the main purse of the account.\<close>

definition covered_by_purse :: "('m, 'g) runtime_context \<Rightarrow> uref \<Rightarrow> bool" where
  "covered_by_purse c uref =
     (let purse = acc_purse_id (ctx_account c) in
      addr purse = addr uref \<and>
      (case (access_rights purse, access_rights uref) of
         (Some rights, Some uref_rights) \<Rightarrow> rights_inter rights uref_rights = uref_rights
       | _ \<Rightarrow> False))"

definition validate_uref :: "('m, 'g) runtime_context \<Rightarrow> uref \<Rightarrow> (unit, exec_error) result" where
  "validate_uref c uref =
     (if covered_by_purse c uref then Ok ()
      else case fmlookup (ctx_access_rights c) (addr uref) of
        Some known_rights \<Rightarrow>
          (case access_rights uref of
             Some new_rights \<Rightarrow>
               if fBex known_rights (\<lambda>right. rights_inter right new_rights = new_rights) then Ok ()
               else Err (ForgedReference uref)
           | None \<Rightarrow> Ok ())
      | None \<Rightarrow> Err (ForgedReference uref))"

definition validate_key :: "('m, 'g) runtime_context \<Rightarrow> key \<Rightarrow> (unit, exec_error) result" where
  "validate_key c key = (case key of Key_URef uref \<Rightarrow> validate_uref c uref | _ \<Rightarrow> Ok ())"

fun try_for_each :: "('x \<Rightarrow> (unit, 'e) result) \<Rightarrow> 'x list \<Rightarrow> (unit, 'e) result" where
  "try_for_each f [] = Ok ()"
| "try_for_each f (x # xs) = and_then (f x) (\<lambda>_. try_for_each f xs)"

definition validate_value :: "('m, 'g) runtime_context \<Rightarrow> stored_value \<Rightarrow> (unit, exec_error) result" where
  "validate_value c value =
     (case value of
        SV_CLValue v \<Rightarrow>
          (case cl_type v of
             CL_Key \<Rightarrow>
               and_then (map_err Exec_CLValue (into_t key_from_bytes CL_Key v)) (validate_key c)
           | CL_URef \<Rightarrow>
               and_then (map_err Exec_CLValue (into_t uref_from_bytes CL_URef v)) (validate_uref c)
           | CL_Tuple2 t1 t2 \<Rightarrow>
               if cl_type v = named_key_type then
                 and_then (map_err Exec_CLValue
                     (into_t (pair_from_bytes string_from_bytes key_from_bytes) named_key_type v))
                   (\<lambda>(name, key). validate_key c key)
               else Ok ()
           | _ \<Rightarrow> Ok ())
      | SV_Account account \<Rightarrow> try_for_each (validate_key c) (map snd (entries (acc_named_keys account)))
      | SV_Contract contract \<Rightarrow> try_for_each (validate_key c) (map snd (entries (con_named_keys contract))))"

definition deserialize_keys :: "('m, 'g) runtime_context \<Rightarrow> bytes \<Rightarrow> (key list, exec_error) result" where
  "deserialize_keys c bs =
     and_then (map_err Exec_BytesRepr (deserialize vec_key_from_bytes bs)) (\<lambda>keys.
       and_then (try_for_each (validate_key c) keys) (\<lambda>_. Ok keys))"

definition deserialize_urefs :: "('m, 'g) runtime_context \<Rightarrow> bytes \<Rightarrow> (uref list, exec_error) result" where
  "deserialize_urefs c bs =
     and_then (map_err Exec_BytesRepr (deserialize vec_uref_from_bytes bs)) (\<lambda>keys.
       and_then (try_for_each (validate_uref c) keys) (\<lambda>_. Ok keys))"

definition account_to_validated_value ::
    "('m, 'g) runtime_context \<Rightarrow> account \<Rightarrow> (stored_value, exec_error) result" where
  "account_to_validated_value c account =
     and_then (validate_value c (SV_Account account)) (\<lambda>_. Ok (SV_Account account))"

definition is_valid_context :: "('m, 'g) runtime_context \<Rightarrow> bool" where
  "is_valid_context c = (ctx_base_key c = Key_Account (acc_public_key (ctx_account c)))"

text \<open>A check of the current context.\<close>

definition check :: "(('m, 'g) runtime_context \<Rightarrow> ('a, exec_error) result) \<Rightarrow> ('m, 'g, 'a) ctx_exec" where
  "check f = (\<lambda>c. Some (f c, c))"

section \<open>References\<close>

definition insert_uref :: "uref \<Rightarrow> ('m, 'g) runtime_context \<Rightarrow> ('m, 'g) runtime_context" where
  "insert_uref uref c =
     (case access_rights uref of
        Some rights \<Rightarrow>
          c\<lparr>ctx_access_rights := fmupd (addr uref)
              (finsert rights (case fmlookup (ctx_access_rights c) (addr uref) of Some s \<Rightarrow> s | None \<Rightarrow> {||}))
              (ctx_access_rights c)\<rparr>
      | None \<Rightarrow> c)"

definition insert_key :: "rstring \<Rightarrow> key \<Rightarrow> ('m, 'g) runtime_context \<Rightarrow> ('m, 'g) runtime_context" where
  "insert_key name key c =
     (let c' = (case key of Key_URef uref \<Rightarrow> insert_uref uref c | _ \<Rightarrow> c)
      in c'\<lparr>ctx_named_keys := fmupd name key (ctx_named_keys c')\<rparr>)"

section \<open>The global state\<close>

definition read_gs ::
    "('m, 'g, 'z) runtime_externals_scheme \<Rightarrow> key \<Rightarrow> ('m, 'g, stored_value option) ctx_exec" where
  "read_gs X key =
     seq (check (\<lambda>c. validate_readable c key)) (\<lambda>_.
     seq (check (\<lambda>c. validate_key c key)) (\<lambda>_.
       on_state (tc_read X key)))"

definition read_gs_direct ::
    "('m, 'g, 'z) runtime_externals_scheme \<Rightarrow> key \<Rightarrow> ('m, 'g, stored_value option) ctx_exec" where
  "read_gs_direct X key = on_state (tc_read X key)"

text \<open>\<open>try_from\<close> is the implementation of \<^verbatim>\<open>TryFrom<StoredValue>\<close> of the type that is read.\<close>

definition read_gs_typed ::
    "('m, 'g, 'z) runtime_externals_scheme \<Rightarrow> (stored_value \<Rightarrow> ('a, transform type_mismatch) result) \<Rightarrow>
     key \<Rightarrow> ('m, 'g, 'a) ctx_exec" where
  "read_gs_typed X try_from key =
     seq (read_gs X key) (\<lambda>maybe_value.
       case maybe_value of
         None \<Rightarrow> throw (Exec_KeyNotFound key)
       | Some value \<Rightarrow> of_result (map_err (\<lambda>e. FunctionNotFound (Typed_Read key e)) (try_from value)))"

definition write_gs :: "key \<Rightarrow> stored_value \<Rightarrow> ('m, 'g, unit) ctx_exec" where
  "write_gs key value =
     seq (check (\<lambda>c. validate_writeable c key)) (\<lambda>_.
     seq (check (\<lambda>c. validate_key c key)) (\<lambda>_.
     seq (check (\<lambda>c. validate_value c value)) (\<lambda>_.
       on_state (tc_write key value))))"

definition add_unsafe ::
    "('m, 'g, 'z) runtime_externals_scheme \<Rightarrow> key \<Rightarrow> stored_value \<Rightarrow> ('m, 'g, unit) ctx_exec" where
  "add_unsafe X key value =
     seq (on_state (tc_add X key value)) (\<lambda>result.
       case result of
         Add_Success \<Rightarrow> return ()
       | Add_KeyNotFound key \<Rightarrow> throw (Exec_KeyNotFound key)
       | Add_TypeMismatch type_mismatch \<Rightarrow> throw (TypeMismatchError type_mismatch)
       | Add_Serialization e \<Rightarrow> throw (Exec_BytesRepr e))"

definition add_gs ::
    "('m, 'g, 'z) runtime_externals_scheme \<Rightarrow> key \<Rightarrow> stored_value \<Rightarrow> ('m, 'g, unit) ctx_exec" where
  "add_gs X key value =
     seq (check (\<lambda>c. validate_addable c key)) (\<lambda>_.
     seq (check (\<lambda>c. validate_key c key)) (\<lambda>_.
     seq (check (\<lambda>c. validate_value c value)) (\<lambda>_.
       add_unsafe X key value)))"

definition new_uref ::
    "('m, 'g, 'z) runtime_externals_scheme \<Rightarrow> stored_value \<Rightarrow> ('m, 'g, key) ctx_exec" where
  "new_uref X value =
     seq (gets (\<lambda>c. create_address X (ctx_address_generator c))) (\<lambda>(address, gen).
     let uref = uref_new address READ_ADD_WRITE in
     seq (modify (\<lambda>c. insert_uref uref (c\<lparr>ctx_address_generator := gen\<rparr>))) (\<lambda>_.
     seq (write_gs (Key_URef uref) value) (\<lambda>_.
       return (Key_URef uref))))"

definition new_function_address ::
    "('m, 'g, 'z) runtime_externals_scheme \<Rightarrow> ('m, 'g, array32) ctx_exec" where
  "new_function_address X =
     seq (check (\<lambda>c. map_err Exec_BytesRepr (u32_to_bytes (ctx_fn_store_id c)))) (\<lambda>id_bytes.
     seq (gets (\<lambda>c. array_bytes (ctx_deploy_hash c) @ id_bytes)) (\<lambda>pre_hash_bytes.
     seq (modify inc_fn_store_id) (\<lambda>_.
       return (blake2b X pre_hash_bytes))))"

definition put_key ::
    "('m, 'g, 'z) runtime_externals_scheme \<Rightarrow> rstring \<Rightarrow> key \<Rightarrow> ('m, 'g, unit) ctx_exec" where
  "put_key X name key =
     seq (of_result (map_err Exec_CLValue (from_t (pair_to_bytes str_to_bytes key_to_bytes) named_key_type (name, key))))
       (\<lambda>named_key_value.
     seq (check (\<lambda>c. validate_value c (SV_CLValue named_key_value))) (\<lambda>_.
     seq (gets ctx_base_key) (\<lambda>base_key.
     seq (add_unsafe X base_key (SV_CLValue named_key_value)) (\<lambda>_.
       modify (insert_key name key)))))"

section \<open>The local state\<close>

definition read_ls_with_seed ::
    "('m, 'g, 'z) runtime_externals_scheme \<Rightarrow> array32 \<Rightarrow> bytes \<Rightarrow> ('m, 'g, cl_value option) ctx_exec" where
  "read_ls_with_seed X seed kb =
     seq (on_state (tc_read X (key_local (blake2b X) seed kb))) (\<lambda>maybe_value.
       case maybe_value of
         Some stored_value \<Rightarrow>
           seq (of_result (map_err TypeMismatchError (cl_value_try_from stored_value))) (\<lambda>v. return (Some v))
       | None \<Rightarrow> return None)"

definition read_ls ::
    "('m, 'g, 'z) runtime_externals_scheme \<Rightarrow> bytes \<Rightarrow> ('m, 'g, cl_value option) ctx_exec" where
  "read_ls X kb = seq (gets ctx_seed) (\<lambda>seed. read_ls_with_seed X seed kb)"

definition write_ls ::
    "('m, 'g, 'z) runtime_externals_scheme \<Rightarrow> bytes \<Rightarrow> cl_value \<Rightarrow> ('m, 'g, unit) ctx_exec" where
  "write_ls X kb v =
     seq (gets ctx_seed) (\<lambda>seed. on_state (tc_write (key_local (blake2b X) seed kb) (SV_CLValue v)))"

definition add_ls ::
    "('m, 'g, 'z) runtime_externals_scheme \<Rightarrow> bytes \<Rightarrow> cl_value \<Rightarrow> ('m, 'g, unit) ctx_exec" where
  "add_ls X kb v =
     seq (gets ctx_seed) (\<lambda>seed. add_unsafe X (key_local (blake2b X) seed kb) (SV_CLValue v))"

section \<open>Accounts and contracts\<close>

definition read_account ::
    "('m, 'g, 'z) runtime_externals_scheme \<Rightarrow> key \<Rightarrow> ('m, 'g, stored_value option) ctx_exec" where
  "read_account X key =
     (case key of
        Key_Account _ \<Rightarrow> seq (check (\<lambda>c. validate_key c key)) (\<lambda>_. on_state (tc_read X key))
      | _ \<Rightarrow> panic)"

definition write_account :: "key \<Rightarrow> account \<Rightarrow> ('m, 'g, unit) ctx_exec" where
  "write_account key account =
     (case key of
        Key_Account _ \<Rightarrow>
          seq (check (\<lambda>c. validate_key c key)) (\<lambda>_.
          seq (check (\<lambda>c. account_to_validated_value c account)) (\<lambda>account_value.
            on_state (tc_write key account_value)))
      | _ \<Rightarrow> panic)"

definition store_function ::
    "('m, 'g, 'z) runtime_externals_scheme \<Rightarrow> stored_value \<Rightarrow> ('m, 'g, array32) ctx_exec" where
  "store_function X contract =
     seq (check (\<lambda>c. validate_value c contract)) (\<lambda>_.
     seq (new_uref X contract) (\<lambda>key.
       case key of Key_URef contract_ref \<Rightarrow> return (addr contract_ref) | _ \<Rightarrow> panic))"

definition store_function_at_hash ::
    "('m, 'g, 'z) runtime_externals_scheme \<Rightarrow> stored_value \<Rightarrow> ('m, 'g, array32) ctx_exec" where
  "store_function_at_hash X contract =
     seq (new_function_address X) (\<lambda>new_hash.
     seq (check (\<lambda>c. validate_value c contract)) (\<lambda>_.
     seq (on_state (tc_write (Key_Hash new_hash) contract)) (\<lambda>_.
       return new_hash)))"

definition remove_key_from_contract :: "key \<Rightarrow> contract \<Rightarrow> rstring \<Rightarrow> ('m, 'g, unit) ctx_exec" where
  "remove_key_from_contract key contract name =
     on_state (tc_write key (SV_Contract (contract\<lparr>con_named_keys := fmdrop name (con_named_keys contract)\<rparr>)))"

definition forget_name :: "rstring \<Rightarrow> ('m, 'g) runtime_context \<Rightarrow> ('m, 'g) runtime_context" where
  "forget_name name c = c\<lparr>ctx_named_keys := fmdrop name (ctx_named_keys c)\<rparr>"

definition ctx_remove_key ::
    "('m, 'g, 'z) runtime_externals_scheme \<Rightarrow> rstring \<Rightarrow> ('m, 'g, unit) ctx_exec" where
  "ctx_remove_key X name =
     seq (gets ctx_base_key) (\<lambda>base_key.
       case base_key of
         Key_Account _ \<Rightarrow>
           seq (read_gs_typed X account_try_from base_key) (\<lambda>account.
           let account' = account\<lparr>acc_named_keys := fmdrop name (acc_named_keys account)\<rparr> in
           seq (modify (forget_name name)) (\<lambda>_.
           seq (check (\<lambda>c. account_to_validated_value c account')) (\<lambda>account_value.
             on_state (tc_write base_key account_value))))
       | Key_URef _ \<Rightarrow>
           seq (on_state (tc_read X base_key)) (\<lambda>maybe_value.
           seq (of_result (ok_or maybe_value (Exec_KeyNotFound base_key))) (\<lambda>value.
           seq (of_result (map_err TypeMismatchError (contract_try_from value))) (\<lambda>contract.
           seq (modify (forget_name name)) (\<lambda>_.
             remove_key_from_contract base_key contract name))))
       | _ \<Rightarrow>
           seq (read_gs_typed X contract_try_from base_key) (\<lambda>contract.
           seq (modify (forget_name name)) (\<lambda>_.
             remove_key_from_contract base_key contract name)))"

definition upgrade_contract_at_uref :: "key \<Rightarrow> bytes \<Rightarrow> named_keys \<Rightarrow> ('m, 'g, unit) ctx_exec" where
  "upgrade_contract_at_uref key bs named_keys =
     seq (gets (\<lambda>c. SV_Contract (contract_new bs named_keys (ctx_protocol_version c)))) (\<lambda>contract.
     seq (check (\<lambda>c. validate_writeable c key)) (\<lambda>_.
     seq (check (\<lambda>c. validate_key c key)) (\<lambda>_.
       on_state (tc_write key contract))))"

section \<open>Key management\<close>

text \<open>
  The four operations of key management share their course: the permission, the account under its key,
  the operation on the account (\<open>f\<close>, with its failures converted by \<open>into\<close>), the write.
\<close>

definition manage_account ::
    "('m, 'g, 'z) runtime_externals_scheme \<Rightarrow> ('f \<Rightarrow> exec_error) \<Rightarrow> 'f \<Rightarrow>
     (account \<Rightarrow> (unit, 'f) result \<times> account) \<Rightarrow> ('m, 'g, unit) ctx_exec" where
  "manage_account X into permission_denied f =
     seq (gets (\<lambda>c. is_valid_context c)) (\<lambda>valid.
     if \<not> valid then throw (into permission_denied)
     else
     seq (gets (\<lambda>c. can_manage_keys_with (ctx_account c) (ctx_authorization_keys c))) (\<lambda>allowed.
     if \<not> allowed then throw (into permission_denied)
     else
     seq (gets (\<lambda>c. Key_Account (acc_public_key (ctx_account c)))) (\<lambda>key.
     seq (read_gs_typed X account_try_from key) (\<lambda>account.
     let (r, account') = f account in
     seq (of_result (map_err into r)) (\<lambda>_.
     seq (check (\<lambda>c. account_to_validated_value c account')) (\<lambda>account_value.
       on_state (tc_write key account_value)))))))"

definition ctx_add_associated_key ::
    "('m, 'g, 'z) runtime_externals_scheme \<Rightarrow> public_key \<Rightarrow> weight \<Rightarrow> ('m, 'g, unit) ctx_exec" where
  "ctx_add_associated_key X public_key weight =
     manage_account X AddKeyFailure Add_PermissionDenied (\<lambda>a. add_associated_key a public_key weight)"

definition ctx_remove_associated_key ::
    "('m, 'g, 'z) runtime_externals_scheme \<Rightarrow> public_key \<Rightarrow> ('m, 'g, unit) ctx_exec" where
  "ctx_remove_associated_key X public_key =
     manage_account X RemoveKeyFailure Remove_PermissionDenied (\<lambda>a. remove_associated_key a public_key)"

definition ctx_update_associated_key ::
    "('m, 'g, 'z) runtime_externals_scheme \<Rightarrow> public_key \<Rightarrow> weight \<Rightarrow> ('m, 'g, unit) ctx_exec" where
  "ctx_update_associated_key X public_key weight =
     manage_account X UpdateKeyFailure Update_PermissionDenied (\<lambda>a. update_associated_key a public_key weight)"

definition ctx_set_action_threshold ::
    "('m, 'g, 'z) runtime_externals_scheme \<Rightarrow> action_type \<Rightarrow> weight \<Rightarrow> ('m, 'g, unit) ctx_exec" where
  "ctx_set_action_threshold X action_type threshold =
     manage_account X SetThresholdFailure PermissionDeniedError (\<lambda>a. set_action_threshold a action_type threshold)"

definition get_main_purse :: "('m, 'g) runtime_context \<Rightarrow> (purse_id, exec_error) result" where
  "get_main_purse c = (if is_valid_context c then Ok (acc_purse_id (ctx_account c)) else Err InvalidContext)"

end
