(* ===== verification/Call_Rights.thy ===== *)
theory Call_Rights
  imports Runtime_Context
begin

text \<open>
  The first part of \<^verbatim>\<open>engine-core/src/execution/runtime/mod.rs\<close>: which references a value passed between
  contracts carries (\<^verbatim>\<open>extract_urefs\<close>), and the table of access rights that a contract is called with.

  \<^verbatim>\<open>extract_urefs\<close> lists every combination of types it supports. The thirteen element types are those of
  \<open>leaf_urefs\<close>; a branch of the source reads the value at the type it matched on and collects the
  references of its elements.

  \<^verbatim>\<open>group_by\<close> of the \<^verbatim>\<open>itertools\<close> crate is the parameter \<open>G\<close>; \<open>group_by_law\<close> is its documentation:
  consecutive elements with the same key form a group.
\<close>

section \<open>References in a value\<close>

definition de_map :: "('a \<Rightarrow> 'b) \<Rightarrow> 'a de \<Rightarrow> 'b de" where
  "de_map f de bs = and_then (de bs) (\<lambda>(x, rem). Ok (f x, rem))"

definition key_urefs :: "key \<Rightarrow> uref list" where
  "key_urefs k = (case into_uref k of Some u \<Rightarrow> [u] | None \<Rightarrow> [])"

definition is_reference_type :: "cl_type \<Rightarrow> bool" where
  "is_reference_type ty = (case ty of CL_URef \<Rightarrow> True | CL_Key \<Rightarrow> True | _ \<Rightarrow> False)"

definition leaf_urefs :: "cl_type \<Rightarrow> ((uref list) de) option" where
  "leaf_urefs ty =
     (case ty of
        CL_Bool \<Rightarrow> Some (de_map (\<lambda>_. []) bool_from_bytes)
      | CL_I32 \<Rightarrow> Some (de_map (\<lambda>_. []) i32_from_bytes)
      | CL_I64 \<Rightarrow> Some (de_map (\<lambda>_. []) i64_from_bytes)
      | CL_U8 \<Rightarrow> Some (de_map (\<lambda>_. []) u8_from_bytes)
      | CL_U32 \<Rightarrow> Some (de_map (\<lambda>_. []) u32_from_bytes)
      | CL_U64 \<Rightarrow> Some (de_map (\<lambda>_. []) u64_from_bytes)
      | CL_U128 \<Rightarrow> Some (de_map (\<lambda>_. []) u128_from_bytes)
      | CL_U256 \<Rightarrow> Some (de_map (\<lambda>_. []) u256_from_bytes)
      | CL_U512 \<Rightarrow> Some (de_map (\<lambda>_. []) u512_from_bytes)
      | CL_Unit \<Rightarrow> Some (de_map (\<lambda>_. []) unit_from_bytes)
      | CL_String \<Rightarrow> Some (de_map (\<lambda>_. []) string_from_bytes)
      | CL_Key \<Rightarrow> Some (de_map key_urefs key_from_bytes)
      | CL_URef \<Rightarrow> Some (de_map (\<lambda>u. [u]) uref_from_bytes)
      | _ \<Rightarrow> None)"

type_synonym extraction = "(uref list, exec_error) result"

text \<open>\<^verbatim>\<open>cl_value.to_owned().into_t()?\<close>, followed by collecting the references.\<close>

definition read_urefs :: "'a de \<Rightarrow> ('a \<Rightarrow> uref list) \<Rightarrow> cl_value \<Rightarrow> extraction" where
  "read_urefs de refs v = and_then (map_err Exec_CLValue (into_t de (cl_type v) v)) (\<lambda>x. Ok (refs x))"

definition extract_option :: "cl_type \<Rightarrow> cl_value \<Rightarrow> extraction" where
  "extract_option ty v =
     (case ty of
        CL_URef \<Rightarrow> read_urefs (option_from_bytes uref_from_bytes) (\<lambda>opt. case opt of Some u \<Rightarrow> [u] | None \<Rightarrow> []) v
      | CL_Key \<Rightarrow> read_urefs (option_from_bytes key_from_bytes) (\<lambda>opt. case opt of Some k \<Rightarrow> key_urefs k | None \<Rightarrow> []) v
      | _ \<Rightarrow> Ok [])"

definition extract_list :: "cl_type \<Rightarrow> cl_value \<Rightarrow> extraction" where
  "extract_list ty v =
     (case ty of
        CL_URef \<Rightarrow> read_urefs vec_uref_from_bytes (\<lambda>urefs. urefs) v
      | CL_Key \<Rightarrow> read_urefs vec_key_from_bytes (\<lambda>keys. List.map_filter into_uref keys) v
      | _ \<Rightarrow> Ok [])"

definition fixed_list_sizes :: "u32 list" where
  "fixed_list_sizes = map word_of_nat ([1..<33] @ [64, 128, 256, 512])"

definition extract_fixed_list :: "cl_type \<Rightarrow> u32 \<Rightarrow> cl_value \<Rightarrow> extraction" where
  "extract_fixed_list ty n v =
     (if n \<in> set fixed_list_sizes then
        (case ty of
           CL_URef \<Rightarrow> read_urefs (array_from_bytes (unat n) uref_from_bytes) (\<lambda>arr. arr) v
         | CL_Key \<Rightarrow> read_urefs (array_from_bytes (unat n) key_from_bytes) (\<lambda>arr. List.map_filter as_uref arr) v
         | _ \<Rightarrow> Ok [])
      else Ok [])"

definition extract_result :: "cl_type \<Rightarrow> cl_type \<Rightarrow> cl_value \<Rightarrow> extraction" where
  "extract_result ok err v =
     (case (leaf_urefs ok, leaf_urefs err) of
        (Some de_ok, Some de_err) \<Rightarrow>
          if is_reference_type ok \<or> is_reference_type err
          then read_urefs (result_from_bytes de_ok de_err) (\<lambda>res. case res of Inr us \<Rightarrow> us | Inl us \<Rightarrow> us) v
          else Ok []
      | _ \<Rightarrow> Ok [])"

text \<open>The keys of a map are read at their own type: they are ordered, and the last of equal ones is kept.\<close>

definition map_urefs ::
    "('k::linorder) de \<Rightarrow> ('k \<Rightarrow> uref list) \<Rightarrow> (uref list) de \<Rightarrow> cl_value \<Rightarrow> extraction" where
  "map_urefs de_k refs de_v v =
     read_urefs (btree_from_bytes de_k de_v)
       (\<lambda>m. concat (map (\<lambda>(k, us). refs k) (entries m)) @ concat (map snd (entries m))) v"

definition extract_map :: "cl_type \<Rightarrow> cl_type \<Rightarrow> cl_value \<Rightarrow> extraction" where
  "extract_map key value v =
     (case leaf_urefs value of
        None \<Rightarrow> Ok []
      | Some de_v \<Rightarrow>
          if \<not> is_reference_type key \<and> \<not> is_reference_type value then Ok []
          else
            (case key of
               CL_Bool \<Rightarrow> map_urefs bool_from_bytes (\<lambda>_. []) de_v v
             | CL_I32 \<Rightarrow> map_urefs (de_map sint i32_from_bytes) (\<lambda>_. []) de_v v
             | CL_I64 \<Rightarrow> map_urefs (de_map sint i64_from_bytes) (\<lambda>_. []) de_v v
             | CL_U8 \<Rightarrow> map_urefs u8_from_bytes (\<lambda>_. []) de_v v
             | CL_U32 \<Rightarrow> map_urefs u32_from_bytes (\<lambda>_. []) de_v v
             | CL_U64 \<Rightarrow> map_urefs u64_from_bytes (\<lambda>_. []) de_v v
             | CL_U128 \<Rightarrow> map_urefs u128_from_bytes (\<lambda>_. []) de_v v
             | CL_U256 \<Rightarrow> map_urefs u256_from_bytes (\<lambda>_. []) de_v v
             | CL_U512 \<Rightarrow> map_urefs u512_from_bytes (\<lambda>_. []) de_v v
             | CL_Unit \<Rightarrow> map_urefs unit_from_bytes (\<lambda>_. []) de_v v
             | CL_String \<Rightarrow> map_urefs string_from_bytes (\<lambda>_. []) de_v v
             | CL_Key \<Rightarrow> map_urefs key_from_bytes key_urefs de_v v
             | CL_URef \<Rightarrow> map_urefs uref_from_bytes (\<lambda>u. [u]) de_v v
             | _ \<Rightarrow> Ok []))"

definition extract_tuple1 :: "cl_type \<Rightarrow> cl_value \<Rightarrow> extraction" where
  "extract_tuple1 ty v =
     (case ty of
        CL_URef \<Rightarrow> read_urefs uref_from_bytes (\<lambda>u. [u]) v
      | CL_Key \<Rightarrow> read_urefs key_from_bytes key_urefs v
      | _ \<Rightarrow> Ok [])"

definition extract_tuple2 :: "cl_type \<Rightarrow> cl_type \<Rightarrow> cl_value \<Rightarrow> extraction" where
  "extract_tuple2 ty1 ty2 v =
     (case (leaf_urefs ty1, leaf_urefs ty2) of
        (Some d1, Some d2) \<Rightarrow>
          if is_reference_type ty1 \<or> is_reference_type ty2
          then read_urefs (pair_from_bytes d1 d2) (\<lambda>(us1, us2). us1 @ us2) v
          else Ok []
      | _ \<Rightarrow> Ok [])"

definition extract_urefs :: "cl_value \<Rightarrow> extraction" where
  "extract_urefs v =
     (case cl_type v of
        CL_Option ty \<Rightarrow> extract_option ty v
      | CL_List ty \<Rightarrow> extract_list ty v
      | CL_FixedList ty n \<Rightarrow> extract_fixed_list ty n v
      | CL_Result ok err \<Rightarrow> extract_result ok err v
      | CL_Map key value \<Rightarrow> extract_map key value v
      | CL_Tuple1 ty \<Rightarrow> extract_tuple1 ty v
      | CL_Tuple2 ty1 ty2 \<Rightarrow> extract_tuple2 ty1 ty2 v
      | CL_Tuple3 ty1 ty2 ty3 \<Rightarrow> Ok []
      | CL_Key \<Rightarrow> read_urefs key_from_bytes key_urefs v
      | CL_URef \<Rightarrow> read_urefs uref_from_bytes (\<lambda>u. [u]) v
      | _ \<Rightarrow> Ok [])"

section \<open>Tables of access rights\<close>

definition key_to_tuple :: "key \<Rightarrow> (array32 \<times> access_rights option) option" where
  "key_to_tuple key =
     (case key of
        Key_URef uref \<Rightarrow> Some (addr uref, access_rights uref)
      | Key_Account _ \<Rightarrow> None
      | Key_Hash _ \<Rightarrow> None
      | Key_Local _ \<Rightarrow> None)"

type_synonym grouping =
  "(array32 \<times> access_rights option) list \<Rightarrow> (array32 \<times> (array32 \<times> access_rights option) list) list"

definition collect_rights :: "(array32 \<times> (array32 \<times> access_rights option) list) list \<Rightarrow> known_rights" where
  "collect_rights groups =
     insert_all (map (\<lambda>(key, group). (key, fset_of_list (List.map_filter snd group))) groups) fmempty"

definition extract_access_rights_from_urefs :: "grouping \<Rightarrow> uref list \<Rightarrow> known_rights" where
  "extract_access_rights_from_urefs G input =
     collect_rights (G (map (\<lambda>uref. (addr uref, access_rights uref)) input))"

definition extract_access_rights_from_keys :: "grouping \<Rightarrow> key list \<Rightarrow> known_rights" where
  "extract_access_rights_from_keys G input = collect_rights (G (List.map_filter key_to_tuple input))"

definition group_by_law :: "grouping \<Rightarrow> bool" where
  "group_by_law G \<longleftrightarrow>
     (\<forall>xs. concat (map snd (G xs)) = xs \<and>
       (\<forall>(key, group) \<in> set (G xs). group \<noteq> [] \<and> (\<forall>x \<in> set group. fst x = key)) \<and>
       successively (\<lambda>g h. fst g \<noteq> fst h) (G xs))"

end
