(* ===== verification/Runtime.thy ===== *)
theory Runtime
  imports Call_Rights
begin

text \<open>
  \<^verbatim>\<open>engine-core/src/execution/runtime\<close>: the host functions that a Wasm contract calls, their dispatch
  in \<^verbatim>\<open>externals.rs\<close>, and the calls from contract to contract.

  Of the crates \<^verbatim>\<open>wasmi\<close>, \<^verbatim>\<open>parity_wasm\<close>, \<^verbatim>\<open>pwasm_utils\<close> and \<^verbatim>\<open>itertools\<close> the model uses the fields of
  \<open>host_externals\<close>: reading and writing the memory of an instance, the arguments of a host function, the
  exported names of a module, and running the exported function \<^verbatim>\<open>call\<close> of a module with a runtime as
  its host. The instance of a module is identified with the module.

  A callee shares the tracking copy, the address generator and the cache of system contracts with its
  caller by reference: \<open>share_from\<close> takes them back when the call ends. All else of the callee's
  context is dropped with it.
\<close>

section \<open>The runtime\<close>

record ('m, 'g, 'w, 'p) runtime =
  rt_system_contract_cache :: "(uref, 'p) fmap"
  rt_memory :: 'w
  rt_module :: 'p
  rt_host_buf :: "cl_value option"
  rt_context :: "('m, 'g) runtime_context"

definition system_cache_get :: "(uref, 'p) fmap \<Rightarrow> uref \<Rightarrow> 'p option" where
  "system_cache_get cache uref = fmlookup cache (remove_access_rights uref)"

definition system_cache_has :: "(uref, 'p) fmap \<Rightarrow> uref \<Rightarrow> bool" where
  "system_cache_has cache uref = (fmlookup cache (remove_access_rights uref) \<noteq> None)"

definition system_cache_insert :: "uref \<Rightarrow> 'p \<Rightarrow> (uref, 'p) fmap \<Rightarrow> 'p option \<times> (uref, 'p) fmap" where
  "system_cache_insert uref contract cache =
     (fmlookup cache (remove_access_rights uref), fmupd (remove_access_rights uref) contract cache)"

datatype runtime_value = RV_I32 i32 | RV_I64 i64 | RV_F32 u32 | RV_F64 u64

datatype trap = Trap_Host exec_error | Trap_Unreachable | Trap_UnexpectedSignature

record ('m, 'g, 'w, 'p) host_externals = "('m, 'g) runtime_externals" +
  group_by_addr :: grouping
  mem_get :: "'w \<Rightarrow> u32 \<Rightarrow> nat \<Rightarrow> (bytes, wasmi_error) result"
  mem_set :: "'w \<Rightarrow> u32 \<Rightarrow> bytes \<Rightarrow> ('w, wasmi_error) result"
  nth_u32 :: "runtime_value list \<Rightarrow> nat \<Rightarrow> (u32, trap) result"
  nth_u8 :: "runtime_value list \<Rightarrow> nat \<Rightarrow> (u8, trap) result"
  export_section :: "'p \<Rightarrow> rstring list option"
  set_export_field :: "nat \<Rightarrow> rstring \<Rightarrow> 'p \<Rightarrow> 'p"
  optimize :: "'p \<Rightarrow> rstring list \<Rightarrow> 'p option"
  serialize_module :: "'p \<Rightarrow> (bytes, parity_wasm_error) result"
  deserialize_buffer :: "bytes \<Rightarrow> ('p, parity_wasm_error) result"
  from_parity_wasm_module :: "'p \<Rightarrow> (unit, wasmi_error) result"
  instantiate :: "'p \<Rightarrow> ('w option, wasmi_error) result"
  as_host_error :: "wasmi_error \<Rightarrow> exec_error option"
  invoke_call :: "'p \<Rightarrow> ('m, 'g, 'w, 'p) runtime \<Rightarrow>
    ((unit, wasmi_error) result \<times> ('m, 'g, 'w, 'p) runtime) option"

type_synonym ('m, 'g, 'w, 'p, 'a) rt_exec = "(('m, 'g, 'w, 'p) runtime, 'a, exec_error) exec"
type_synonym ('m, 'g, 'w, 'p, 'a) host_exec = "(('m, 'g, 'w, 'p) runtime, 'a, trap) exec"

abbreviation on_context :: "('m, 'g, 'a) ctx_exec \<Rightarrow> ('m, 'g, 'w, 'p, 'a) rt_exec" where
  "on_context \<equiv> zoom rt_context (\<lambda>c rt. rt\<lparr>rt_context := c\<rparr>) (\<lambda>e. e)"

definition probe :: "('s \<Rightarrow> ('a, 'e) result) \<Rightarrow> ('s, 'a, 'e) exec" where
  "probe f = (\<lambda>s. Some (f s, s))"

section \<open>Modules\<close>

fun index_of :: "'a \<Rightarrow> 'a list \<Rightarrow> nat option" where
  "index_of x [] = None"
| "index_of x (y # ys) = (if x = y then Some 0 else map_option Suc (index_of x ys))"

definition rename_export_to_call ::
    "('m, 'g, 'w, 'p, 'z) host_externals_scheme \<Rightarrow> 'p \<Rightarrow> rstring \<Rightarrow> ('p, exec_error) result" where
  "rename_export_to_call X module name =
     (case export_section X module of
        None \<Rightarrow> Panic
      | Some exports \<Rightarrow>
          (case index_of name exports of
             None \<Rightarrow> Panic
           | Some i \<Rightarrow> Ok (set_export_field X i (str_lit ''call'') module)))"

definition create_module_resolver :: "protocol_version \<Rightarrow> (unit, resolver_error) result" where
  "create_module_resolver v =
     (if version V1_0_0 \<le> version v then Ok () else Err (UnknownProtocolVersion v))"

definition instance_and_memory ::
    "('m, 'g, 'w, 'p, 'z) host_externals_scheme \<Rightarrow> 'p \<Rightarrow> protocol_version \<Rightarrow> ('w, exec_error) result" where
  "instance_and_memory X parity_module v =
     and_then (map_err Interpreter (from_parity_wasm_module X parity_module)) (\<lambda>_.
     and_then (map_err ResolverError (create_module_resolver v)) (\<lambda>_.
     and_then (map_err Interpreter (instantiate X parity_module)) (\<lambda>memory.
       ok_or memory (ResolverError NoImportedMemory))))"

section \<open>Gas\<close>

definition charge_gas :: "gas \<Rightarrow> ('m, 'g, 'w, 'p, bool) rt_exec" where
  "charge_gas amount =
     seq (gets (\<lambda>rt. ctx_gas_counter (rt_context rt))) (\<lambda>prev.
     seq (gets (\<lambda>rt. ctx_gas_limit (rt_context rt))) (\<lambda>limit.
       case gas_checked_add prev amount of
         None \<Rightarrow> return False
       | Some val \<Rightarrow>
           if gas_value limit < gas_value val then return False
           else seq (on_context (modify (set_gas_counter val))) (\<lambda>_. return True)))"

definition rt_gas :: "gas \<Rightarrow> ('m, 'g, 'w, 'p, unit) rt_exec" where
  "rt_gas amount = seq (charge_gas amount) (\<lambda>ok. if ok then return () else throw GasLimit)"

section \<open>The memory of the contract\<close>

definition bytes_from_mem ::
    "('m, 'g, 'w, 'p, 'z) host_externals_scheme \<Rightarrow> u32 \<Rightarrow> nat \<Rightarrow> ('m, 'g, 'w, 'p, bytes) rt_exec" where
  "bytes_from_mem X ptr len = probe (\<lambda>rt. map_err Interpreter (mem_get X (rt_memory rt) ptr len))"

definition memory_set ::
    "('m, 'g, 'w, 'p, 'z) host_externals_scheme \<Rightarrow> u32 \<Rightarrow> bytes \<Rightarrow> ('m, 'g, 'w, 'p, unit) rt_exec" where
  "memory_set X ptr bs =
     seq (probe (\<lambda>rt. map_err Interpreter (mem_set X (rt_memory rt) ptr bs))) (\<lambda>w.
       modify (\<lambda>rt. rt\<lparr>rt_memory := w\<rparr>))"

definition value_from_mem ::
    "('m, 'g, 'w, 'p, 'z) host_externals_scheme \<Rightarrow> 'a de \<Rightarrow> u32 \<Rightarrow> nat \<Rightarrow> ('m, 'g, 'w, 'p, 'a) rt_exec" where
  "value_from_mem X de ptr len =
     seq (bytes_from_mem X ptr len) (\<lambda>bs. of_result (map_err Exec_BytesRepr (deserialize de bs)))"

definition key_from_mem ::
    "('m, 'g, 'w, 'p, 'z) host_externals_scheme \<Rightarrow> u32 \<Rightarrow> u32 \<Rightarrow> ('m, 'g, 'w, 'p, key) rt_exec" where
  "key_from_mem X key_ptr key_size = value_from_mem X key_from_bytes key_ptr (unat key_size)"

definition cl_value_from_mem ::
    "('m, 'g, 'w, 'p, 'z) host_externals_scheme \<Rightarrow> u32 \<Rightarrow> u32 \<Rightarrow> ('m, 'g, 'w, 'p, cl_value) rt_exec" where
  "cl_value_from_mem X ptr len = value_from_mem X cl_value_from_bytes ptr (unat len)"

definition string_from_mem ::
    "('m, 'g, 'w, 'p, 'z) host_externals_scheme \<Rightarrow> u32 \<Rightarrow> u32 \<Rightarrow> ('m, 'g, 'w, 'p, rstring) rt_exec" where
  "string_from_mem X ptr len = value_from_mem X string_from_bytes ptr (unat len)"

definition get_function_by_name ::
    "('m, 'g, 'w, 'p, 'z) host_externals_scheme \<Rightarrow> u32 \<Rightarrow> u32 \<Rightarrow> ('m, 'g, 'w, 'p, bytes) rt_exec" where
  "get_function_by_name X name_ptr name_size =
     seq (string_from_mem X name_ptr name_size) (\<lambda>name.
     seq (gets rt_module) (\<lambda>module.
       let has_name = (case export_section X module of Some exports \<Rightarrow> name \<in> set exports | None \<Rightarrow> False) in
       if has_name then
         (case optimize X module [name] of
            None \<Rightarrow> panic
          | Some module' \<Rightarrow>
              seq (of_result (rename_export_to_call X module' name)) (\<lambda>module''.
                of_result (map_err ParityWasm (serialize_module X module''))))
       else throw (FunctionNotFound (Text name))))"

definition is_valid_uref ::
    "('m, 'g, 'w, 'p, 'z) host_externals_scheme \<Rightarrow> u32 \<Rightarrow> u32 \<Rightarrow> ('m, 'g, 'w, 'p, bool) rt_exec" where
  "is_valid_uref X uref_ptr uref_size =
     seq (value_from_mem X uref_from_bytes uref_ptr (unat uref_size)) (\<lambda>uref.
       gets (\<lambda>rt. validate_key (rt_context rt) (Key_URef uref) = Ok ()))"

section \<open>Arguments, names and the context\<close>

definition nth_arg :: "nat \<Rightarrow> ('m, 'g, 'w, 'p) runtime \<Rightarrow> cl_value option" where
  "nth_arg index rt = (let args = ctx_args (rt_context rt) in if index < length args then Some (args ! index) else None)"

definition get_arg_size ::
    "('m, 'g, 'w, 'p, 'z) host_externals_scheme \<Rightarrow> nat \<Rightarrow> u32 \<Rightarrow> ('m, 'g, 'w, 'p, api_error + unit) rt_exec" where
  "get_arg_size X index size_ptr =
     seq (gets (nth_arg index)) (\<lambda>arg.
       case arg of
         None \<Rightarrow> return (Inl Api_MissingArgument)
       | Some v \<Rightarrow>
           if length (inner_bytes v) > u32_max then return (Inl Api_OutOfMemoryError)
           else seq (memory_set X size_ptr (to_le_bytes 4 (word_of_nat (length (inner_bytes v)) :: u32))) (\<lambda>_.
             return (Inr ())))"

text \<open>The slice \<^verbatim>\<open>[..output_size]\<close> panics if the argument is shorter.\<close>

definition get_arg ::
    "('m, 'g, 'w, 'p, 'z) host_externals_scheme \<Rightarrow> nat \<Rightarrow> u32 \<Rightarrow> nat \<Rightarrow> ('m, 'g, 'w, 'p, api_error + unit) rt_exec" where
  "get_arg X index output_ptr output_size =
     seq (gets (nth_arg index)) (\<lambda>arg.
       case arg of
         None \<Rightarrow> return (Inl Api_MissingArgument)
       | Some v \<Rightarrow>
           if length (inner_bytes v) > output_size then return (Inl Api_OutOfMemoryError)
           else if output_size > length (inner_bytes v) then panic
           else seq (memory_set X output_ptr (take output_size (inner_bytes v))) (\<lambda>_. return (Inr ())))"

definition load_key ::
    "('m, 'g, 'w, 'p, 'z) host_externals_scheme \<Rightarrow> u32 \<Rightarrow> u32 \<Rightarrow> u32 \<Rightarrow> nat \<Rightarrow> u32 \<Rightarrow>
     ('m, 'g, 'w, 'p, api_error + unit) rt_exec" where
  "load_key X name_ptr name_size output_ptr output_size bytes_written_ptr =
     seq (string_from_mem X name_ptr name_size) (\<lambda>name.
     seq (gets (\<lambda>rt. named_keys_get (rt_context rt) name)) (\<lambda>key.
       case key of
         None \<Rightarrow> return (Inl Api_MissingKey)
       | Some key \<Rightarrow>
           (case key_to_bytes key of
              Err e \<Rightarrow> return (Inl (api_from_bytesrepr e))
            | Panic \<Rightarrow> panic
            | Ok bs \<Rightarrow>
                if output_size < length bs then return (Inl Api_BufferTooSmall)
                else
                  seq (memory_set X output_ptr bs) (\<lambda>_.
                  seq (memory_set X bytes_written_ptr (to_le_bytes 4 (word_of_nat (length bs) :: u32))) (\<lambda>_.
                    return (Inr ()))))))"

definition has_key ::
    "('m, 'g, 'w, 'p, 'z) host_externals_scheme \<Rightarrow> u32 \<Rightarrow> u32 \<Rightarrow> ('m, 'g, 'w, 'p, i32) rt_exec" where
  "has_key X name_ptr name_size =
     seq (string_from_mem X name_ptr name_size) (\<lambda>name.
       gets (\<lambda>rt. if named_keys_contains_key (rt_context rt) name then 0 else 1))"

definition rt_put_key ::
    "('m, 'g, 'w, 'p, 'z) host_externals_scheme \<Rightarrow> u32 \<Rightarrow> u32 \<Rightarrow> u32 \<Rightarrow> u32 \<Rightarrow> ('m, 'g, 'w, 'p, unit) rt_exec" where
  "rt_put_key X name_ptr name_size key_ptr key_size =
     seq (string_from_mem X name_ptr name_size) (\<lambda>name.
     seq (key_from_mem X key_ptr key_size) (\<lambda>key.
       on_context (put_key X name key)))"

definition rt_remove_key ::
    "('m, 'g, 'w, 'p, 'z) host_externals_scheme \<Rightarrow> u32 \<Rightarrow> u32 \<Rightarrow> ('m, 'g, 'w, 'p, unit) rt_exec" where
  "rt_remove_key X name_ptr name_size =
     seq (string_from_mem X name_ptr name_size) (\<lambda>name. on_context (ctx_remove_key X name))"

definition rt_get_main_purse ::
    "('m, 'g, 'w, 'p, 'z) host_externals_scheme \<Rightarrow> u32 \<Rightarrow> ('m, 'g, 'w, 'p, unit) rt_exec" where
  "rt_get_main_purse X dest_ptr =
     seq (probe (\<lambda>rt. get_main_purse (rt_context rt))) (\<lambda>purse_id.
     seq (of_result (map_err Exec_BytesRepr (purse_id_to_bytes purse_id))) (\<lambda>bs.
       memory_set X dest_ptr bs))"

definition rt_get_caller ::
    "('m, 'g, 'w, 'p, 'z) host_externals_scheme \<Rightarrow> u32 \<Rightarrow> ('m, 'g, 'w, 'p, unit) rt_exec" where
  "rt_get_caller X dest_ptr =
     seq (gets (\<lambda>rt. get_caller (rt_context rt))) (\<lambda>key.
     seq (of_result (map_err Exec_BytesRepr (public_key_to_bytes key))) (\<lambda>bs.
       memory_set X dest_ptr bs))"

definition get_phase ::
    "('m, 'g, 'w, 'p, 'z) host_externals_scheme \<Rightarrow> u32 \<Rightarrow> ('m, 'g, 'w, 'p, unit) rt_exec" where
  "get_phase X dest_ptr =
     seq (gets (\<lambda>rt. ctx_phase (rt_context rt))) (\<lambda>phase.
     seq (of_result (map_err Exec_BytesRepr (phase_to_bytes phase))) (\<lambda>bs.
       memory_set X dest_ptr bs))"

definition get_blocktime ::
    "('m, 'g, 'w, 'p, 'z) host_externals_scheme \<Rightarrow> u32 \<Rightarrow> ('m, 'g, 'w, 'p, unit) rt_exec" where
  "get_blocktime X dest_ptr =
     seq (gets (\<lambda>rt. ctx_blocktime (rt_context rt))) (\<lambda>blocktime.
     seq (of_result (map_err Exec_BytesRepr (block_time_to_bytes blocktime))) (\<lambda>bs.
       memory_set X dest_ptr bs))"

end
