(* ===== verification/Host_Calls.thy ===== *)
theory Host_Calls
  imports Runtime
begin

text \<open>
  The host functions of \<^verbatim>\<open>runtime/mod.rs\<close> that call other contracts, store values or move tokens, and the
  host buffer through which results of unknown size are handed to the contract.
\<close>

type_synonym ('m, 'g, 'w, 'p) api_exec = "('m, 'g, 'w, 'p, api_error + unit) rt_exec"

section \<open>The host buffer\<close>

definition take_host_buf :: "('m, 'g, 'w, 'p, cl_value option) rt_exec" where
  "take_host_buf = seq (gets rt_host_buf) (\<lambda>buf. seq (modify (\<lambda>rt. rt\<lparr>rt_host_buf := None\<rparr>)) (\<lambda>_. return buf))"

definition can_write_to_host_buf :: "('m, 'g, 'w, 'p) runtime \<Rightarrow> bool" where
  "can_write_to_host_buf rt = (rt_host_buf rt = None)"

definition write_host_buf :: "cl_value \<Rightarrow> ('m, 'g, 'w, 'p) api_exec" where
  "write_host_buf data =
     seq (gets rt_host_buf) (\<lambda>buf.
       case buf of
         Some _ \<Rightarrow> return (Inl Api_HostBufferFull)
       | None \<Rightarrow> seq (modify (\<lambda>rt. rt\<lparr>rt_host_buf := Some data\<rparr>)) (\<lambda>_. return (Inr ())))"

text \<open>The end of every host function that returns a value through the buffer: the value is stored and its
  size written to the memory.\<close>

definition offer ::
    "('m, 'g, 'w, 'p, 'z) host_externals_scheme \<Rightarrow> cl_value \<Rightarrow> u32 \<Rightarrow> ('m, 'g, 'w, 'p) api_exec" where
  "offer X cl_value output_size_ptr =
     seq (write_host_buf cl_value) (\<lambda>r.
       case r of
         Inl e \<Rightarrow> return (Inl e)
       | Inr _ \<Rightarrow>
           seq (memory_set X output_size_ptr (to_le_bytes 4 (word_of_nat (length (inner_bytes cl_value)) :: u32))) (\<lambda>_.
             return (Inr ())))"

definition if_host_buf_free :: "('m, 'g, 'w, 'p) api_exec \<Rightarrow> ('m, 'g, 'w, 'p) api_exec" where
  "if_host_buf_free m =
     seq (gets can_write_to_host_buf) (\<lambda>free. if free then m else return (Inl Api_HostBufferFull))"

definition read_host_buffer ::
    "('m, 'g, 'w, 'p, 'z) host_externals_scheme \<Rightarrow> u32 \<Rightarrow> nat \<Rightarrow> u32 \<Rightarrow> ('m, 'g, 'w, 'p) api_exec" where
  "read_host_buffer X dest_ptr dest_size bytes_written_ptr =
     seq take_host_buf (\<lambda>buf.
       case buf of
         None \<Rightarrow> return (Inl Api_HostBufferEmpty)
       | Some cl_value \<Rightarrow>
           let serialized_value = inner_bytes cl_value in
           if length serialized_value > u32_max then return (Inl Api_OutOfMemoryError)
           else if length serialized_value > dest_size then return (Inl Api_BufferTooSmall)
           else
             let sliced_buf = take (min dest_size (length serialized_value)) serialized_value in
             seq (memory_set X dest_ptr sliced_buf) (\<lambda>_.
             seq (memory_set X bytes_written_ptr (to_le_bytes 4 (word_of_nat (length sliced_buf) :: u32))) (\<lambda>_.
               return (Inr ()))))"

section \<open>Calling contracts\<close>

definition ret ::
    "('m, 'g, 'w, 'p, 'z) host_externals_scheme \<Rightarrow> u32 \<Rightarrow> nat \<Rightarrow> ('m, 'g, 'w, 'p, 'a) rt_exec" where
  "ret X value_ptr value_size =
     seq (modify (\<lambda>rt. rt\<lparr>rt_host_buf := None\<rparr>)) (\<lambda>_.
     seq (bytes_from_mem X value_ptr value_size) (\<lambda>buf.
       case deserialize cl_value_from_bytes buf of
         Panic \<Rightarrow> panic
       | Err _ \<Rightarrow> throw (Ret [])
       | Ok v \<Rightarrow>
           seq (modify (\<lambda>rt. rt\<lparr>rt_host_buf := Some v\<rparr>)) (\<lambda>_.
           seq (of_result (extract_urefs v)) (\<lambda>urefs. throw (Ret urefs)))))"

definition get_mint_contract_uref :: "('m, 'g, 'w, 'p) runtime \<Rightarrow> uref" where
  "get_mint_contract_uref rt =
     attenuate_uref_for_account (ctx_account (rt_context rt)) (pd_mint (ctx_protocol_data (rt_context rt)))"

definition get_pos_contract_uref :: "('m, 'g, 'w, 'p) runtime \<Rightarrow> uref" where
  "get_pos_contract_uref rt =
     attenuate_uref_for_account (ctx_account (rt_context rt)) (pd_proof_of_stake (ctx_protocol_data (rt_context rt)))"

definition callee_context ::
    "known_rights \<Rightarrow> cl_value list \<Rightarrow> named_keys \<Rightarrow> key \<Rightarrow> protocol_version \<Rightarrow>
     ('m, 'g) runtime_context \<Rightarrow> ('m, 'g) runtime_context" where
  "callee_context rights args named_keys key protocol_version c =
     \<lparr>ctx_state = ctx_state c, ctx_named_keys = named_keys, ctx_access_rights = rights,
      ctx_account = ctx_account c, ctx_args = args, ctx_authorization_keys = ctx_authorization_keys c,
      ctx_base_key = key, ctx_blocktime = ctx_blocktime c, ctx_deploy_hash = ctx_deploy_hash c,
      ctx_gas_limit = ctx_gas_limit c, ctx_gas_counter = ctx_gas_counter c,
      ctx_fn_store_id = ctx_fn_store_id c, ctx_address_generator = ctx_address_generator c,
      ctx_protocol_version = protocol_version, ctx_phase = ctx_phase c,
      ctx_protocol_data = ctx_protocol_data c\<rparr>"

definition callee_rights ::
    "('m, 'g, 'w, 'p, 'z) host_externals_scheme \<Rightarrow> named_keys \<Rightarrow> key list \<Rightarrow> ('m, 'g, 'w, 'p) runtime \<Rightarrow> known_rights" where
  "callee_rights X named_keys extra_urefs rt =
     extract_access_rights_from_keys (group_by_addr X)
       (map snd (entries named_keys) @ extra_urefs
        @ [Key_URef (get_mint_contract_uref rt), Key_URef (get_pos_contract_uref rt)])"

definition callee_runtime ::
    "('m, 'g, 'w, 'p, 'z) host_externals_scheme \<Rightarrow> 'p \<Rightarrow> 'w \<Rightarrow> cl_value list \<Rightarrow> named_keys \<Rightarrow> key \<Rightarrow> key list \<Rightarrow>
     protocol_version \<Rightarrow> ('m, 'g, 'w, 'p) runtime \<Rightarrow> ('m, 'g, 'w, 'p) runtime" where
  "callee_runtime X parity_module memory args named_keys key extra_urefs protocol_version rt =
     \<lparr>rt_system_contract_cache = rt_system_contract_cache rt, rt_memory = memory,
      rt_module = parity_module, rt_host_buf = None,
      rt_context = callee_context (callee_rights X named_keys extra_urefs rt) args named_keys key
        protocol_version (rt_context rt)\<rparr>"

definition share_from ::
    "('m, 'g, 'w, 'p) runtime \<Rightarrow> ('m, 'g, 'w, 'p) runtime \<Rightarrow> ('m, 'g, 'w, 'p) runtime" where
  "share_from callee rt =
     rt\<lparr>rt_system_contract_cache := rt_system_contract_cache callee,
        rt_context := (rt_context rt)\<lparr>ctx_state := ctx_state (rt_context callee),
          ctx_address_generator := ctx_address_generator (rt_context callee)\<rparr>\<rparr>"

definition call_outcome ::
    "('m, 'g, 'w, 'p, 'z) host_externals_scheme \<Rightarrow> (unit, wasmi_error) result \<Rightarrow> cl_value option \<Rightarrow>
     ('m, 'g, 'w, 'p, cl_value) rt_exec" where
  "call_outcome X result host_buf =
     (case result of
        Ok _ \<Rightarrow>
          seq (of_result (map_err Exec_CLValue (from_t unit_to_bytes CL_Unit ()))) (\<lambda>unit_value.
            return (case host_buf of Some v \<Rightarrow> v | None \<Rightarrow> unit_value))
      | Err e \<Rightarrow>
          (case as_host_error X e of
             Some (Ret ret_urefs) \<Rightarrow>
               seq (on_context (modify (access_rights_extend
                   (extract_access_rights_from_urefs (group_by_addr X) ret_urefs)))) (\<lambda>_.
                 of_result (ok_or host_buf ExpectedReturnValue))
           | Some (Revert status) \<Rightarrow> throw (Revert status)
           | Some InvalidContext \<Rightarrow> throw InvalidContext
           | _ \<Rightarrow> throw (Interpreter e))
      | Panic \<Rightarrow> panic)"

definition sub_call ::
    "('m, 'g, 'w, 'p, 'z) host_externals_scheme \<Rightarrow> 'p \<Rightarrow> cl_value list \<Rightarrow> named_keys \<Rightarrow> key \<Rightarrow> key list \<Rightarrow>
     protocol_version \<Rightarrow> ('m, 'g, 'w, 'p, cl_value) rt_exec" where
  "sub_call X parity_module args named_keys key extra_urefs protocol_version =
     seq (of_result (instance_and_memory X parity_module protocol_version)) (\<lambda>memory.
     seq (gets (callee_runtime X parity_module memory args named_keys key extra_urefs protocol_version)) (\<lambda>runtime.
       case invoke_call X parity_module runtime of
         None \<Rightarrow> (\<lambda>_. None)
       | Some (result, runtime') \<Rightarrow>
           seq (modify (share_from runtime')) (\<lambda>_. call_outcome X result (rt_host_buf runtime'))))"

fun extract_all :: "cl_value list \<Rightarrow> (uref list, exec_error) result" where
  "extract_all [] = Ok []"
| "extract_all (arg # args) =
     and_then (extract_urefs arg) (\<lambda>us. and_then (extract_all args) (\<lambda>rest. Ok (us @ rest)))"

text \<open>All that \<^verbatim>\<open>call_contract\<close> does before \<^verbatim>\<open>sub_call\<close>: the module, arguments, named keys, references passed
  and protocol version of the callee.\<close>

definition prepare_call ::
    "('m, 'g, 'w, 'p, 'z) host_externals_scheme \<Rightarrow> key \<Rightarrow> bytes \<Rightarrow>
     ('m, 'g, 'w, 'p, 'p \<times> cl_value list \<times> named_keys \<times> key list \<times> protocol_version) rt_exec" where
  "prepare_call X key args_bytes =
     seq (on_context (read_gs X key)) (\<lambda>value.
       case value of
         None \<Rightarrow> throw (Exec_KeyNotFound key)
       | Some (SV_Contract contract) \<Rightarrow>
           seq (gets (\<lambda>rt. ctx_protocol_version (rt_context rt))) (\<lambda>current_version.
           let contract_version = con_protocol_version contract in
           if \<not> is_compatible_with contract_version current_version
           then throw (IncompatibleProtocolMajorVersion (major (version contract_version))
                  (major (version current_version)))
           else
             seq (of_result (map_err Exec_BytesRepr (deserialize vec_cl_value_from_bytes args_bytes))) (\<lambda>args.
             seq (gets (\<lambda>rt. case key of Key_URef uref \<Rightarrow> system_cache_get (rt_system_contract_cache rt) uref | _ \<Rightarrow> None))
               (\<lambda>maybe_module.
             seq (of_result (case maybe_module of
                    Some module \<Rightarrow> Ok module
                  | None \<Rightarrow> map_err ParityWasm (deserialize_buffer X (con_bytes contract)))) (\<lambda>module.
             seq (of_result (extract_all args)) (\<lambda>urefs.
             let extra_urefs = map Key_URef urefs in
             seq (probe (\<lambda>rt. try_for_each (validate_key (rt_context rt)) extra_urefs)) (\<lambda>_.
               return (module, args, con_named_keys contract, extra_urefs, contract_version)))))))
       | Some _ \<Rightarrow> throw (FunctionNotFound (Not_A_Contract key)))"

definition call_contract ::
    "('m, 'g, 'w, 'p, 'z) host_externals_scheme \<Rightarrow> key \<Rightarrow> bytes \<Rightarrow> ('m, 'g, 'w, 'p, cl_value) rt_exec" where
  "call_contract X key args_bytes =
     seq (prepare_call X key args_bytes) (\<lambda>(module, args, refs, extra_urefs, contract_version).
       sub_call X module args refs key extra_urefs contract_version)"

definition call_contract_host_buf ::
    "('m, 'g, 'w, 'p, 'z) host_externals_scheme \<Rightarrow> key \<Rightarrow> bytes \<Rightarrow> u32 \<Rightarrow> ('m, 'g, 'w, 'p) api_exec" where
  "call_contract_host_buf X key args_bytes result_size_ptr =
     if_host_buf_free (seq (call_contract X key args_bytes) (\<lambda>result. offer X result result_size_ptr))"

definition load_named_keys ::
    "('m, 'g, 'w, 'p, 'z) host_externals_scheme \<Rightarrow> u32 \<Rightarrow> u32 \<Rightarrow> ('m, 'g, 'w, 'p) api_exec" where
  "load_named_keys X total_keys_ptr result_size_ptr =
     if_host_buf_free (
       seq (gets (\<lambda>rt. ctx_named_keys (rt_context rt))) (\<lambda>named_keys.
       let total_keys = (word_of_nat (fm_len named_keys) :: u32) in
       seq (memory_set X total_keys_ptr (to_le_bytes 4 total_keys)) (\<lambda>_.
         if total_keys = 0 then return (Inr ())
         else
           seq (of_result (map_err Exec_CLValue
               (from_t (btree_to_bytes str_to_bytes key_to_bytes) (CL_Map CL_String CL_Key) named_keys))) (\<lambda>value.
             offer X value result_size_ptr))))"

section \<open>Storing values\<close>

definition rt_store_function ::
    "('m, 'g, 'w, 'p, 'z) host_externals_scheme \<Rightarrow> bytes \<Rightarrow> named_keys \<Rightarrow> ('m, 'g, 'w, 'p, array32) rt_exec" where
  "rt_store_function X fn_bytes named_keys =
     seq (gets (\<lambda>rt. contract_new fn_bytes named_keys (ctx_protocol_version (rt_context rt)))) (\<lambda>contract.
       on_context (store_function X (SV_Contract contract)))"

definition rt_store_function_at_hash ::
    "('m, 'g, 'w, 'p, 'z) host_externals_scheme \<Rightarrow> bytes \<Rightarrow> named_keys \<Rightarrow> ('m, 'g, 'w, 'p, array32) rt_exec" where
  "rt_store_function_at_hash X fn_bytes named_keys =
     seq (gets (\<lambda>rt. contract_new fn_bytes named_keys (ctx_protocol_version (rt_context rt)))) (\<lambda>contract.
       on_context (store_function_at_hash X (SV_Contract contract)))"

definition rt_function_address ::
    "('m, 'g, 'w, 'p, 'z) host_externals_scheme \<Rightarrow> array32 \<Rightarrow> u32 \<Rightarrow> ('m, 'g, 'w, 'p, unit) rt_exec" where
  "rt_function_address X hash_bytes dest_ptr = memory_set X dest_ptr (array_bytes hash_bytes)"

definition rt_new_uref ::
    "('m, 'g, 'w, 'p, 'z) host_externals_scheme \<Rightarrow> u32 \<Rightarrow> u32 \<Rightarrow> u32 \<Rightarrow> ('m, 'g, 'w, 'p, unit) rt_exec" where
  "rt_new_uref X key_ptr value_ptr value_size =
     seq (cl_value_from_mem X value_ptr value_size) (\<lambda>cl_value.
     seq (on_context (new_uref X (SV_CLValue cl_value))) (\<lambda>key.
     seq (of_result (map_err Exec_BytesRepr (key_to_bytes key))) (\<lambda>bs.
       memory_set X key_ptr bs)))"

definition rt_write ::
    "('m, 'g, 'w, 'p, 'z) host_externals_scheme \<Rightarrow> u32 \<Rightarrow> u32 \<Rightarrow> u32 \<Rightarrow> u32 \<Rightarrow> ('m, 'g, 'w, 'p, unit) rt_exec" where
  "rt_write X key_ptr key_size value_ptr value_size =
     seq (key_from_mem X key_ptr key_size) (\<lambda>key.
     seq (cl_value_from_mem X value_ptr value_size) (\<lambda>cl_value.
       on_context (write_gs key (SV_CLValue cl_value))))"

definition write_local ::
    "('m, 'g, 'w, 'p, 'z) host_externals_scheme \<Rightarrow> u32 \<Rightarrow> u32 \<Rightarrow> u32 \<Rightarrow> u32 \<Rightarrow> ('m, 'g, 'w, 'p, unit) rt_exec" where
  "write_local X key_ptr key_size value_ptr value_size =
     seq (bytes_from_mem X key_ptr (unat key_size)) (\<lambda>bs.
     seq (cl_value_from_mem X value_ptr value_size) (\<lambda>cl_value.
       on_context (write_ls X bs cl_value)))"

definition rt_add ::
    "('m, 'g, 'w, 'p, 'z) host_externals_scheme \<Rightarrow> u32 \<Rightarrow> u32 \<Rightarrow> u32 \<Rightarrow> u32 \<Rightarrow> ('m, 'g, 'w, 'p, unit) rt_exec" where
  "rt_add X key_ptr key_size value_ptr value_size =
     seq (key_from_mem X key_ptr key_size) (\<lambda>key.
     seq (cl_value_from_mem X value_ptr value_size) (\<lambda>cl_value.
       on_context (add_gs X key (SV_CLValue cl_value))))"

definition add_local ::
    "('m, 'g, 'w, 'p, 'z) host_externals_scheme \<Rightarrow> u32 \<Rightarrow> u32 \<Rightarrow> u32 \<Rightarrow> u32 \<Rightarrow> ('m, 'g, 'w, 'p, unit) rt_exec" where
  "add_local X key_ptr key_size value_ptr value_size =
     seq (bytes_from_mem X key_ptr (unat key_size)) (\<lambda>bs.
     seq (cl_value_from_mem X value_ptr value_size) (\<lambda>cl_value.
       on_context (add_ls X bs cl_value)))"

definition rt_read ::
    "('m, 'g, 'w, 'p, 'z) host_externals_scheme \<Rightarrow> u32 \<Rightarrow> u32 \<Rightarrow> u32 \<Rightarrow> ('m, 'g, 'w, 'p) api_exec" where
  "rt_read X key_ptr key_size output_size_ptr =
     if_host_buf_free (
       seq (key_from_mem X key_ptr key_size) (\<lambda>key.
       seq (on_context (read_gs X key)) (\<lambda>value.
         case value of
           None \<Rightarrow> return (Inl Api_ValueNotFound)
         | Some stored_value \<Rightarrow>
             seq (of_result (map_err TypeMismatchError (cl_value_try_from stored_value))) (\<lambda>cl_value.
               offer X cl_value output_size_ptr))))"

definition read_local ::
    "('m, 'g, 'w, 'p, 'z) host_externals_scheme \<Rightarrow> u32 \<Rightarrow> u32 \<Rightarrow> u32 \<Rightarrow> ('m, 'g, 'w, 'p) api_exec" where
  "read_local X key_ptr key_size output_size_ptr =
     if_host_buf_free (
       seq (bytes_from_mem X key_ptr (unat key_size)) (\<lambda>bs.
       seq (on_context (read_ls X bs)) (\<lambda>value.
         case value of
           None \<Rightarrow> return (Inl Api_ValueNotFound)
         | Some cl_value \<Rightarrow> offer X cl_value output_size_ptr)))"

definition revert :: "u32 \<Rightarrow> ('m, 'g, 'w, 'p, 'a) rt_exec" where
  "revert status = throw (Revert status)"

section \<open>Key management\<close>

definition PUBLIC_KEY_SERIALIZED_LENGTH :: nat where
  "PUBLIC_KEY_SERIALIZED_LENGTH = 32"

text \<open>The failures of one operation are returned as their code, every other error is an error.\<close>

definition status_code ::
    "(exec_error \<Rightarrow> i32 option) \<Rightarrow> ('m, 'g, 'w, 'p, unit) rt_exec \<Rightarrow> ('m, 'g, 'w, 'p, i32) rt_exec" where
  "status_code code m =
     seq (attempt m) (\<lambda>r.
       case r of
         Inr _ \<Rightarrow> return 0
       | Inl e \<Rightarrow> (case code e of Some c \<Rightarrow> return c | None \<Rightarrow> throw e))"

definition rt_add_associated_key ::
    "('m, 'g, 'w, 'p, 'z) host_externals_scheme \<Rightarrow> u32 \<Rightarrow> u8 \<Rightarrow> ('m, 'g, 'w, 'p, i32) rt_exec" where
  "rt_add_associated_key X public_key_ptr weight_value =
     seq (value_from_mem X public_key_from_bytes public_key_ptr PUBLIC_KEY_SERIALIZED_LENGTH) (\<lambda>public_key.
       status_code (\<lambda>e. case e of AddKeyFailure f \<Rightarrow> Some (add_key_failure_as_i32 f) | _ \<Rightarrow> None)
         (on_context (ctx_add_associated_key X public_key weight_value)))"

definition rt_remove_associated_key ::
    "('m, 'g, 'w, 'p, 'z) host_externals_scheme \<Rightarrow> u32 \<Rightarrow> ('m, 'g, 'w, 'p, i32) rt_exec" where
  "rt_remove_associated_key X public_key_ptr =
     seq (value_from_mem X public_key_from_bytes public_key_ptr PUBLIC_KEY_SERIALIZED_LENGTH) (\<lambda>public_key.
       status_code (\<lambda>e. case e of RemoveKeyFailure f \<Rightarrow> Some (remove_key_failure_as_i32 f) | _ \<Rightarrow> None)
         (on_context (ctx_remove_associated_key X public_key)))"

definition rt_update_associated_key ::
    "('m, 'g, 'w, 'p, 'z) host_externals_scheme \<Rightarrow> u32 \<Rightarrow> u8 \<Rightarrow> ('m, 'g, 'w, 'p, i32) rt_exec" where
  "rt_update_associated_key X public_key_ptr weight_value =
     seq (value_from_mem X public_key_from_bytes public_key_ptr PUBLIC_KEY_SERIALIZED_LENGTH) (\<lambda>public_key.
       status_code (\<lambda>e. case e of UpdateKeyFailure f \<Rightarrow> Some (update_key_failure_as_i32 f) | _ \<Rightarrow> None)
         (on_context (ctx_update_associated_key X public_key weight_value)))"

text \<open>An error of the context becomes a trap of the interpreter.\<close>

definition host :: "('s, 'a, exec_error) exec \<Rightarrow> ('s, 'a, trap) exec" where
  "host m = zoom (\<lambda>s. s) (\<lambda>s _. s) Trap_Host m"

definition rt_set_action_threshold ::
    "('m, 'g, 'w, 'p, 'z) host_externals_scheme \<Rightarrow> u32 \<Rightarrow> u8 \<Rightarrow> ('m, 'g, 'w, 'p, i32) host_exec" where
  "rt_set_action_threshold X action_type_value threshold_value =
     (case action_type_try_from action_type_value of
        Ok action_type \<Rightarrow>
          host (status_code (\<lambda>e. case e of SetThresholdFailure f \<Rightarrow> Some (set_threshold_failure_as_i32 f) | _ \<Rightarrow> None)
            (on_context (ctx_set_action_threshold X action_type threshold_value)))
      | Err _ \<Rightarrow> throw Trap_Unreachable
      | Panic \<Rightarrow> panic)"

section \<open>The mint\<close>

fun args_parse :: "(cl_value, cl_value_error) result list \<Rightarrow> (cl_value list, cl_value_error) result" where
  "args_parse [] = Ok []"
| "args_parse (r # rs) = and_then r (\<lambda>v. and_then (args_parse rs) (\<lambda>vs. Ok (v # vs)))"

definition args_bytes :: "(cl_value, cl_value_error) result list \<Rightarrow> (bytes, exec_error) result" where
  "args_bytes args =
     and_then (map_err Exec_CLValue (args_parse args)) (\<lambda>vs. map_err Exec_BytesRepr (vec_cl_value_to_bytes vs))"

definition mint_create ::
    "('m, 'g, 'w, 'p, 'z) host_externals_scheme \<Rightarrow> key \<Rightarrow> ('m, 'g, 'w, 'p, purse_id) rt_exec" where
  "mint_create X mint_contract_key =
     seq (of_result (args_bytes [from_t str_to_bytes CL_String (str_lit ''create'')])) (\<lambda>args.
     seq (call_contract X mint_contract_key args) (\<lambda>result.
       of_result (map_err Exec_CLValue (into_t uref_from_bytes CL_URef result))))"

definition create_purse ::
    "('m, 'g, 'w, 'p, 'z) host_externals_scheme \<Rightarrow> ('m, 'g, 'w, 'p, purse_id) rt_exec" where
  "create_purse X = seq (gets get_mint_contract_uref) (\<lambda>mint. mint_create X (Key_URef mint))"

definition mint_transfer ::
    "('m, 'g, 'w, 'p, 'z) host_externals_scheme \<Rightarrow> key \<Rightarrow> purse_id \<Rightarrow> purse_id \<Rightarrow> U512 \<Rightarrow>
     ('m, 'g, 'w, 'p, unit) rt_exec" where
  "mint_transfer X mint_contract_key source target amount =
     seq (of_result (args_bytes [from_t str_to_bytes CL_String (str_lit ''transfer''),
       from_t uref_to_bytes CL_URef source, from_t uref_to_bytes CL_URef target,
       from_t u512_to_bytes CL_U512 amount])) (\<lambda>args.
     seq (call_contract X mint_contract_key args) (\<lambda>result.
     seq (of_result (map_err Exec_CLValue
         (into_t (result_from_bytes unit_from_bytes mint_error_from_bytes) (CL_Result CL_Unit CL_U8) result)))
       (\<lambda>r. case r of Inr _ \<Rightarrow> return () | Inl e \<Rightarrow> throw (SystemContractError (MintError e)))))"

definition get_balance ::
    "('m, 'g, 'w, 'p, 'z) host_externals_scheme \<Rightarrow> purse_id \<Rightarrow> ('m, 'g, 'w, 'p, U512 option) rt_exec" where
  "get_balance X purse_id =
     seq (gets (\<lambda>rt. addr (get_mint_contract_uref rt))) (\<lambda>seed.
     seq (of_result (map_err Exec_BytesRepr (array32_to_bytes (addr purse_id)))) (\<lambda>bs.
     seq (on_context (read_ls_with_seed X seed bs)) (\<lambda>value.
       case value of
         None \<Rightarrow> return None
       | Some cl_value \<Rightarrow>
           (case into_t key_from_bytes CL_Key cl_value of
              Ok (Key_URef uref) \<Rightarrow>
                seq (on_context (read_gs_direct X (Key_URef uref))) (\<lambda>stored.
                  case stored of
                    Some (SV_CLValue v) \<Rightarrow>
                      if cl_type v = CL_U512
                      then seq (of_result (map_err Exec_CLValue (into_t u512_from_bytes CL_U512 v))) (\<lambda>b. return (Some b))
                      else panic
                  | Some _ \<Rightarrow> panic
                  | None \<Rightarrow> return None)
            | _ \<Rightarrow> panic))))"

definition get_balance_host_buf ::
    "('m, 'g, 'w, 'p, 'z) host_externals_scheme \<Rightarrow> u32 \<Rightarrow> nat \<Rightarrow> u32 \<Rightarrow> ('m, 'g, 'w, 'p) api_exec" where
  "get_balance_host_buf X purse_id_ptr purse_id_size output_size_ptr =
     if_host_buf_free (
       seq (bytes_from_mem X purse_id_ptr purse_id_size) (\<lambda>bs.
         case deserialize purse_id_from_bytes bs of
           Err e \<Rightarrow> return (Inl (api_from_bytesrepr e))
         | Panic \<Rightarrow> panic
         | Ok purse_id \<Rightarrow>
             seq (get_balance X purse_id) (\<lambda>balance.
               case balance of
                 None \<Rightarrow> return (Inl Api_InvalidPurse)
               | Some b \<Rightarrow>
                   (case from_t u512_to_bytes CL_U512 b of
                      Ok cl_value \<Rightarrow> offer X cl_value output_size_ptr
                    | Err e \<Rightarrow> return (Inl (api_from_cl_value e))
                    | Panic \<Rightarrow> panic))))"

section \<open>Transfers\<close>

definition MINT_NAME :: rstring where "MINT_NAME = str_lit ''mint''"
definition POS_NAME :: rstring where "POS_NAME = str_lit ''pos''"

definition new_account :: "('m, 'g, 'w, 'p) runtime \<Rightarrow> array32 \<Rightarrow> purse_id \<Rightarrow> account" where
  "new_account rt target_addr target_purse_id =
     account_create target_addr
       (insert_all
         [(MINT_NAME, Key_URef (uref_new (addr (get_mint_contract_uref rt)) READ)),
          (POS_NAME, Key_URef (uref_new (addr (get_pos_contract_uref rt)) READ))] fmempty)
       target_purse_id"

definition transfer_to_new_account ::
    "('m, 'g, 'w, 'p, 'z) host_externals_scheme \<Rightarrow> purse_id \<Rightarrow> public_key \<Rightarrow> U512 \<Rightarrow>
     ('m, 'g, 'w, 'p, transfer_result) rt_exec" where
  "transfer_to_new_account X source target amount =
     seq (gets (\<lambda>rt. Key_URef (get_mint_contract_uref rt))) (\<lambda>mint_contract_key.
     seq (get_balance X source) (\<lambda>balance.
       if (case balance of Some b \<Rightarrow> b | None \<Rightarrow> 0) < amount then return (Inl Api_Transfer)
       else
         seq (mint_create X mint_contract_key) (\<lambda>target_purse_id.
           if source = target_purse_id then return (Inl Api_Transfer)
           else
             seq (attempt (mint_transfer X mint_contract_key source target_purse_id amount)) (\<lambda>r.
               case r of
                 Inl _ \<Rightarrow> return (Inl Api_Transfer)
               | Inr _ \<Rightarrow>
                   seq (gets (\<lambda>rt. new_account rt target target_purse_id)) (\<lambda>account.
                   seq (on_context (write_account (Key_Account target) account)) (\<lambda>_.
                     return (Inr NewAccount)))))))"

definition transfer_to_existing_account ::
    "('m, 'g, 'w, 'p, 'z) host_externals_scheme \<Rightarrow> purse_id \<Rightarrow> purse_id \<Rightarrow> U512 \<Rightarrow>
     ('m, 'g, 'w, 'p, transfer_result) rt_exec" where
  "transfer_to_existing_account X source target amount =
     seq (gets (\<lambda>rt. Key_URef (get_mint_contract_uref rt))) (\<lambda>mint_contract_key.
     seq (on_context (modify (insert_uref target))) (\<lambda>_.
     seq (attempt (mint_transfer X mint_contract_key source target amount)) (\<lambda>r.
       case r of
         Inr _ \<Rightarrow> return (Inr ExistingAccount)
       | Inl _ \<Rightarrow> return (Inl Api_Transfer))))"

definition transfer_from_purse_to_account ::
    "('m, 'g, 'w, 'p, 'z) host_externals_scheme \<Rightarrow> purse_id \<Rightarrow> public_key \<Rightarrow> U512 \<Rightarrow>
     ('m, 'g, 'w, 'p, transfer_result) rt_exec" where
  "transfer_from_purse_to_account X source target amount =
     seq (on_context (read_account X (Key_Account target))) (\<lambda>value.
       case value of
         None \<Rightarrow> transfer_to_new_account X source target amount
       | Some (SV_Account account) \<Rightarrow>
           let target_purse = purse_id_add_only account in
           if source = target_purse then return (Inr ExistingAccount)
           else transfer_to_existing_account X source target_purse amount
       | Some _ \<Rightarrow> throw (AccountNotFound (Key_Account target)))"

definition transfer_to_account ::
    "('m, 'g, 'w, 'p, 'z) host_externals_scheme \<Rightarrow> public_key \<Rightarrow> U512 \<Rightarrow> ('m, 'g, 'w, 'p, transfer_result) rt_exec" where
  "transfer_to_account X target amount =
     seq (probe (\<lambda>rt. get_main_purse (rt_context rt))) (\<lambda>source.
       transfer_from_purse_to_account X source target amount)"

definition transfer_from_purse_to_purse ::
    "('m, 'g, 'w, 'p, 'z) host_externals_scheme \<Rightarrow> u32 \<Rightarrow> u32 \<Rightarrow> u32 \<Rightarrow> u32 \<Rightarrow> u32 \<Rightarrow> u32 \<Rightarrow>
     ('m, 'g, 'w, 'p) api_exec" where
  "transfer_from_purse_to_purse X source_ptr source_len target_ptr target_len amount_ptr amount_size =
     seq (value_from_mem X purse_id_from_bytes source_ptr (unat source_len)) (\<lambda>source.
     seq (value_from_mem X purse_id_from_bytes target_ptr (unat target_len)) (\<lambda>target.
     seq (value_from_mem X u512_from_bytes amount_ptr (unat amount_size)) (\<lambda>amount.
     seq (gets (\<lambda>rt. Key_URef (get_mint_contract_uref rt))) (\<lambda>mint_contract_key.
     seq (attempt (mint_transfer X mint_contract_key source target amount)) (\<lambda>r.
       return (case r of Inr _ \<Rightarrow> Inr () | Inl _ \<Rightarrow> Inl Api_Transfer))))))"

section \<open>Upgrades and system contracts\<close>

definition rt_upgrade_contract_at_uref ::
    "('m, 'g, 'w, 'p, 'z) host_externals_scheme \<Rightarrow> u32 \<Rightarrow> u32 \<Rightarrow> u32 \<Rightarrow> u32 \<Rightarrow> ('m, 'g, 'w, 'p) api_exec" where
  "rt_upgrade_contract_at_uref X name_ptr name_size key_ptr key_size =
     seq (key_from_mem X key_ptr key_size) (\<lambda>key.
     seq (on_context (read_gs X key)) (\<lambda>value.
     seq (case value of
            None \<Rightarrow> throw (Exec_KeyNotFound key)
          | Some (SV_Contract contract) \<Rightarrow> return (con_named_keys contract)
          | Some _ \<Rightarrow> throw (FunctionNotFound (Not_A_Contract key))) (\<lambda>named_keys.
     seq (get_function_by_name X name_ptr name_size) (\<lambda>bs.
     seq (attempt (on_context (upgrade_contract_at_uref key bs named_keys))) (\<lambda>r.
       return (case r of Inr _ \<Rightarrow> Inr () | Inl _ \<Rightarrow> Inl Api_UpgradeContractAtURef))))))"

datatype system_contract_type = SC_Mint | SC_ProofOfStake

definition system_contract_type_try_from :: "u32 \<Rightarrow> api_error + system_contract_type" where
  "system_contract_type_try_from v =
     (if v = 0 then Inr SC_Mint else if v = 1 then Inr SC_ProofOfStake else Inl Api_InvalidSystemContract)"

definition get_system_contract ::
    "('m, 'g, 'w, 'p, 'z) host_externals_scheme \<Rightarrow> u32 \<Rightarrow> u32 \<Rightarrow> u32 \<Rightarrow> ('m, 'g, 'w, 'p) api_exec" where
  "get_system_contract X system_contract_index dest_ptr dest_size =
     (case system_contract_type_try_from system_contract_index of
        Inl e \<Rightarrow> return (Inl e)
      | Inr ty \<Rightarrow>
          seq (gets (case ty of SC_Mint \<Rightarrow> get_mint_contract_uref | SC_ProofOfStake \<Rightarrow> get_pos_contract_uref)) (\<lambda>uref.
          seq (of_result (map_err Exec_BytesRepr (uref_to_bytes uref))) (\<lambda>bs.
          seq (memory_set X dest_ptr bs) (\<lambda>_.
            return (Inr ())))))"

end
