(* ===== verification/Host_Dispatch.thy ===== *)
theory Host_Dispatch
  imports Host_Calls
begin

text \<open>
  The interface between a Wasm contract and the host: the functions that \<^verbatim>\<open>resolvers/v1_resolver.rs\<close> offers
  to a module with their signatures, the parsing of arguments (\<^verbatim>\<open>runtime/args.rs\<close>), and the dispatch of a
  call by its index (\<^verbatim>\<open>runtime/externals.rs\<close>).
\<close>

section \<open>Indices\<close>

datatype function_index =
    WriteFuncIndex | WriteLocalFuncIndex | ReadFuncIndex | ReadLocalFuncIndex | AddFuncIndex
  | AddLocalFuncIndex | NewFuncIndex | RetFuncIndex | CallContractFuncIndex | GetArgFuncIndex
  | GetKeyFuncIndex | GasFuncIndex | HasKeyFuncIndex | PutKeyFuncIndex | StoreFnIndex
  | StoreFnAtHashIndex | IsValidURefFnIndex | RevertFuncIndex | AddAssociatedKeyFuncIndex
  | RemoveAssociatedKeyFuncIndex | UpdateAssociatedKeyFuncIndex | SetActionThresholdFuncIndex
  | LoadNamedKeysFuncIndex | RemoveKeyFuncIndex | GetCallerIndex | GetBlocktimeIndex
  | CreatePurseIndex | TransferToAccountIndex | TransferFromPurseToAccountIndex
  | TransferFromPurseToPurseIndex | GetBalanceIndex | GetPhaseIndex | UpgradeContractAtURefIndex
  | GetSystemContractIndex | GetMainPurseIndex | GetArgSizeFuncIndex | ReadHostBufferIndex

text \<open>The constructors in the order of the source, which is the order of their numbers.\<close>

definition function_indices :: "function_index list" where
  "function_indices =
    [WriteFuncIndex, WriteLocalFuncIndex, ReadFuncIndex, ReadLocalFuncIndex, AddFuncIndex,
     AddLocalFuncIndex, NewFuncIndex, RetFuncIndex, CallContractFuncIndex, GetArgFuncIndex,
     GetKeyFuncIndex, GasFuncIndex, HasKeyFuncIndex, PutKeyFuncIndex, StoreFnIndex,
     StoreFnAtHashIndex, IsValidURefFnIndex, RevertFuncIndex, AddAssociatedKeyFuncIndex,
     RemoveAssociatedKeyFuncIndex, UpdateAssociatedKeyFuncIndex, SetActionThresholdFuncIndex,
     LoadNamedKeysFuncIndex, RemoveKeyFuncIndex, GetCallerIndex, GetBlocktimeIndex,
     CreatePurseIndex, TransferToAccountIndex, TransferFromPurseToAccountIndex,
     TransferFromPurseToPurseIndex, GetBalanceIndex, GetPhaseIndex, UpgradeContractAtURefIndex,
     GetSystemContractIndex, GetMainPurseIndex, GetArgSizeFuncIndex, ReadHostBufferIndex]"

definition function_index_try_from :: "nat \<Rightarrow> function_index option" where
  "function_index_try_from n = (if n < length function_indices then Some (function_indices ! n) else None)"

definition function_index_into :: "function_index \<Rightarrow> nat" where
  "function_index_into f = the (index_of f function_indices)"

section \<open>Signatures\<close>

text \<open>The number of parameters, all of type \<^verbatim>\<open>I32\<close>, whether there is a result of type \<^verbatim>\<open>I32\<close>, and the index.\<close>

definition host_functions :: "(string \<times> nat \<times> bool \<times> function_index) list" where
  "host_functions =
    [(''read_value'', 3, True, ReadFuncIndex),
     (''read_value_local'', 3, True, ReadLocalFuncIndex),
     (''load_named_keys'', 2, True, LoadNamedKeysFuncIndex),
     (''write'', 4, False, WriteFuncIndex),
     (''write_local'', 4, False, WriteLocalFuncIndex),
     (''add'', 4, False, AddFuncIndex),
     (''add_local'', 4, False, AddLocalFuncIndex),
     (''new_uref'', 3, False, NewFuncIndex),
     (''get_arg_size'', 2, True, GetArgSizeFuncIndex),
     (''get_arg'', 3, True, GetArgFuncIndex),
     (''ret'', 2, False, RetFuncIndex),
     (''call_contract'', 5, True, CallContractFuncIndex),
     (''get_key'', 5, True, GetKeyFuncIndex),
     (''has_key'', 2, True, HasKeyFuncIndex),
     (''put_key'', 4, False, PutKeyFuncIndex),
     (''gas'', 1, False, GasFuncIndex),
     (''store_function'', 5, False, StoreFnIndex),
     (''store_function_at_hash'', 5, False, StoreFnAtHashIndex),
     (''is_valid_uref'', 2, True, IsValidURefFnIndex),
     (''revert'', 1, False, RevertFuncIndex),
     (''add_associated_key'', 2, True, AddAssociatedKeyFuncIndex),
     (''remove_associated_key'', 1, True, RemoveAssociatedKeyFuncIndex),
     (''update_associated_key'', 2, True, UpdateAssociatedKeyFuncIndex),
     (''set_action_threshold'', 2, True, SetActionThresholdFuncIndex),
     (''remove_key'', 2, False, RemoveKeyFuncIndex),
     (''get_caller'', 1, False, GetCallerIndex),
     (''get_blocktime'', 1, False, GetBlocktimeIndex),
     (''create_purse'', 2, True, CreatePurseIndex),
     (''transfer_to_account'', 4, True, TransferToAccountIndex),
     (''transfer_from_purse_to_account'', 6, True, TransferFromPurseToAccountIndex),
     (''transfer_from_purse_to_purse'', 6, True, TransferFromPurseToPurseIndex),
     (''get_balance'', 3, True, GetBalanceIndex),
     (''get_phase'', 1, False, GetPhaseIndex),
     (''upgrade_contract_at_uref'', 4, True, UpgradeContractAtURefIndex),
     (''get_system_contract'', 3, True, GetSystemContractIndex),
     (''get_main_purse'', 1, False, GetMainPurseIndex),
     (''read_host_buffer'', 3, True, ReadHostBufferIndex)]"

definition resolve_func :: "string \<Rightarrow> (nat \<times> bool \<times> nat) option" where
  "resolve_func field_name =
     map_option (\<lambda>(n, result, f). (n, result, function_index_into f)) (map_of host_functions field_name)"

definition max_memory :: u32 where "max_memory = 64"

text \<open>The checks of \<^verbatim>\<open>resolve_memory\<close> on the name and the initial and maximal number of pages.\<close>

definition resolve_memory :: "string \<Rightarrow> u32 \<Rightarrow> u32 option \<Rightarrow> bool" where
  "resolve_memory field_name initial maximum =
     (field_name = ''memory'' \<and>
      (let effective_max = (case maximum of Some m \<Rightarrow> m | None \<Rightarrow> max_memory + 1)
       in \<not> (initial > max_memory \<or> effective_max > max_memory)))"

section \<open>Arguments\<close>

definition parse1 :: "('m, 'g, 'w, 'p, 'z) host_externals_scheme \<Rightarrow> runtime_value list \<Rightarrow> (u32, trap) result" where
  "parse1 X args = nth_u32 X args 0"

definition parse2 ::
    "('m, 'g, 'w, 'p, 'z) host_externals_scheme \<Rightarrow> runtime_value list \<Rightarrow> (u32 \<times> u32, trap) result" where
  "parse2 X args =
     and_then (nth_u32 X args 0) (\<lambda>a0. and_then (nth_u32 X args 1) (\<lambda>a1. Ok (a0, a1)))"

definition parse2_u8 ::
    "('m, 'g, 'w, 'p, 'z) host_externals_scheme \<Rightarrow> runtime_value list \<Rightarrow> (u32 \<times> u8, trap) result" where
  "parse2_u8 X args =
     and_then (nth_u32 X args 0) (\<lambda>a0. and_then (nth_u8 X args 1) (\<lambda>a1. Ok (a0, a1)))"

definition parse3 ::
    "('m, 'g, 'w, 'p, 'z) host_externals_scheme \<Rightarrow> runtime_value list \<Rightarrow> (u32 \<times> u32 \<times> u32, trap) result" where
  "parse3 X args =
     and_then (nth_u32 X args 0) (\<lambda>a0. and_then (nth_u32 X args 1) (\<lambda>a1.
     and_then (nth_u32 X args 2) (\<lambda>a2. Ok (a0, a1, a2))))"

definition parse4 ::
    "('m, 'g, 'w, 'p, 'z) host_externals_scheme \<Rightarrow> runtime_value list \<Rightarrow> (u32 \<times> u32 \<times> u32 \<times> u32, trap) result" where
  "parse4 X args =
     and_then (nth_u32 X args 0) (\<lambda>a0. and_then (nth_u32 X args 1) (\<lambda>a1.
     and_then (nth_u32 X args 2) (\<lambda>a2. and_then (nth_u32 X args 3) (\<lambda>a3. Ok (a0, a1, a2, a3)))))"

definition parse5 ::
    "('m, 'g, 'w, 'p, 'z) host_externals_scheme \<Rightarrow> runtime_value list \<Rightarrow>
     (u32 \<times> u32 \<times> u32 \<times> u32 \<times> u32, trap) result" where
  "parse5 X args =
     and_then (nth_u32 X args 0) (\<lambda>a0. and_then (nth_u32 X args 1) (\<lambda>a1.
     and_then (nth_u32 X args 2) (\<lambda>a2. and_then (nth_u32 X args 3) (\<lambda>a3.
     and_then (nth_u32 X args 4) (\<lambda>a4. Ok (a0, a1, a2, a3, a4))))))"

definition parse6 ::
    "('m, 'g, 'w, 'p, 'z) host_externals_scheme \<Rightarrow> runtime_value list \<Rightarrow>
     (u32 \<times> u32 \<times> u32 \<times> u32 \<times> u32 \<times> u32, trap) result" where
  "parse6 X args =
     and_then (nth_u32 X args 0) (\<lambda>a0. and_then (nth_u32 X args 1) (\<lambda>a1.
     and_then (nth_u32 X args 2) (\<lambda>a2. and_then (nth_u32 X args 3) (\<lambda>a3.
     and_then (nth_u32 X args 4) (\<lambda>a4. and_then (nth_u32 X args 5) (\<lambda>a5. Ok (a0, a1, a2, a3, a4, a5)))))))"

section \<open>Dispatch\<close>

text \<open>How the result of a host function is returned: nothing, the code of an API result, or a number.\<close>

definition returns_nothing ::
    "('m, 'g, 'w, 'p, unit) rt_exec \<Rightarrow> ('m, 'g, 'w, 'p, runtime_value option) host_exec" where
  "returns_nothing m = seq (host m) (\<lambda>_. return None)"

definition returns_api ::
    "('m, 'g, 'w, 'p) api_exec \<Rightarrow> ('m, 'g, 'w, 'p, runtime_value option) host_exec" where
  "returns_api m = seq (host m) (\<lambda>r. return (Some (RV_I32 (i32_from r))))"

definition returns_i32 ::
    "('m, 'g, 'w, 'p, i32) host_exec \<Rightarrow> ('m, 'g, 'w, 'p, runtime_value option) host_exec" where
  "returns_i32 m = seq m (\<lambda>r. return (Some (RV_I32 r)))"

definition store_fn ::
    "('m, 'g, 'w, 'p, 'z) host_externals_scheme \<Rightarrow>
     (bytes \<Rightarrow> named_keys \<Rightarrow> ('m, 'g, 'w, 'p, array32) rt_exec) \<Rightarrow> u32 \<Rightarrow> u32 \<Rightarrow> u32 \<Rightarrow> u32 \<Rightarrow> u32 \<Rightarrow>
     ('m, 'g, 'w, 'p, unit) rt_exec" where
  "store_fn X store name_ptr name_size urefs_ptr urefs_size hash_ptr =
     seq (get_function_by_name X name_ptr name_size) (\<lambda>fn_bytes.
     seq (value_from_mem X (btree_from_bytes string_from_bytes key_from_bytes) urefs_ptr (unat urefs_size)) (\<lambda>urefs.
     seq (store fn_bytes urefs) (\<lambda>contract_hash.
       rt_function_address X contract_hash hash_ptr)))"

definition host_create_purse ::
    "('m, 'g, 'w, 'p, 'z) host_externals_scheme \<Rightarrow> u32 \<Rightarrow> u32 \<Rightarrow> ('m, 'g, 'w, 'p, i32) rt_exec" where
  "host_create_purse X dest_ptr dest_size =
     seq (create_purse X) (\<lambda>purse_id.
     seq (of_result (map_err Exec_BytesRepr (purse_id_to_bytes purse_id))) (\<lambda>bs.
       if dest_size \<noteq> word_of_nat (length bs) then panic
       else seq (memory_set X dest_ptr bs) (\<lambda>_. return 0)))"

definition host_transfer_to_account ::
    "('m, 'g, 'w, 'p, 'z) host_externals_scheme \<Rightarrow> u32 \<Rightarrow> u32 \<Rightarrow> u32 \<Rightarrow> u32 \<Rightarrow> ('m, 'g, 'w, 'p, i32) rt_exec" where
  "host_transfer_to_account X key_ptr key_size amount_ptr amount_size =
     seq (value_from_mem X public_key_from_bytes key_ptr (unat key_size)) (\<lambda>public_key.
     seq (value_from_mem X u512_from_bytes amount_ptr (unat amount_size)) (\<lambda>amount.
     seq (transfer_to_account X public_key amount) (\<lambda>ret.
       return (transfer_i32_from ret))))"

definition host_transfer_from_purse_to_account ::
    "('m, 'g, 'w, 'p, 'z) host_externals_scheme \<Rightarrow> u32 \<Rightarrow> u32 \<Rightarrow> u32 \<Rightarrow> u32 \<Rightarrow> u32 \<Rightarrow> u32 \<Rightarrow>
     ('m, 'g, 'w, 'p, i32) rt_exec" where
  "host_transfer_from_purse_to_account X source_ptr source_len key_ptr key_size amount_ptr amount_size =
     seq (value_from_mem X purse_id_from_bytes source_ptr (unat source_len)) (\<lambda>source_purse.
     seq (value_from_mem X public_key_from_bytes key_ptr (unat key_size)) (\<lambda>public_key.
     seq (value_from_mem X u512_from_bytes amount_ptr (unat amount_size)) (\<lambda>amount.
     seq (transfer_from_purse_to_account X source_purse public_key amount) (\<lambda>ret.
       return (transfer_i32_from ret)))))"

fun run_function ::
    "('m, 'g, 'w, 'p, 'z) host_externals_scheme \<Rightarrow> function_index \<Rightarrow> runtime_value list \<Rightarrow>
     ('m, 'g, 'w, 'p, runtime_value option) host_exec" where
  "run_function X ReadFuncIndex args = seq (of_result (parse3 X args)) (\<lambda>(key_ptr, key_size, output_size_ptr).
     returns_api (rt_read X key_ptr key_size output_size_ptr))"
| "run_function X ReadLocalFuncIndex args = seq (of_result (parse3 X args)) (\<lambda>(key_ptr, key_size, output_size_ptr).
     returns_api (read_local X key_ptr key_size output_size_ptr))"
| "run_function X LoadNamedKeysFuncIndex args = seq (of_result (parse2 X args)) (\<lambda>(total_keys_ptr, result_size_ptr).
     returns_api (load_named_keys X total_keys_ptr result_size_ptr))"
| "run_function X WriteFuncIndex args = seq (of_result (parse4 X args)) (\<lambda>(key_ptr, key_size, value_ptr, value_size).
     returns_nothing (rt_write X key_ptr key_size value_ptr value_size))"
| "run_function X WriteLocalFuncIndex args = seq (of_result (parse4 X args)) (\<lambda>(key_ptr, key_size, value_ptr, value_size).
     returns_nothing (write_local X key_ptr key_size value_ptr value_size))"
| "run_function X AddFuncIndex args = seq (of_result (parse4 X args)) (\<lambda>(key_ptr, key_size, value_ptr, value_size).
     returns_nothing (rt_add X key_ptr key_size value_ptr value_size))"
| "run_function X AddLocalFuncIndex args = seq (of_result (parse4 X args)) (\<lambda>(key_ptr, key_size, value_ptr, value_size).
     returns_nothing (add_local X key_ptr key_size value_ptr value_size))"
| "run_function X NewFuncIndex args = seq (of_result (parse3 X args)) (\<lambda>(key_ptr, value_ptr, value_size).
     returns_nothing (rt_new_uref X key_ptr value_ptr value_size))"
| "run_function X GetArgSizeFuncIndex args = seq (of_result (parse2 X args)) (\<lambda>(index, size_ptr).
     returns_api (get_arg_size X (unat index) size_ptr))"
| "run_function X GetArgFuncIndex args = seq (of_result (parse3 X args)) (\<lambda>(index, dest_ptr, dest_size).
     returns_api (get_arg X (unat index) dest_ptr (unat dest_size)))"
| "run_function X RetFuncIndex args = seq (of_result (parse2 X args)) (\<lambda>(value_ptr, value_size).
     host (ret X value_ptr (unat value_size)))"
| "run_function X CallContractFuncIndex args =
     seq (of_result (parse5 X args)) (\<lambda>(key_ptr, key_size, args_ptr, args_size, result_size_ptr).
     returns_api (
       seq (key_from_mem X key_ptr key_size) (\<lambda>key_contract.
       seq (bytes_from_mem X args_ptr (unat args_size)) (\<lambda>args_bytes.
         call_contract_host_buf X key_contract args_bytes result_size_ptr))))"
| "run_function X GetKeyFuncIndex args =
     seq (of_result (parse5 X args)) (\<lambda>(name_ptr, name_size, output_ptr, output_size, bytes_written).
     returns_api (load_key X name_ptr name_size output_ptr (unat output_size) bytes_written))"
| "run_function X HasKeyFuncIndex args = seq (of_result (parse2 X args)) (\<lambda>(name_ptr, name_size).
     returns_i32 (host (has_key X name_ptr name_size)))"
| "run_function X PutKeyFuncIndex args = seq (of_result (parse4 X args)) (\<lambda>(name_ptr, name_size, key_ptr, key_size).
     returns_nothing (rt_put_key X name_ptr name_size key_ptr key_size))"
| "run_function X RemoveKeyFuncIndex args = seq (of_result (parse2 X args)) (\<lambda>(name_ptr, name_size).
     returns_nothing (rt_remove_key X name_ptr name_size))"
| "run_function X GetCallerIndex args = seq (of_result (parse1 X args)) (\<lambda>dest_ptr.
     returns_nothing (rt_get_caller X dest_ptr))"
| "run_function X GetBlocktimeIndex args = seq (of_result (parse1 X args)) (\<lambda>dest_ptr.
     returns_nothing (get_blocktime X dest_ptr))"
| "run_function X GasFuncIndex args = seq (of_result (parse1 X args)) (\<lambda>gas_arg.
     returns_nothing (rt_gas (Gas (ucast gas_arg))))"
| "run_function X StoreFnIndex args =
     seq (of_result (parse5 X args)) (\<lambda>(name_ptr, name_size, urefs_ptr, urefs_size, hash_ptr).
     returns_nothing (store_fn X (rt_store_function X) name_ptr name_size urefs_ptr urefs_size hash_ptr))"
| "run_function X StoreFnAtHashIndex args =
     seq (of_result (parse5 X args)) (\<lambda>(name_ptr, name_size, urefs_ptr, urefs_size, hash_ptr).
     returns_nothing (store_fn X (rt_store_function_at_hash X) name_ptr name_size urefs_ptr urefs_size hash_ptr))"
| "run_function X IsValidURefFnIndex args = seq (of_result (parse2 X args)) (\<lambda>(uref_ptr, uref_size).
     returns_i32 (host (seq (is_valid_uref X uref_ptr uref_size) (\<lambda>b. return (if b then 1 else 0)))))"
| "run_function X RevertFuncIndex args = seq (of_result (parse1 X args)) (\<lambda>status. host (revert status))"
| "run_function X AddAssociatedKeyFuncIndex args = seq (of_result (parse2_u8 X args)) (\<lambda>(public_key_ptr, weight_value).
     returns_i32 (host (rt_add_associated_key X public_key_ptr weight_value)))"
| "run_function X RemoveAssociatedKeyFuncIndex args = seq (of_result (parse1 X args)) (\<lambda>public_key_ptr.
     returns_i32 (host (rt_remove_associated_key X public_key_ptr)))"
| "run_function X UpdateAssociatedKeyFuncIndex args = seq (of_result (parse2_u8 X args)) (\<lambda>(public_key_ptr, weight_value).
     returns_i32 (host (rt_update_associated_key X public_key_ptr weight_value)))"
| "run_function X SetActionThresholdFuncIndex args =
     seq (of_result (parse2_u8 X args)) (\<lambda>(action_type_value, threshold_value).
     returns_i32 (rt_set_action_threshold X action_type_value threshold_value))"
| "run_function X CreatePurseIndex args = seq (of_result (parse2 X args)) (\<lambda>(dest_ptr, dest_size).
     returns_i32 (host (host_create_purse X dest_ptr dest_size)))"
| "run_function X TransferToAccountIndex args =
     seq (of_result (parse4 X args)) (\<lambda>(key_ptr, key_size, amount_ptr, amount_size).
     returns_i32 (host (host_transfer_to_account X key_ptr key_size amount_ptr amount_size)))"
| "run_function X TransferFromPurseToAccountIndex args =
     seq (of_result (parse6 X args)) (\<lambda>(source_ptr, source_len, key_ptr, key_size, amount_ptr, amount_size).
     returns_i32 (host (host_transfer_from_purse_to_account X source_ptr source_len key_ptr key_size
       amount_ptr amount_size)))"
| "run_function X TransferFromPurseToPurseIndex args =
     seq (of_result (parse6 X args)) (\<lambda>(source_ptr, source_len, target_ptr, target_len, amount_ptr, amount_size).
     returns_api (transfer_from_purse_to_purse X source_ptr source_len target_ptr target_len amount_ptr amount_size))"
| "run_function X GetBalanceIndex args = seq (of_result (parse3 X args)) (\<lambda>(ptr, ptr_size, output_size_ptr).
     returns_api (get_balance_host_buf X ptr (unat ptr_size) output_size_ptr))"
| "run_function X GetPhaseIndex args = seq (of_result (parse1 X args)) (\<lambda>dest_ptr.
     returns_nothing (get_phase X dest_ptr))"
| "run_function X UpgradeContractAtURefIndex args =
     seq (of_result (parse4 X args)) (\<lambda>(name_ptr, name_size, key_ptr, key_size).
     returns_api (rt_upgrade_contract_at_uref X name_ptr name_size key_ptr key_size))"
| "run_function X GetSystemContractIndex args =
     seq (of_result (parse3 X args)) (\<lambda>(system_contract_index, dest_ptr, dest_size).
     returns_api (get_system_contract X system_contract_index dest_ptr dest_size))"
| "run_function X GetMainPurseIndex args = seq (of_result (parse1 X args)) (\<lambda>dest_ptr.
     returns_nothing (rt_get_main_purse X dest_ptr))"
| "run_function X ReadHostBufferIndex args =
     seq (of_result (parse3 X args)) (\<lambda>(dest_ptr, dest_size, bytes_written_ptr).
     returns_api (read_host_buffer X dest_ptr (unat dest_size) bytes_written_ptr))"

definition invoke_index ::
    "('m, 'g, 'w, 'p, 'z) host_externals_scheme \<Rightarrow> nat \<Rightarrow> runtime_value list \<Rightarrow>
     ('m, 'g, 'w, 'p, runtime_value option) host_exec" where
  "invoke_index X index args =
     (case function_index_try_from index of None \<Rightarrow> panic | Some func \<Rightarrow> run_function X func args)"

end
