(* ===== verification/Commit_Props.thy ===== *)
theory Commit_Props
  imports Global_State
begin

text \<open>
  The properties of the global state: reading, writing and committing on the in-memory store, and the
  concrete state they are checked on. The example uses a hash that tells apart the elements of a trie with
  one leaf.
\<close>

section \<open>The empty state\<close>

lemma trie_get_empty_db: "txn n = None \<Longrightarrow> trie_get n txn x = Ok None"
  by (simp add: trie_get_def store_get_def txn_read_def blake2b_to_bytes_def array32_to_bytes_def)

lemma txn_view_put:
  "trie_ok t \<Longrightarrow> trie_ser t = Ok b \<Longrightarrow>
   txn_view n (snd (trie_put n txn x t)) = (txn_view n txn)(x \<mapsto> t)"
  by (rule ext) (simp add: txn_view_def trie_get_put)

lemma single_state:
  fixes H :: "bytes \<Rightarrow> blake2b_hash"
  assumes "trie_ser (Node pointer_block_new) = Ok b" "txn n = None"
  defines "txn' \<equiv> snd (trie_put n txn (H b) (Node pointer_block_new))"
  shows "store_ok H n txn'" "state_at n txn' (H b) Map.empty"
    "txn_view n txn' = [H b \<mapsto> Node pointer_block_new]" "fst (trie_put n txn (H b) (Node pointer_block_new)) = Ok ()"
proof -
  have ok: "trie_ok (Node pointer_block_new)" by (simp add: trie_valid_def)
  have "txn_view n txn = Map.empty" by (rule ext) (simp add: txn_view_def trie_get_empty_db [where txn = txn and n = n, OF assms(2)])
  then show v: "txn_view n txn' = [H b \<mapsto> Node pointer_block_new]"
    using txn_view_put [OF ok assms(1)] by (simp add: txn'_def)
  have "txn_inv n txn'"
    by (simp add: txn'_def txn_inv_def trie_get_put [OF ok assms(1)] trie_get_empty_db [where txn = txn and n = n, OF assms(2)])
  then show "store_ok H n txn'"
    using assms(1) by (simp add: store_ok_def hash_ok_def v)
  show "state_at n txn' (H b) Map.empty"
    unfolding state_at_def v using trie_repr_empty by auto
  show "fst (trie_put n txn (H b) (Node pointer_block_new)) = Ok ()"
    using assms(1) by (simp add: trie_put_def store_put_Ok blake2b_to_bytes_def array32_to_bytes_def)
qed

lemma global_state_empty_Ok:
  obtains gs b where "global_state_empty H = Ok gs" "trie_ser (Node pointer_block_new) = Ok b"
    "gs_empty_root_hash gs = H b" "gs_trie_store gs = trie_store_handle None"
    "env_ok H (gs_trie_store gs) (gs_environment gs)"
    "state_at (gs_trie_store gs) (env_data (gs_environment gs)) (gs_empty_root_hash gs) Map.empty"
    "txn_view (gs_trie_store gs) (env_data (gs_environment gs)) = [H b \<mapsto> Node pointer_block_new]"
    "gs_protocol_data_store gs = protocol_data_store_handle None"
proof -
  let ?n = "trie_store_handle None" and ?d = "env_data environment_new"
  obtain b where b: "trie_ser (Node pointer_block_new) = Ok b" using node_to_bytes_Ok by blast
  have none: "?d ?n = None" by (simp add: environment_new_def trie_store_handle_def)
  let ?txn = "snd (trie_put ?n ?d (H b) (Node pointer_block_new))"
  note st = single_state [where n = ?n and txn = ?d and H = H, OF b none]
  let ?env = "environment_new\<lparr>env_data := ?d ++ ?txn\<rparr>"
  have same: "env_data ?env ?n = ?txn ?n" using state_at_dom [OF st(2)] by (auto simp: map_add_def)
  note cong = txn_cong [where n = ?n and txn = "env_data ?env" and txn' = ?txn, OF same]
  have "global_state_empty H = Ok \<lparr>gs_environment = ?env, gs_trie_store = ?n,
      gs_protocol_data_store = protocol_data_store_handle None, gs_empty_root_hash = H b\<rparr>"
    using b st(4)
    by (simp add: global_state_empty_def create_hashed_empty_trie_def Let_def create_read_write_txn_def
        txn_commit_def environment_new_def case_prod_beta)
  then show ?thesis
    using that [OF _ b] st(1,2,3) cong by (simp add: env_ok_def environment_new_def)
qed

section \<open>The first write\<close>

lemma first_write_elements:
  assumes "store_ok H n txn" "txn_view n txn = [root \<mapsto> Node pointer_block_new]" "trie_ser (Leaf k v) = Ok b"
  shows "mem_write_elements H n txn root k v =
    [Leaf k v, Node (pointer_block_new(key_bytes k ! 0 := Some (LeafPointer (H b))))]"
proof -
  let ?nd = "Node (pointer_block_new(key_bytes k ! 0 := Some (LeafPointer (H b)))) :: (key, stored_value) trie"
  have get: "trie_get n txn root = Ok (Some (Node pointer_block_new))"
    using mem.get_view [of n txn root] assms(1,2) by (simp add: store_ok_def)
  have scan: "scan (trie_get n txn) (key_bytes k) (Node pointer_block_new) = Some (Ok (Node pointer_block_new, []))"
    unfolding scan_def by (subst scan_loop.simps) (simp add: pointer_block_new_def)
  obtain c where c: "trie_ser ?nd = Ok c" using node_to_bytes_Ok by blast
  have add: "add_node_to_parents (key_bytes k) (Node pointer_block_new) [] =
      Ok [(key_bytes k ! 0, Node pointer_block_new :: (key, stored_value) trie)]"
    by (simp add: add_node_to_parents_def)
  show ?thesis
    using get scan assms(3) c
    by (simp add: mem_write_elements_def write_elements_def key_to_bytes_eq new_elements_def add rehash_def)
qed

section \<open>An example\<close>

definition example_hash :: "bytes \<Rightarrow> blake2b_hash" where
  "example_hash bs = array32_fill (bs ! 0 + 2 * bs ! 8)"

definition example_key :: key where
  "example_key = Key_Account (array32_fill 0)"

definition example_value :: stored_value where
  "example_value = SV_CLValue (CLValue CL_U8 [5])"

lemma to_le_bytes_4: "to_le_bytes 4 (0 :: u32) = [0, 0, 0, 0]" "to_le_bytes 4 (1 :: u32) = [1, 0, 0, 0]"
proof -
  have "(4 :: nat) = Suc (Suc (Suc (Suc 0)))" by simp
  then show "to_le_bytes 4 (0 :: u32) = [0, 0, 0, 0]" "to_le_bytes 4 (1 :: u32) = [1, 0, 0, 0]"
    by (simp_all only: to_le_bytes_def nat_to_le.simps) simp_all
qed

lemma node_bytes_nth:
  assumes "trie_ser (Node pb) = Ok b"
  shows "b ! 0 = 1" "b ! 8 = (if pb 0 = None then 0 else 1)"
proof -
  obtain xs where xs: "block_list pb = pb 0 # xs" by (simp add: block_list_def RADIX_def upt_conv_Cons)
  obtain c1 c2 where c: "option_to_bytes pointer_to_bytes (pb 0) = Ok c1"
    "b = [1, 0, 0, 0] @ len_prefix RADIX @ c1 @ c2"
    using assms
    by (auto simp: trie_to_bytes_def pointer_block_to_bytes_def array_to_bytes_def xs result_simps
        to_le_bytes_4 split: if_splits)
  have "c1 \<noteq> [] \<and> hd c1 = (if pb 0 = None then 0 else 1)"
    using c(1) by (cases "pb 0") (auto simp: result_simps split: if_splits)
  then show "b ! 0 = 1" "b ! 8 = (if pb 0 = None then 0 else 1)"
    using c(2) by (auto simp: nth_append neq_Nil_conv nth_Cons')
qed

lemma example_leaf:
  obtains b where "trie_ser (Leaf example_key example_value) = Ok b" "b ! 0 = 0" "b ! 8 = 0"
proof -
  obtain vb where v: "stored_value_to_bytes example_value = Ok vb" "length vb \<le> 100"
    by (simp add: example_value_def tagged_to_bytes_def cl_value_to_bytes_def vec_u8_to_bytes_def append_bytes_eq)
  have "trie_ser (Leaf example_key example_value) = Ok ([0, 0, 0, 0] @ (0 # replicate 32 0) @ vb)"
    using v by (simp add: trie_to_bytes_def key_to_bytes_eq example_key_def to_le_bytes_4)
  then show ?thesis using that by (simp add: nth_append nth_Cons')
qed

lemma example_storable: "storable example_key example_value"
proof -
  obtain b where "trie_ser (Leaf example_key example_value) = Ok b" by (rule example_leaf)
  then show ?thesis by (simp add: storable_def stored_value_valid_def example_value_def)
qed

abbreviation example_effects :: "(key \<times> transform) list" where
  "example_effects \<equiv> [(example_key, Write example_value)]"

lemma example_inj:
  assumes "trie_ser (Leaf example_key example_value) = Ok b"
  shows "inj_on (trie_hash example_hash trie_ser)
    {Node pointer_block_new, Leaf example_key example_value,
     Node (pointer_block_new(key_bytes example_key ! 0 := Some (LeafPointer (example_hash b))))}"
proof -
  let ?pb = "pointer_block_new(key_bytes example_key ! 0 := Some (LeafPointer (example_hash b)))"
  have z: "key_bytes example_key ! 0 = 0" by (simp add: example_key_def)
  obtain b0 where b0: "trie_ser (Node pointer_block_new) = Ok b0" using node_to_bytes_Ok by blast
  obtain b1 where b1: "trie_ser (Node ?pb) = Ok b1" using node_to_bytes_Ok by blast
  have "b ! 0 = 0" "b ! 8 = 0" using assms by (auto intro: example_leaf)
  then have "trie_hash example_hash trie_ser (Leaf example_key example_value) = array32_fill 0"
    using assms by (simp add: example_hash_def)
  moreover have "trie_hash example_hash trie_ser (Node pointer_block_new) = array32_fill 1"
    using b0 node_bytes_nth [OF b0] by (simp add: example_hash_def pointer_block_new_def)
  moreover have "trie_hash example_hash trie_ser (Node ?pb) = array32_fill 3"
    using b1 node_bytes_nth [OF b1] by (simp add: example_hash_def z)
  ultimately show ?thesis by (simp add: inj_on_def)
qed

definition example_gs :: global_state where
  "example_gs = (case global_state_empty example_hash of
      Ok gs \<Rightarrow> gs
    | _ \<Rightarrow> \<lparr>gs_environment = environment_new, gs_trie_store = None, gs_protocol_data_store = None,
           gs_empty_root_hash = array32_fill 0\<rparr>)"

abbreviation example_n :: handle where "example_n \<equiv> gs_trie_store example_gs"
abbreviation example_env :: in_memory_environment where "example_env \<equiv> gs_environment example_gs"
abbreviation example_root :: blake2b_hash where "example_root \<equiv> gs_empty_root_hash example_gs"

lemma example_state:
  "global_state_empty example_hash = Ok example_gs"
  "env_ok example_hash example_n example_env"
  "store_ok example_hash example_n (env_data example_env)"
  "state_at example_n (env_data example_env) example_root Map.empty"
  "inj_on (trie_hash example_hash trie_ser) (store_elements example_n (env_data example_env) \<union>
     set (mem_write_elements example_hash example_n (env_data example_env) example_root example_key example_value))"
proof -
  obtain gs b where gs: "global_state_empty example_hash = Ok gs" "trie_ser (Node pointer_block_new) = Ok b"
    "gs_empty_root_hash gs = example_hash b" "env_ok example_hash (gs_trie_store gs) (gs_environment gs)"
    "state_at (gs_trie_store gs) (env_data (gs_environment gs)) (gs_empty_root_hash gs) Map.empty"
    "txn_view (gs_trie_store gs) (env_data (gs_environment gs)) = [example_hash b \<mapsto> Node pointer_block_new]"
    by (rule global_state_empty_Ok)
  have eq: "gs = example_gs" using gs(1) by (simp add: example_gs_def)
  show ok: "store_ok example_hash example_n (env_data example_env)" using gs(4) by (simp add: env_ok_def eq)
  obtain c where c: "trie_ser (Leaf example_key example_value) = Ok c" by (rule example_leaf)
  have "mem_write_elements example_hash example_n (env_data example_env) example_root example_key example_value =
      [Leaf example_key example_value,
       Node (pointer_block_new(key_bytes example_key ! 0 := Some (LeafPointer (example_hash c))))]"
    using first_write_elements [OF ok _ c, of example_root] gs(3,6) by (simp add: eq)
  moreover have "store_elements example_n (env_data example_env) = {Node pointer_block_new}"
    using gs(6) by (simp add: store_elements_def eq)
  ultimately show "inj_on (trie_hash example_hash trie_ser) (store_elements example_n (env_data example_env) \<union>
     set (mem_write_elements example_hash example_n (env_data example_env) example_root example_key example_value))"
    using example_inj [OF c] by (simp add: insert_commute)
  show "global_state_empty example_hash = Ok example_gs" "env_ok example_hash example_n example_env"
    "state_at example_n (env_data example_env) example_root Map.empty"
    using gs(1,4,5) by (simp_all add: eq)
qed

lemma example_commit:
  "no_collision example_hash example_n example_env example_root example_effects"
  "effects_storable Map.empty example_effects"
proof -
  have "set (commit_elements example_hash example_n (env_data example_env) example_root example_effects) =
      set (mem_write_elements example_hash example_n (env_data example_env) example_root example_key example_value)"
    using mem_read_state [OF example_state(3,4), of example_key]
      mem_write_state [OF example_state(3,4) example_storable example_state(5)]
    by auto
  then show "no_collision example_hash example_n example_env example_root example_effects"
    using example_state(5) by (simp add: no_collision_def)
  show "effects_storable Map.empty example_effects" by (simp add: example_storable)
qed

section \<open>Views\<close>

lemma view_state:
  assumes "env_ok H (gs_trie_store gs) (gs_environment gs)"
    "state_at (gs_trie_store gs) (env_data (gs_environment gs)) r p"
  shows "checkout gs r = Ok (Some r)" "view_read gs r k = Some (Ok (p k))"
proof -
  have env: "\<not> data_poisoned (gs_environment gs)" "store_ok H (gs_trie_store gs) (env_data (gs_environment gs))"
    using assms(1) by (auto simp: env_ok_def)
  show "checkout gs r = Ok (Some r)"
    using trie_get_state [OF env(2) assms(2)] env(1)
    by (auto simp: checkout_def create_read_txn_def read_txn_commit_def)
  show "view_read gs r k = Some (Ok (p k))"
    using mem_read_state [OF env(2) assms(2), of k] env(1)
    by (cases "p k") (auto simp: view_read_def create_read_txn_def read_txn_commit_def)
qed

section \<open>Properties\<close>

text \<open>C4. Reading a key below a root that represents a map returns what the map holds: the loop ends, and no
  branch of it panics.\<close>

theorem trie_read_correct:
  assumes "store_ok H n txn" "state_at n txn root m"
  shows "trie_read (trie_get n txn) key_to_bytes root k =
    Some (Ok (case m k of Some v \<Rightarrow> Found v | None \<Rightarrow> NotFound))"
  using mem_read_state [OF assms] by (simp add: mem_read_def)

theorem trie_read_correct_witness:
  "store_ok example_hash example_n (env_data example_env)
   \<and> state_at example_n (env_data example_env) example_root Map.empty
   \<and> trie_read (trie_get example_n (env_data example_env)) key_to_bytes example_root example_key = Some (Ok NotFound)"
  using trie_read_correct [OF example_state(3,4), of example_key] example_state(3,4) by simp

text \<open>C3. Writing a value below a root returns: either the value is there already and nothing changes, or
  a new root is returned that represents the updated map. The store only grows, so every older root still
  represents its map. The hash must not collide on the elements of the store and of the write.\<close>

theorem trie_write_correct:
  assumes "store_ok H n txn" "state_at n txn root m" "storable k v"
    "inj_on (trie_hash H trie_ser) (store_elements n txn \<union> set (mem_write_elements H n txn root k v))"
  shows "if m k = Some v
    then trie_write (trie_get n) (trie_put n) H key_to_bytes trie_ser txn root k v = Some (Ok AlreadyExists, txn)
    else \<exists>root' txn'.
      trie_write (trie_get n) (trie_put n) H key_to_bytes trie_ser txn root k v = Some (Ok (Written root'), txn')
      \<and> store_ok H n txn' \<and> state_at n txn' root' (m(k \<mapsto> v))
      \<and> (\<forall>r p. state_at n txn r p \<longrightarrow> state_at n txn' r p)"
  using mem_write_state [OF assms] state_at_mono [of n txn]
  by (auto simp: mem_write_def split: if_splits)

theorem trie_write_correct_witness:
  "\<exists>root' txn'. trie_write (trie_get example_n) (trie_put example_n) example_hash key_to_bytes trie_ser
       (env_data example_env) example_root example_key example_value = Some (Ok (Written root'), txn')
     \<and> state_at example_n txn' root' [example_key \<mapsto> example_value]"
  using trie_write_correct [OF example_state(3,4) example_storable example_state(5)] by auto



text \<open>C1. A commit refines the application of the effects to the map of the state. When every effect applies,
  it succeeds with a root for the resulting map and keeps all older roots; when one does not, it reports that
  effect and leaves the environment as it was.\<close>

theorem commit_correct:
  assumes "env_ok H n env" "state_at n (env_data env) root m" "effects_storable m es"
    "no_collision H n env root es"
  shows "case spec_effects m es of
      Inl m' \<Rightarrow> \<exists>root' env'. commit H n env root es = Some (Ok (Success root' fmempty), env') \<and> env_ok H n env'
        \<and> state_at n (env_data env') root' m' \<and> (\<forall>r p. state_at n (env_data env) r p \<longrightarrow> state_at n (env_data env') r p)
    | Inr r \<Rightarrow> commit H n env root es = Some (Ok r, env)"
  using assms by (rule commit_refines)

theorem commit_correct_witness:
  "\<exists>root' env'. commit example_hash example_n example_env example_root example_effects =
       Some (Ok (Success root' fmempty), env')
     \<and> state_at example_n (env_data env') root' [example_key \<mapsto> example_value]
     \<and> state_at example_n (env_data env') example_root Map.empty"
  using commit_correct [OF example_state(2,4) example_commit(2,1)] example_state(4) by auto

text \<open>C2. The order in which the effects of a commit are iterated does not matter: if a commit succeeds, it
  succeeds with the same root for every other order of the same effects on distinct keys.\<close>

theorem commit_order_irrelevant:
  assumes "env_ok H n env" "state_at n (env_data env) root m"
    "distinct (map fst es)" "distinct (map fst es')" "set es' = set es"
    "effects_storable m es" "no_collision H n env root es" "no_collision H n env root es'"
    "commit H n env root es = Some (Ok (Success r bv), env1)"
  shows "\<exists>env2. commit H n env root es' = Some (Ok (Success r bv), env2)"
proof -
  obtain m1 where m1: "spec_effects m es = Inl m1" "bv = fmempty" "env_ok H n env1" "state_at n (env_data env1) r m1"
  proof (cases "spec_effects m es")
    case (Inl m1)
    then show ?thesis using commit_refines [OF assms(1,2,6,7)] assms(9) that by auto
  next
    case (Inr cr)
    then have "cr = Success r bv" using commit_refines [OF assms(1,2,6,7)] assms(9) by auto
    then show ?thesis using spec_effects_no_success [of m es] Inr by simp
  qed
  then have all: "\<forall>(k, t) \<in> set es. \<exists>v. spec_value k (m k) t = Inl v"
    using spec_effects_success [OF assms(3), of m] by blast
  then obtain m2 where m2: "spec_effects m es' = Inl m2"
    using spec_effects_success [OF assms(4), of m] assms(5) by auto
  have "map_of es' = map_of es"
    using assms(3-5) by (metis map_of_inject_set)
  then have "m2 = m1"
    using spec_effects_lookup [OF assms(3) m1(1)] spec_effects_lookup [OF assms(4) m2] by (intro ext) simp
  moreover have "effects_storable m es'"
    using assms(6) effects_storable_distinct [OF assms(3) all]
      effects_storable_distinct [OF assms(4), of m] all assms(5) by simp
  ultimately obtain r2 env2 where "commit H n env root es' = Some (Ok (Success r2 fmempty), env2)"
    "env_ok H n env2" "state_at n (env_data env2) r2 m1"
    using commit_refines [OF assms(1,2) _ assms(8)] m2 by auto
  moreover have "r2 = r"
    using state_root_unique [where H = H, OF calculation(3) m1(4)] calculation(2) m1(3) by (simp add: env_ok_def)
  ultimately show ?thesis using m1(2) by auto
qed

theorem commit_order_irrelevant_witness:
  "\<exists>r env1 env2. commit example_hash example_n example_env example_root example_effects =
       Some (Ok (Success r fmempty), env1)
     \<and> commit example_hash example_n example_env example_root (rev example_effects) =
       Some (Ok (Success r fmempty), env2)"
proof -
  obtain r env1 where "commit example_hash example_n example_env example_root example_effects =
      Some (Ok (Success r fmempty), env1)"
    using commit_refines [OF example_state(2,4) example_commit(2,1)] by auto
  then show ?thesis
    using commit_order_irrelevant [OF example_state(2,4) _ _ _ example_commit(2,1) _, of "rev example_effects"]
      example_commit(1)
    by simp
qed

text \<open>C6. After a successful commit the returned root can be checked out, and reading through the view gives
  exactly the values that the effects produced; the old root still reads as before.\<close>

theorem commit_then_read:
  assumes "env_ok H (gs_trie_store gs) (gs_environment gs)"
    "state_at (gs_trie_store gs) (env_data (gs_environment gs)) root m" "effects_storable m es"
    "no_collision H (gs_trie_store gs) (gs_environment gs) root es" "spec_effects m es = Inl m'"
  shows "\<exists>root' gs'. global_state_commit H gs root es = Some (Ok (Success root' fmempty), gs')
    \<and> checkout gs' root' = Ok (Some root') \<and> checkout gs' root = Ok (Some root)
    \<and> (\<forall>k. view_read gs' root' k = Some (Ok (m' k)) \<and> view_read gs' root k = Some (Ok (m k)))"
proof -
  let ?n = "gs_trie_store gs"
  obtain root' env' where c: "commit H ?n (gs_environment gs) root es = Some (Ok (Success root' fmempty), env')"
    "env_ok H ?n env'" "state_at ?n (env_data env') root' m'" "state_at ?n (env_data env') root m"
    using commit_refines [OF assms(1-4)] assms(2,5) by auto
  let ?gs' = "gs\<lparr>gs_environment := env'\<rparr>"
  have "checkout ?gs' r = Ok (Some r) \<and> view_read ?gs' r k = Some (Ok (p k))"
    if "state_at ?n (env_data env') r p" for r p k
    using view_state [of H ?gs' r p] c(2) that by simp
  then show ?thesis using c by (intro exI [of _ root'] exI [of _ ?gs']) (simp add: global_state_commit_def)
qed

theorem commit_then_read_witness:
  "\<exists>root' gs'. global_state_commit example_hash example_gs example_root example_effects =
       Some (Ok (Success root' fmempty), gs')
     \<and> view_read gs' root' example_key = Some (Ok (Some example_value))
     \<and> view_read gs' example_root example_key = Some (Ok None)"
  using commit_then_read [OF example_state(2,4) example_commit(2,1), of "[example_key \<mapsto> example_value]"] by auto

text \<open>A fresh global state holds the empty map: its root can be checked out and every key reads as
  absent.\<close>

theorem empty_state:
  "\<exists>gs. global_state_empty H = Ok gs \<and> checkout gs (gs_empty_root_hash gs) = Ok (Some (gs_empty_root_hash gs))
     \<and> (\<forall>k. view_read gs (gs_empty_root_hash gs) k = Some (Ok None))"
proof -
  obtain gs where gs: "global_state_empty H = Ok gs" "env_ok H (gs_trie_store gs) (gs_environment gs)"
    "state_at (gs_trie_store gs) (env_data (gs_environment gs)) (gs_empty_root_hash gs) Map.empty"
    using global_state_empty_Ok [of H] by metis
  then have e: "\<not> data_poisoned (gs_environment gs)" "store_ok H (gs_trie_store gs) (env_data (gs_environment gs))"
    by (auto simp: env_ok_def)
  have "view_read gs (gs_empty_root_hash gs) k = Some (Ok None)" for k
    using mem_read_state [OF e(2) gs(3), of k] e(1)
    by (simp add: view_read_def create_read_txn_def read_txn_commit_def)
  moreover have "checkout gs (gs_empty_root_hash gs) = Ok (Some (gs_empty_root_hash gs))"
    using trie_get_state [OF e(2) gs(3)] e(1)
    by (auto simp: checkout_def create_read_txn_def read_txn_commit_def)
  ultimately show ?thesis using gs(1) by blast
qed

text \<open>Protocol data that was put for a version is what a later get for that version returns; the data of
  the other versions does not change.\<close>

theorem protocol_data_get_put:
  assumes "\<not> data_poisoned (gs_environment gs)" "\<not> write_mutex_poisoned (gs_environment gs)"
  shows "\<exists>gs'. put_protocol_data gs v d = (Ok (), gs') \<and> get_protocol_data gs' v = Ok (Some d)
    \<and> (\<forall>w. w \<noteq> v \<longrightarrow> get_protocol_data gs' w = get_protocol_data gs w)"
proof -
  let ?n = "gs_protocol_data_store gs" and ?d = "env_data (gs_environment gs)"
  have ks: "\<exists>b. protocol_version_to_bytes w = Ok b" for w
    by (simp add: protocol_version_to_bytes_def sem_ver_to_bytes_def)
  obtain kb where kb: "protocol_version_to_bytes v = Ok kb" using ks by blast
  obtain vb where vb: "protocol_data_to_bytes d = Ok vb" using protocol_data_to_bytes_Ok by blast
  define txn where "txn = snd (store_put ?n protocol_version_to_bytes protocol_data_to_bytes ?d v d)"
  let ?gs' = "gs\<lparr>gs_environment := (gs_environment gs)\<lparr>env_data := ?d ++ txn\<rparr>\<rparr>"
  have put: "store_put ?n protocol_version_to_bytes protocol_data_to_bytes ?d v d = (Ok (), txn)"
    using kb vb by (simp add: txn_def store_put_Ok prod_eq_iff)
  then have "put_protocol_data gs v d = (Ok (), ?gs')"
    using assms by (simp add: put_protocol_data_def create_read_write_txn_def txn_commit_def)
  moreover have n: "(?d ++ txn) ?n = txn ?n"
    using kb vb by (simp add: txn_def store_put_Ok txn_write_def Let_def)
  have "get_protocol_data ?gs' w = (if w = v then Ok (Some d) else get_protocol_data gs w)" for w
  proof -
    obtain wb where "protocol_version_to_bytes w = Ok wb" using ks by blast
    then have "store_get ?n protocol_version_to_bytes protocol_data_from_bytes txn w =
        (if w = v then Ok (Some d) else store_get ?n protocol_version_to_bytes protocol_data_from_bytes ?d w)"
      using store_get_put [OF protocol_versionc.codec_axioms protocol_datac.codec_axioms,
          where k = v and l = w and v = d and kb = kb and lb = wb and vb = vb and n = ?n and n' = ?n and txn = ?d]
        kb vb by (simp add: txn_def)
    moreover have "store_get ?n protocol_version_to_bytes protocol_data_from_bytes (?d ++ txn) w =
        store_get ?n protocol_version_to_bytes protocol_data_from_bytes txn w"
      using n by (simp add: store_get_def txn_read_def)
    ultimately show ?thesis
      using assms(1) by (simp add: get_protocol_data_def create_read_txn_def read_txn_commit_def)
  qed
  ultimately show ?thesis by simp
qed

theorem protocol_data_get_put_witness:
  "\<exists>gs'. put_protocol_data example_gs (from_parts 1 0 0) protocol_data_default = (Ok (), gs')
     \<and> get_protocol_data gs' (from_parts 1 0 0) = Ok (Some protocol_data_default)"
proof -
  have "\<not> data_poisoned example_env" "\<not> write_mutex_poisoned example_env"
    using example_state(2) by (auto simp: env_ok_def)
  then show ?thesis
    using protocol_data_get_put [of example_gs "from_parts 1 0 0" protocol_data_default] by blast
qed

end
