(* ===== verification/Copy_Refine.thy ===== *)
theory Copy_Refine
  imports Tracking_Copy Commit_Props
begin

text \<open>
  What a tracking copy promises. Its abstract state is a map, the base state \<open>m\<close> of its reader
  overridden by the mutations; the operations refine operations on that map, whatever the cache of
  reads drops. The transforms it records take the base state to that map when they are committed,
  provided numbers are added to numbers of their own type.
\<close>

section \<open>The contract of the linked hash map\<close>

definition linked_map_laws :: "('m, 'z) externals_scheme \<Rightarrow> ('m \<Rightarrow> (key \<times> stored_value) list) \<Rightarrow> bool" where
  "linked_map_laws X ents \<longleftrightarrow>
     ents (lhm_new X) = [] \<and>
     (\<forall>k v l. ents (lhm_insert X k v l) = filter (\<lambda>e. fst e \<noteq> k) (ents l) @ [(k, v)]) \<and>
     (\<forall>k l. fst (lhm_get_refresh X k l) = map_of (ents l) k) \<and>
     (\<forall>k l. ents (snd (lhm_get_refresh X k l)) =
        (case map_of (ents l) k of
           None \<Rightarrow> ents l
         | Some v \<Rightarrow> filter (\<lambda>e. fst e \<noteq> k) (ents l) @ [(k, v)])) \<and>
     (\<forall>l. case lhm_pop_front X l of
           None \<Rightarrow> ents l = []
         | Some (e, l') \<Rightarrow> ents l = e # ents l')"

lemma linked_map_new: "linked_map_laws X ents \<Longrightarrow> ents (lhm_new X) = []"
  by (simp add: linked_map_laws_def)

lemma linked_map_insert:
  "linked_map_laws X ents \<Longrightarrow> ents (lhm_insert X k v l) = filter (\<lambda>e. fst e \<noteq> k) (ents l) @ [(k, v)]"
  by (simp add: linked_map_laws_def)

lemma linked_map_get_refresh:
  assumes "linked_map_laws X ents"
  obtains l' where "lhm_get_refresh X k l = (map_of (ents l) k, l')"
    "ents l' = (case map_of (ents l) k of
           None \<Rightarrow> ents l
         | Some v \<Rightarrow> filter (\<lambda>e. fst e \<noteq> k) (ents l) @ [(k, v)])"
  using assms by (metis linked_map_laws_def prod.collapse)

lemma linked_map_pop_front:
  assumes "linked_map_laws X ents"
  shows "lhm_pop_front X l = None \<Longrightarrow> ents l = []"
    and "lhm_pop_front X l = Some (e, l') \<Longrightarrow> ents l = e # ents l'"
proof -
  have pop: "case lhm_pop_front X l of None \<Rightarrow> ents l = [] | Some (e, l') \<Rightarrow> ents l = e # ents l'"
    using assms by (simp only: linked_map_laws_def)
  show "lhm_pop_front X l = None \<Longrightarrow> ents l = []" using pop by simp
  show "lhm_pop_front X l = Some (e, l') \<Longrightarrow> ents l = e # ents l'" using pop by simp
qed

section \<open>The cache\<close>

text \<open>
  The cached reads agree with the base state \<open>m\<close>, no key is cached twice, and the size of the cache is
  the sum of the sizes of its entries.
\<close>

definition entries_size :: "(key \<Rightarrow> stored_value \<Rightarrow> nat) \<Rightarrow> (key \<times> stored_value) list \<Rightarrow> nat" where
  "entries_size meter es = sum_list (map (\<lambda>(k, v). meter k v) es)"

definition cache_inv ::
    "('m \<Rightarrow> (key \<times> stored_value) list) \<Rightarrow> (key \<Rightarrow> stored_value \<Rightarrow> nat) \<Rightarrow> (key \<rightharpoonup> stored_value) \<Rightarrow>
     'm tracking_copy_cache \<Rightarrow> bool" where
  "cache_inv ents meter m c \<longleftrightarrow>
     distinct (map fst (ents (reads_cached c))) \<and>
     (\<forall>(k, v) \<in> set (ents (reads_cached c)). m k = Some v) \<and>
     current_cache_size c = entries_size meter (ents (reads_cached c))"

lemma entries_size_simps [simp]:
  "entries_size meter [] = 0"
  "entries_size meter ((k, v) # es) = meter k v + entries_size meter es"
  "entries_size meter (es @ fs) = entries_size meter es + entries_size meter fs"
  by (simp_all add: entries_size_def)

lemma filter_no_key: "k \<notin> fst ` set es \<Longrightarrow> filter (\<lambda>e. fst e \<noteq> k) es = es"
  by (induction es) auto

lemma entries_size_move:
  "distinct (map fst es) \<Longrightarrow> map_of es k = Some v \<Longrightarrow>
   entries_size meter (filter (\<lambda>e. fst e \<noteq> k) es) + meter k v = entries_size meter es"
  by (induction es) (auto simp: filter_no_key split: if_splits)

lemma distinct_fst_filter: "distinct (map fst es) \<Longrightarrow> distinct (map fst (filter P es))"
  by (rule distinct_map_filter)

text \<open>Evicting ends, never panics and keeps the invariant; afterwards the cache fits.\<close>

lemma evict_correct:
  assumes laws: "linked_map_laws X ents" and "cache_inv ents meter m c"
  shows "\<exists>c'. evict X meter c = Some (Ok (), c') \<and> cache_inv ents meter m c' \<and>
     current_cache_size c' \<le> max_cache_size c' \<and> max_cache_size c' = max_cache_size c \<and>
     muts_cached c' = muts_cached c"
  using assms(2)
proof (induction "length (ents (reads_cached c))" arbitrary: c)
  case 0
  then show ?case
    by (subst evict.simps)
      (auto simp: cache_inv_def linked_map_pop_front [OF laws] split: option.splits dest: linked_map_pop_front(2) [OF laws])
next
  case (Suc n)
  show ?case
  proof (cases "current_cache_size c > max_cache_size c")
    case False
    then show ?thesis using Suc.prems by (subst evict.simps) simp
  next
    case True
    obtain k v rest where pop: "lhm_pop_front X (reads_cached c) = Some ((k, v), rest)"
      using linked_map_pop_front(1) [OF laws, of "reads_cached c"] Suc.hyps(2)
      by (cases "lhm_pop_front X (reads_cached c)") auto
    let ?c = "c\<lparr>reads_cached := rest, current_cache_size := current_cache_size c - meter k v\<rparr>"
    have ents: "ents (reads_cached c) = (k, v) # ents rest"
      by (rule linked_map_pop_front(2) [OF laws pop])
    have "cache_inv ents meter m ?c" "n = length (ents (reads_cached ?c))"
      using Suc.prems Suc.hyps(2) by (simp_all add: cache_inv_def ents)
    from Suc.hyps(1) [OF this(2,1)] show ?thesis
      using True Suc.prems by (subst evict.simps) (simp add: pop cache_inv_def ents)
  qed
qed

lemma insert_read_correct:
  assumes laws: "linked_map_laws X ents" and inv: "cache_inv ents meter m c"
    and new: "map_of (ents (reads_cached c)) k = None" and v: "m k = Some v"
  shows "\<exists>c'. insert_read X meter k v c = Some (Ok (), c') \<and> cache_inv ents meter m c' \<and>
     current_cache_size c' \<le> max_cache_size c' \<and> max_cache_size c' = max_cache_size c \<and>
     muts_cached c' = muts_cached c"
proof -
  let ?c = "c\<lparr>reads_cached := lhm_insert X k v (reads_cached c),
               current_cache_size := current_cache_size c + meter k v\<rparr>"
  have "k \<notin> fst ` set (ents (reads_cached c))" using new by (simp add: map_of_eq_None_iff)
  then have "ents (reads_cached ?c) = ents (reads_cached c) @ [(k, v)]"
    by (simp add: linked_map_insert [OF laws] filter_no_key)
  then have "cache_inv ents meter m ?c"
    using inv v new by (auto simp: cache_inv_def map_of_eq_None_iff)
  from evict_correct [OF laws this] show ?thesis by (simp add: insert_read_def)
qed

lemma cache_get_correct:
  assumes laws: "linked_map_laws X ents" and inv: "cache_inv ents meter m c"
  shows "\<exists>c' r. cache_get X k c = Some (Ok r, c') \<and> cache_inv ents meter m c' \<and>
     current_cache_size c' = current_cache_size c \<and> max_cache_size c' = max_cache_size c \<and>
     muts_cached c' = muts_cached c \<and>
     (case r of
        Some v \<Rightarrow> fmlookup (muts_cached c) k = Some v \<or> fmlookup (muts_cached c) k = None \<and> m k = Some v
      | None \<Rightarrow> fmlookup (muts_cached c) k = None \<and> map_of (ents (reads_cached c')) k = None)"
proof (cases "fmlookup (muts_cached c) k")
  case (Some v)
  then show ?thesis using inv by (simp add: cache_get_def)
next
  case None
  let ?es = "ents (reads_cached c)"
  obtain l where l: "lhm_get_refresh X k (reads_cached c) = (map_of ?es k, l)"
    "ents l = (case map_of ?es k of None \<Rightarrow> ?es | Some v \<Rightarrow> filter (\<lambda>e. fst e \<noteq> k) ?es @ [(k, v)])"
    using linked_map_get_refresh [OF laws] by blast
  have found: "m k = Some v" if "map_of ?es k = Some v" for v
    using inv that by (auto simp: cache_inv_def dest: map_of_SomeD)
  have "cache_inv ents meter m (c\<lparr>reads_cached := l\<rparr>)"
  proof (cases "map_of ?es k")
    case (Some v)
    have "entries_size meter (filter (\<lambda>e. fst e \<noteq> k) ?es) + meter k v = entries_size meter ?es"
      by (rule entries_size_move) (use inv Some in \<open>simp_all add: cache_inv_def\<close>)
    then show ?thesis
      using inv found [OF Some] l(2) Some by (auto simp: cache_inv_def distinct_fst_filter)
  qed (use inv l(2) in \<open>simp add: cache_inv_def\<close>)
  then show ?thesis
    using None l found
    by (cases "map_of ?es k") (auto simp: cache_get_def)
qed

section \<open>Reading through a tracking copy\<close>

definition reads_as :: "state_reader \<Rightarrow> (key \<rightharpoonup> stored_value) \<Rightarrow> bool" where
  "reads_as reader m \<longleftrightarrow> (\<forall>k. reader k = Some (Ok (m k)))"

definition tc_view :: "(key \<rightharpoonup> stored_value) \<Rightarrow> 'm tracking_copy \<Rightarrow> (key \<rightharpoonup> stored_value)" where
  "tc_view m tc k =
     (case fmlookup (muts_cached (tc_cache tc)) k of Some v \<Rightarrow> Some v | None \<Rightarrow> m k)"

definition tc_inv ::
    "('m, 'z) externals_scheme \<Rightarrow> ('m \<Rightarrow> (key \<times> stored_value) list) \<Rightarrow> (key \<rightharpoonup> stored_value) \<Rightarrow>
     'm tracking_copy \<Rightarrow> bool" where
  "tc_inv X ents m tc \<longleftrightarrow>
     reads_as (tc_reader tc) m \<and> cache_inv ents (heap_measure X) m (tc_cache tc) \<and>
     current_cache_size (tc_cache tc) \<le> max_cache_size (tc_cache tc) \<and>
     max_cache_size (tc_cache tc) = 1024 * 16"

text \<open>A step that changes the cache of reads only.\<close>

definition cache_only :: "'m tracking_copy \<Rightarrow> 'm tracking_copy \<Rightarrow> bool" where
  "cache_only tc tc' \<longleftrightarrow>
     tc_reader tc' = tc_reader tc \<and> tc_ops tc' = tc_ops tc \<and> tc_fns tc' = tc_fns tc \<and>
     muts_cached (tc_cache tc') = muts_cached (tc_cache tc)"

lemma cache_only_view: "cache_only tc tc' \<Longrightarrow> tc_view m tc' = tc_view m tc"
  by (simp add: cache_only_def tc_view_def fun_eq_iff)

lemma tc_get_correct:
  assumes laws: "linked_map_laws X ents" and inv: "tc_inv X ents m tc"
  shows "\<exists>tc'. tc_get X k tc = Some (Ok (tc_view m tc k), tc') \<and> tc_inv X ents m tc' \<and> cache_only tc tc'"
proof -
  let ?c = "tc_cache tc"
  have c: "cache_inv ents (heap_measure X) m ?c" "reads_as (tc_reader tc) m"
    "current_cache_size ?c \<le> max_cache_size ?c" "max_cache_size ?c = 1024 * 16"
    using inv by (simp_all add: tc_inv_def)
  obtain c' r where g: "cache_get X k ?c = Some (Ok r, c')" "cache_inv ents (heap_measure X) m c'"
    "current_cache_size c' = current_cache_size ?c" "max_cache_size c' = max_cache_size ?c"
    "muts_cached c' = muts_cached ?c"
    and r: "case r of
        Some v \<Rightarrow> fmlookup (muts_cached ?c) k = Some v \<or> fmlookup (muts_cached ?c) k = None \<and> m k = Some v
      | None \<Rightarrow> fmlookup (muts_cached ?c) k = None \<and> map_of (ents (reads_cached c')) k = None"
    using cache_get_correct [OF laws c(1)] by blast
  let ?tc = "tc\<lparr>tc_cache := c'\<rparr>"
  have ?thesis if "r = Some v \<or> m k = None \<and> r = None" for v
    using that g r c
    by (auto simp: tc_get_def seq_def zoom_def reader_read_def reads_as_def tc_inv_def cache_only_def
        tc_view_def)
  moreover have ?thesis if v: "m k = Some v" "r = None" for v
  proof -
    have "map_of (ents (reads_cached c')) k = None" "fmlookup (muts_cached ?c) k = None" using r v(2) by auto
    then obtain c'' where ins: "insert_read X (heap_measure X) k v c' = Some (Ok (), c'')"
      "cache_inv ents (heap_measure X) m c''" "current_cache_size c'' \<le> max_cache_size c''"
      "max_cache_size c'' = max_cache_size c'" "muts_cached c'' = muts_cached c'"
      using insert_read_correct [OF laws g(2)] v(1) by blast
    show ?thesis
      using g ins v r c
      by (auto simp: tc_get_def seq_def zoom_def reader_read_def reads_as_def tc_inv_def cache_only_def
          tc_view_def)
  qed
  ultimately show ?thesis by (cases r; cases "m k") auto
qed

section \<open>The operations on the abstract state\<close>

definition spec_add ::
    "(key \<rightharpoonup> stored_value) \<Rightarrow> key \<Rightarrow> stored_value \<Rightarrow> add_result \<times> (key \<rightharpoonup> stored_value)" where
  "spec_add m k v =
     (case m k of
        None \<Rightarrow> (Add_KeyNotFound k, m)
      | Some c \<Rightarrow>
          (case add_transform v of
             Ok t \<Rightarrow>
               (case transform_apply t c of
                  Ok n \<Rightarrow> (Add_Success, m(k \<mapsto> n))
                | Err (Type_Mismatch e) \<Rightarrow> (Add_TypeMismatch e, m)
                | Err (Serialization e) \<Rightarrow> (Add_Serialization e, m)
                | Panic \<Rightarrow> (Add_KeyNotFound k, m))
           | Err early \<Rightarrow> (early, m)
           | Panic \<Rightarrow> (Add_KeyNotFound k, m)))"

lemma and_then_no_panic:
  "r \<noteq> Panic \<Longrightarrow> (\<And>x. f x \<noteq> Panic) \<Longrightarrow> and_then r f \<noteq> Panic"
  by (cases r) simp_all

lemma map_err_no_panic: "r \<noteq> Panic \<Longrightarrow> map_err f r \<noteq> Panic"
  by (cases r) simp_all

lemma uref_from_bytes_no_panic: "uref_from_bytes bs \<noteq> Panic"
  by (auto simp: uref_from_bytes_def option_from_bytes_def rights_from_bytes_def result_simps
      array32_from_bytes_no_panic de_no_panic split: option.splits if_splits)

lemma key_from_bytes_no_panic: "key_from_bytes bs \<noteq> Panic"
  by (auto simp: key_from_bytes_def result_simps array32_from_bytes_no_panic de_no_panic
      uref_from_bytes_no_panic split: if_splits)

lemma ok_or_no_panic: "ok_or opt e \<noteq> Panic"
  by (cases opt) simp_all

lemma string_from_bytes_no_panic: "string_from_bytes bs \<noteq> Panic"
  by (auto simp: string_from_bytes_def vec_u8_from_bytes_def safe_split_at_def result_simps
      ok_or_no_panic split: if_splits)

lemma name_key_no_panic: "pair_from_bytes string_from_bytes key_from_bytes bs \<noteq> Panic"
  by (auto simp: pair_from_bytes_def result_simps string_from_bytes_no_panic key_from_bytes_no_panic)

lemma into_t_int_no_panic:
  "into_t i32_from_bytes ty w \<noteq> Panic" "into_t u64_from_bytes ty w \<noteq> Panic"
  "into_t u128_from_bytes ty w \<noteq> Panic" "into_t u256_from_bytes ty w \<noteq> Panic"
  "into_t u512_from_bytes ty w \<noteq> Panic"
  by (rule into_t_no_panic; simp add: i32_from_bytes_def u64_from_bytes_def de_no_panic)+

lemma add_transform_no_panic: "add_transform v \<noteq> Panic"
proof (cases v)
  case (SV_CLValue w)
  have k: "into_t (pair_from_bytes string_from_bytes key_from_bytes) ty w \<noteq> Panic" for ty
    by (rule into_t_no_panic) (rule name_key_no_panic)
  have a: "and_then (map_err g r) h \<noteq> Panic" if "r \<noteq> Panic" "\<And>x. h x \<noteq> Panic"
    for r :: "('a, 'b) result" and g :: "'b \<Rightarrow> 'c" and h :: "'a \<Rightarrow> ('d, 'c) result"
    using that by (intro and_then_no_panic map_err_no_panic)
  show ?thesis
    by (cases "cl_type w")
      (simp_all add: add_transform_def add_mismatch_def SV_CLValue a into_t_int_no_panic k
        split: prod.splits)
qed (simp_all add: add_transform_def add_mismatch_def)

lemma tc_view_record [simp]: "tc_view m (record_effect k op t tc) = tc_view m tc"
  by (simp add: tc_view_def record_effect_def fun_eq_iff)

lemma tc_view_write [simp]: "tc_view m (write_cache k v tc) = (tc_view m tc)(k \<mapsto> v)"
  by (auto simp: tc_view_def write_cache_def insert_write_def fun_eq_iff)

lemma tc_inv_record [simp]: "tc_inv X ents m (record_effect k op t tc) = tc_inv X ents m tc"
  by (simp add: tc_inv_def record_effect_def)

lemma tc_inv_write [simp]: "tc_inv X ents m (write_cache k v tc) = tc_inv X ents m tc"
  by (simp add: tc_inv_def write_cache_def insert_write_def cache_inv_def)

lemma tc_read_correct:
  assumes "linked_map_laws X ents" "tc_inv X ents m tc"
  shows "\<exists>tc0. tc_inv X ents m tc0 \<and> cache_only tc tc0 \<and>
     tc_read X k tc = Some (Ok (tc_view m tc (key_normalize k)),
       if tc_view m tc (key_normalize k) = None then tc0
       else record_effect (key_normalize k) Op_Read Identity tc0)"
proof -
  obtain tc0 where "tc_get X (key_normalize k) tc = Some (Ok (tc_view m tc (key_normalize k)), tc0)"
    "tc_inv X ents m tc0" "cache_only tc tc0"
    using tc_get_correct [OF assms] by blast
  then show ?thesis
    by (cases "tc_view m tc (key_normalize k)") (auto simp: tc_read_def Let_def seq_def)
qed

lemma tc_write_correct:
  "tc_write k v tc = Some (Ok (), record_effect (key_normalize k) Op_Write (Write v)
     (write_cache (key_normalize k) v tc))"
  by (simp add: tc_write_def Let_def)

lemma tc_add_correct:
  assumes "linked_map_laws X ents" "tc_inv X ents m tc"
  shows "\<exists>tc0. tc_inv X ents m tc0 \<and> cache_only tc tc0 \<and>
     tc_add X k v tc = Some (Ok (fst (spec_add (tc_view m tc) (key_normalize k) v)),
       case (tc_view m tc (key_normalize k), add_transform v) of
         (Some c, Ok t) \<Rightarrow>
           (case transform_apply t c of
              Ok n \<Rightarrow> record_effect (key_normalize k) Op_Add t (write_cache (key_normalize k) n tc0)
            | _ \<Rightarrow> tc0)
       | _ \<Rightarrow> tc0)"
proof -
  let ?k = "key_normalize k"
  obtain tc0 where g: "tc_get X ?k tc = Some (Ok (tc_view m tc ?k), tc0)"
    "tc_inv X ents m tc0" "cache_only tc tc0"
    using tc_get_correct [OF assms] by blast
  have "tc_add X k v tc = Some (Ok (fst (spec_add (tc_view m tc) ?k v)),
       case (tc_view m tc ?k, add_transform v) of
         (Some c, Ok t) \<Rightarrow>
           (case transform_apply t c of
              Ok n \<Rightarrow> record_effect ?k Op_Add t (write_cache ?k n tc0)
            | _ \<Rightarrow> tc0)
       | _ \<Rightarrow> tc0)"
    using add_transform_no_panic [of v] transform_apply_no_panic
    by (auto simp: tc_add_def Let_def seq_step(1) [where m = "tc_get X ?k", OF g(1)] spec_add_def
        split: option.splits result.splits transform_error.splits)
  then show ?thesis using g(2,3) by blast
qed

section \<open>The recorded effects\<close>

text \<open>The type of the numbers that a transform adds, and the type of a stored number.\<close>

fun add_type :: "transform \<Rightarrow> cl_type option" where
  "add_type (AddInt32 _) = Some CL_I32"
| "add_type (AddUInt64 _) = Some CL_U64"
| "add_type (AddUInt128 _) = Some CL_U128"
| "add_type (AddUInt256 _) = Some CL_U256"
| "add_type (AddUInt512 _) = Some CL_U512"
| "add_type _ = None"

fun stored_type :: "stored_value \<Rightarrow> cl_type option" where
  "stored_type (SV_CLValue v) = Some (cl_type v)"
| "stored_type _ = None"

text \<open>A number is added to a number of its own type.\<close>

definition add_same_type :: "stored_value option \<Rightarrow> stored_value \<Rightarrow> bool" where
  "add_same_type current v \<longleftrightarrow>
     (case (current, add_transform v) of
        (Some c, Ok t) \<Rightarrow> add_type t = None \<or> add_type t = stored_type c
      | _ \<Rightarrow> True)"

text \<open>
  What is recorded for a key: \<open>base\<close> is its value in the base state, \<open>mut\<close> its mutation, \<open>opn\<close> and \<open>fn\<close>
  the recorded operation and transform.
\<close>

definition effect_ok ::
    "key \<Rightarrow> stored_value option \<Rightarrow> stored_value option \<Rightarrow> op option \<Rightarrow> transform option \<Rightarrow> bool" where
  "effect_ok k base mut opn fn \<longleftrightarrow>
     (case fn of
        None \<Rightarrow> mut = None \<and> opn = None
      | Some t \<Rightarrow>
          (\<exists>v. (case mut of Some v \<Rightarrow> Some v | None \<Rightarrow> base) = Some v \<and> spec_value k base t = Inl v) \<and>
          (\<exists>op. opn = Some op \<and> op \<noteq> Op_NoOp \<and> (op = Op_Read \<longleftrightarrow> t = Identity)) \<and>
          (add_type t = None \<or> (\<exists>c. base = Some c \<and> add_type t = stored_type c)))"

definition effects_inv :: "(key \<rightharpoonup> stored_value) \<Rightarrow> 'm tracking_copy \<Rightarrow> bool" where
  "effects_inv m tc \<longleftrightarrow>
     (\<forall>k. effect_ok k (m k) (fmlookup (muts_cached (tc_cache tc)) k) (fmlookup (tc_ops tc) k)
        (fmlookup (tc_fns tc) k))"

lemma effects_inv_cache_only: "cache_only tc tc' \<Longrightarrow> effects_inv m tc \<Longrightarrow> effects_inv m tc'"
  by (simp add: effects_inv_def cache_only_def)

lemma effects_inv_record:
  assumes "effects_inv m tc"
    and "effect_ok k (m k) (fmlookup (muts_cached (tc_cache tc)) k)
       (Some (op_add (case fmlookup (tc_ops tc) k of Some c \<Rightarrow> c | None \<Rightarrow> Op_NoOp) op))
       (Some (transform_add (case fmlookup (tc_fns tc) k of Some c \<Rightarrow> c | None \<Rightarrow> Identity) t))"
  shows "effects_inv m (record_effect k op t tc)"
  using assms by (simp add: effects_inv_def record_effect_def fmlookup_insert_add)

lemma effects_inv_record_write:
  assumes "effects_inv m tc"
    and "effect_ok k (m k) (Some v)
       (Some (op_add (case fmlookup (tc_ops tc) k of Some c \<Rightarrow> c | None \<Rightarrow> Op_NoOp) op))
       (Some (transform_add (case fmlookup (tc_fns tc) k of Some c \<Rightarrow> c | None \<Rightarrow> Identity) t))"
  shows "effects_inv m (record_effect k op t (write_cache k v tc))"
  using assms by (simp add: effects_inv_def record_effect_def fmlookup_insert_add write_cache_def insert_write_def)

lemma op_add_simps:
  "op_add a Op_Write = Op_Write"
  "op_add Op_NoOp b = b"
  "op_add a Op_Read = Op_Read \<longleftrightarrow> a = Op_Read \<or> a = Op_NoOp"
  "op_add a Op_Add \<noteq> Op_Read" "op_add a Op_Add \<noteq> Op_NoOp" "op_add a Op_Read \<noteq> Op_NoOp"
  by (cases a; cases b; simp add: op_add_def)+

lemma spec_value_Identity: "spec_value k base Identity = Inl v \<longleftrightarrow> base = Some v"
  by (cases base) auto

lemma spec_value_Failure: "spec_value k base (Failure e) \<noteq> Inl v"
  by (cases base) auto

text \<open>Reading.\<close>

lemma effect_ok_read:
  assumes "effect_ok k base mut opn fn" "mut \<noteq> None \<or> base \<noteq> None"
  shows "effect_ok k base mut (Some (op_add (case opn of Some c \<Rightarrow> c | None \<Rightarrow> Op_NoOp) Op_Read))
    (Some (transform_add (case fn of Some c \<Rightarrow> c | None \<Rightarrow> Identity) Identity))"
  using assms
  by (cases fn) (auto simp: effect_ok_def op_add_simps)

text \<open>Writing.\<close>

lemma effect_ok_write:
  assumes "effect_ok k base mut opn fn"
  shows "effect_ok k base (Some v) (Some (op_add (case opn of Some c \<Rightarrow> c | None \<Rightarrow> Op_NoOp) Op_Write))
    (Some (transform_add (case fn of Some c \<Rightarrow> c | None \<Rightarrow> Identity) (Write v)))"
proof -
  have "transform_add (case fn of Some c \<Rightarrow> c | None \<Rightarrow> Identity) (Write v) = Write v"
    using assms spec_value_Failure
    by (cases fn) (auto simp: effect_ok_def split: transform.splits)
  moreover have "spec_value k base (Write v) = Inl v" by (cases base) auto
  ultimately show ?thesis by (simp add: effect_ok_def op_add_simps)
qed

text \<open>Adding.\<close>

lemma add_type_iff: "add_type t = None \<longleftrightarrow> add_val t = None"
  by (cases t) simp_all

lemma add_type_width: "add_type t = Some ty \<Longrightarrow> add_width t = cl_width ty"
  by (cases t) auto

lemma add_type_sum:
  "add_type a = Some ty \<Longrightarrow> add_type b = Some ty \<Longrightarrow> add_type (transform_add a b) = Some ty"
  by (cases a; cases b) (auto simp: transform_add_def wrapped_transform_addition_def)

lemma stored_width_type: "stored_type sv = Some ty \<Longrightarrow> stored_width sv = cl_width ty"
  by (cases sv) auto

lemma transform_apply_type:
  assumes "add_val t \<noteq> None" "transform_apply t b = Ok c"
  shows "stored_type c = stored_type b"
proof -
  obtain z ty where "wrapping_addition b (addend_int z ty) = Ok c"
    using assms transform_apply_add_val [of t] by fastforce
  then show ?thesis
    by (cases b) (auto simp: wrapping_addition_def dest!: do_wrapping_addition_type split: cl_type.splits)
qed

definition adds :: "transform \<Rightarrow> bool" where
  "adds t \<longleftrightarrow> add_val t \<noteq> None \<or> (\<exists>ks. t = AddKeys ks)"

lemma transform_add_step:
  assumes app: "transform_apply t0 b = Ok c" "transform_apply t c = Ok n" and t: "adds t"
    and types: "add_type t0 = None \<or> add_type t0 = stored_type b"
      "add_type t = None \<or> add_type t = stored_type c"
  shows "transform_apply (transform_add t0 t) b = Ok n" "transform_add t0 t \<noteq> Identity"
    "add_type (transform_add t0 t) = None \<or> add_type (transform_add t0 t) = stored_type b"
proof -
  have both: "add_type (transform_add t0 t) = stored_type b \<and> add_val (transform_add t0 t) \<noteq> None \<and>
      adds_fit t0 t b" if vals: "add_val t0 \<noteq> None" "add_val t \<noteq> None"
  proof -
    have "stored_type c = stored_type b" by (rule transform_apply_type [OF vals(1) app(1)])
    then obtain ty where ty: "add_type t0 = Some ty" "add_type t = Some ty" "stored_type b = Some ty"
      using vals types by (cases "stored_type b") (auto simp: add_type_iff [symmetric])
    then show ?thesis
      using add_type_sum [OF ty(1,2)] add_type_width [OF add_type_sum [OF ty(1,2)]]
      by (auto simp: adds_fit_def stored_width_type simp flip: add_type_iff)
  qed
  then have "adds_fit t0 t b" by (auto simp: adds_fit_def)
  then show "transform_apply (transform_add t0 t) b = Ok n"
    by (rule transform_add_apply [OF app])
  have "transform_add t0 t \<noteq> Identity \<and>
      (add_type (transform_add t0 t) = None \<or> add_type (transform_add t0 t) = stored_type b)"
  proof (cases t0 rule: add_val_cases)
    case 1
    then have "add_val t \<noteq> None"
      using t app transform_apply_numeric [of t0 b c] by (auto simp: adds_def)
    then show ?thesis using both [OF 1] by (auto simp: add_type_iff)
  next
    case 2
    then show ?thesis using t types(2) app(1) by (auto simp: adds_def)
  next
    case (3 v)
    then show ?thesis
      using t app by (auto simp: adds_def transform_add_write)
  next
    case (4 ks)
    then have "add_val t = None"
      using app add_keys_to_Ok [of ks b c] transform_apply_numeric [of t c n]
      by (cases "add_val t") auto
    then show ?thesis using t 4 by (auto simp: adds_def)
  next
    case (5 e)
    then show ?thesis using app(1) by simp
  qed
  then show "transform_add t0 t \<noteq> Identity"
    "add_type (transform_add t0 t) = None \<or> add_type (transform_add t0 t) = stored_type b"
    by simp_all
qed

lemma effect_ok_add:
  assumes ok: "effect_ok k base mut opn fn" and view: "(case mut of Some v \<Rightarrow> Some v | None \<Rightarrow> base) = Some c"
    and app: "transform_apply t c = Ok n" and t: "adds t"
    and same: "add_type t = None \<or> add_type t = stored_type c"
  shows "effect_ok k base (Some n) (Some (op_add (case opn of Some c \<Rightarrow> c | None \<Rightarrow> Op_NoOp) Op_Add))
    (Some (transform_add (case fn of Some c \<Rightarrow> c | None \<Rightarrow> Identity) t))"
proof -
  let ?t0 = "case fn of Some c \<Rightarrow> c | None \<Rightarrow> Identity"
  have old: "spec_value k base ?t0 = Inl c"
    "add_type ?t0 = None \<or> (\<exists>b. base = Some b \<and> add_type ?t0 = stored_type b)"
    using ok view by (cases fn; cases mut; auto simp: effect_ok_def)+
  have "spec_value k base (transform_add ?t0 t) = Inl n \<and> transform_add ?t0 t \<noteq> Identity \<and>
     (add_type (transform_add ?t0 t) = None \<or>
      (\<exists>b. base = Some b \<and> add_type (transform_add ?t0 t) = stored_type b))"
  proof (cases base)
    case None
    then have "?t0 = Write c" using old(1) by (auto split: transform.splits)
    then show ?thesis using None app t by (auto simp: adds_def transform_add_write)
  next
    case (Some b)
    have "transform_apply ?t0 b = Ok c"
      using old(1) Some by (auto split: result.splits)
    moreover have "add_type ?t0 = None \<or> add_type ?t0 = stored_type b" using old(2) Some by auto
    ultimately show ?thesis using transform_add_step [OF _ app t _ same, of ?t0 b] Some by simp
  qed
  then show ?thesis by (simp add: effect_ok_def op_add_simps)
qed

lemma add_transform_adds: "add_transform v = Ok t \<Longrightarrow> adds t"
  by (cases v) (auto simp: add_transform_def add_mismatch_def adds_def result_simps
      split: cl_type.splits if_splits)

section \<open>Reachable copies\<close>

inductive copy_reachable ::
    "('m, 'z) externals_scheme \<Rightarrow> state_reader \<Rightarrow> (key \<rightharpoonup> stored_value) \<Rightarrow> 'm tracking_copy \<Rightarrow> bool"
  for X reader m where
  new: "copy_reachable X reader m (tracking_copy_new X reader)"
| get: "copy_reachable X reader m tc \<Longrightarrow> tc_get X k tc = Some (r, tc') \<Longrightarrow> copy_reachable X reader m tc'"
| reads: "copy_reachable X reader m tc \<Longrightarrow> tc_read X k tc = Some (r, tc') \<Longrightarrow> copy_reachable X reader m tc'"
| writes: "copy_reachable X reader m tc \<Longrightarrow> tc_write k v tc = Some (r', tc') \<Longrightarrow> copy_reachable X reader m tc'"
| adds: "copy_reachable X reader m tc \<Longrightarrow> add_same_type (tc_view m tc (key_normalize k)) v \<Longrightarrow>
    tc_add X k v tc = Some (r'', tc') \<Longrightarrow> copy_reachable X reader m tc'"

lemma tc_inv_new:
  assumes "linked_map_laws X ents" "reads_as reader m"
  shows "tc_inv X ents m (tracking_copy_new X reader)"
  using assms by (simp add: tc_inv_def tracking_copy_new_def cache_inv_def cache_new_def linked_map_new)

lemma effects_inv_new: "effects_inv m (tracking_copy_new X reader)"
  by (simp add: effects_inv_def effect_ok_def tracking_copy_new_def cache_new_def)

lemma effects_inv_read:
  assumes "effects_inv m tc" "tc_view m tc k \<noteq> None"
  shows "effects_inv m (record_effect k Op_Read Identity tc)"
proof (rule effects_inv_record [OF assms(1)])
  have "effect_ok k (m k) (fmlookup (muts_cached (tc_cache tc)) k) (fmlookup (tc_ops tc) k) (fmlookup (tc_fns tc) k)"
    using assms(1) by (simp add: effects_inv_def)
  then show "effect_ok k (m k) (fmlookup (muts_cached (tc_cache tc)) k)
       (Some (op_add (case fmlookup (tc_ops tc) k of Some c \<Rightarrow> c | None \<Rightarrow> Op_NoOp) Op_Read))
       (Some (transform_add (case fmlookup (tc_fns tc) k of Some c \<Rightarrow> c | None \<Rightarrow> Identity) Identity))"
    by (rule effect_ok_read) (use assms(2) in \<open>auto simp: tc_view_def split: option.splits\<close>)
qed

lemma effects_inv_write:
  assumes "effects_inv m tc"
  shows "effects_inv m (record_effect k Op_Write (Write v) (write_cache k v tc))"
  using assms
  by (intro effects_inv_record_write effect_ok_write [where mut = "fmlookup (muts_cached (tc_cache tc)) k"])
    (simp_all add: effects_inv_def)

lemma effects_inv_add:
  assumes "effects_inv m tc" "tc_view m tc k = Some c" "transform_apply t c = Ok n" "adds t"
    "add_type t = None \<or> add_type t = stored_type c"
  shows "effects_inv m (record_effect k Op_Add t (write_cache k n tc))"
proof (rule effects_inv_record_write [OF assms(1)])
  have "effect_ok k (m k) (fmlookup (muts_cached (tc_cache tc)) k) (fmlookup (tc_ops tc) k) (fmlookup (tc_fns tc) k)"
    using assms(1) by (simp add: effects_inv_def)
  from effect_ok_add [OF this _ assms(3-5)] assms(2)
  show "effect_ok k (m k) (Some n)
       (Some (op_add (case fmlookup (tc_ops tc) k of Some c \<Rightarrow> c | None \<Rightarrow> Op_NoOp) Op_Add))
       (Some (transform_add (case fmlookup (tc_fns tc) k of Some c \<Rightarrow> c | None \<Rightarrow> Identity) t))"
    by (simp add: tc_view_def)
qed

lemma copy_reachable_inv:
  assumes laws: "linked_map_laws X ents" and reader: "reads_as reader m" and "copy_reachable X reader m tc"
  shows "tc_inv X ents m tc \<and> effects_inv m tc"
  using assms(3)
proof induction
  case new
  show ?case using tc_inv_new [OF laws reader] effects_inv_new by blast
next
  case (get tc k r tc')
  then show ?case using tc_get_correct [OF laws, of m tc k] effects_inv_cache_only by fastforce
next
  case (reads tc k r tc')
  obtain tc0 where tc0: "tc_inv X ents m tc0" "cache_only tc tc0"
    "tc' = (if tc_view m tc (key_normalize k) = None then tc0
       else record_effect (key_normalize k) Op_Read Identity tc0)"
    using tc_read_correct [OF laws, of m tc k] reads by auto
  moreover have "effects_inv m tc0" "tc_view m tc0 = tc_view m tc"
    using effects_inv_cache_only [OF tc0(2)] cache_only_view [OF tc0(2)] reads.IH by auto
  ultimately show ?case using effects_inv_read [of m tc0] by simp
next
  case (writes tc k v r' tc')
  then show ?case by (auto simp: tc_write_correct effects_inv_write)
next
  case (adds tc k v r'' tc')
  let ?k = "key_normalize k"
  obtain tc0 where tc0: "tc_inv X ents m tc0" "cache_only tc tc0"
    "tc' = (case (tc_view m tc ?k, add_transform v) of
         (Some c, Ok t) \<Rightarrow>
           (case transform_apply t c of
              Ok n \<Rightarrow> record_effect ?k Op_Add t (write_cache ?k n tc0)
            | _ \<Rightarrow> tc0)
       | _ \<Rightarrow> tc0)"
    using tc_add_correct [OF laws, of m tc k v] adds by auto
  have e: "effects_inv m tc0" "tc_view m tc0 = tc_view m tc"
    using effects_inv_cache_only [OF tc0(2)] cache_only_view [OF tc0(2)] adds.IH by auto
  show ?case
  proof (cases "tc' = tc0")
    case True
    then show ?thesis using tc0(1) e(1) by simp
  next
    case False
    then obtain c t n where v: "tc_view m tc ?k = Some c" "add_transform v = Ok t" "transform_apply t c = Ok n"
      "tc' = record_effect ?k Op_Add t (write_cache ?k n tc0)"
      using tc0(3) by (auto split: option.splits result.splits)
    have "effects_inv m tc'"
      unfolding v(4)
      by (rule effects_inv_add [OF e(1) _ v(3) add_transform_adds [OF v(2)]])
        (use adds.hyps(2) v e(2) in \<open>simp_all add: add_same_type_def\<close>)
    then show ?thesis using tc0(1) v(4) by simp
  qed
qed

text \<open>Committing the recorded transforms, in any order, gives the abstract state.\<close>

lemma effects_commit:
  assumes inv: "effects_inv m tc" and es: "distinct (map fst es)" "map_of es = fmlookup (tc_fns tc)"
  shows "spec_effects m es = Inl (tc_view m tc)"
proof -
  have ok: "effect_ok k (m k) (fmlookup (muts_cached (tc_cache tc)) k) (fmlookup (tc_ops tc) k) (map_of es k)" for k
    using inv by (simp add: effects_inv_def es(2))
  have v: "spec_value k (m k) t = Inl (the (tc_view m tc k)) \<and> tc_view m tc k \<noteq> None" if "map_of es k = Some t" for k t
    using ok [of k] that by (auto simp: effect_ok_def tc_view_def)
  obtain m' where m': "spec_effects m es = Inl m'"
    using spec_effects_success [OF es(1), of m] v es(1) by fastforce
  have "m' k = tc_view m tc k" for k
  proof (cases "map_of es k")
    case None
    then show ?thesis
      using spec_effects_lookup [OF es(1) m', of k] ok [of k] by (simp add: effect_ok_def tc_view_def)
  next
    case (Some t)
    then show ?thesis using spec_effects_lookup [OF es(1) m', of k] v [OF Some] by auto
  qed
  then show ?thesis using m' by auto
qed

section \<open>Queries\<close>

text \<open>The value at the end of a path of names in a map of the state, or where the path stops.\<close>

fun named_keys_of :: "stored_value \<Rightarrow> named_keys option" where
  "named_keys_of (SV_Account a) = Some (acc_named_keys a)"
| "named_keys_of (SV_Contract c) = Some (con_named_keys c)"
| "named_keys_of (SV_CLValue _) = None"

fun name_missing :: "stored_value \<Rightarrow> rstring \<Rightarrow> query_stop" where
  "name_missing (SV_Account _) name = Name_Not_In_Account name"
| "name_missing (SV_Contract _) name = Name_Not_In_Contract name"
| "name_missing other name = Name_Not_Followed name other"

fun spec_path ::
    "(key \<rightharpoonup> stored_value) \<Rightarrow> nat \<Rightarrow> stored_value \<Rightarrow> rstring list \<Rightarrow> (nat \<times> query_stop) + stored_value" where
  "spec_path m i current [] = Inr current"
| "spec_path m i current (name # path) =
     (case Option.bind (named_keys_of current) (\<lambda>nk. fmlookup nk name) of
        None \<Rightarrow> Inl (i, name_missing current name)
      | Some key \<Rightarrow>
          (case m (key_normalize key) of
             None \<Rightarrow> Inl (i, Key_Missing key)
           | Some v \<Rightarrow> spec_path m (i + 1) v path))"

definition spec_query :: "(key \<rightharpoonup> stored_value) \<Rightarrow> key \<Rightarrow> rstring list \<Rightarrow> query_result" where
  "spec_query m base_key path =
     (case m (key_normalize base_key) of
        None \<Rightarrow> ValueNotFound (Query_Message Root_Missing base_key [])
      | Some v \<Rightarrow>
          (case spec_path m 0 v path of
             Inr v' \<Rightarrow> Query_Success v'
           | Inl (i, stop) \<Rightarrow> ValueNotFound (Query_Message stop base_key (take i path))))"

text \<open>What reading operations keep: the invariant, the abstract state and the record of effects.\<close>

definition reading_step ::
    "('m, 'z) externals_scheme \<Rightarrow> ('m \<Rightarrow> (key \<times> stored_value) list) \<Rightarrow> (key \<rightharpoonup> stored_value) \<Rightarrow>
     'm tracking_copy \<Rightarrow> 'm tracking_copy \<Rightarrow> bool" where
  "reading_step X ents m tc tc' \<longleftrightarrow>
     tc_inv X ents m tc' \<and> tc_view m tc' = tc_view m tc \<and> (effects_inv m tc \<longrightarrow> effects_inv m tc')"

lemma reading_step_trans:
  "reading_step X ents m tc tc' \<Longrightarrow> reading_step X ents m tc' tc'' \<Longrightarrow> reading_step X ents m tc tc''"
  by (simp add: reading_step_def)

lemma tc_read_step:
  assumes "linked_map_laws X ents" "tc_inv X ents m tc"
  shows "\<exists>tc'. tc_read X k tc = Some (Ok (tc_view m tc (key_normalize k)), tc') \<and> reading_step X ents m tc tc'"
proof -
  obtain tc0 where tc0: "tc_inv X ents m tc0" "cache_only tc tc0"
    "tc_read X k tc = Some (Ok (tc_view m tc (key_normalize k)),
       if tc_view m tc (key_normalize k) = None then tc0
       else record_effect (key_normalize k) Op_Read Identity tc0)"
    using tc_read_correct [OF assms, of k] by blast
  then show ?thesis
    using cache_only_view [OF tc0(2)] effects_inv_cache_only [OF tc0(2)] effects_inv_read [of m tc0]
    by (simp add: reading_step_def)
qed

lemma read_key_or_stop_step:
  assumes "linked_map_laws X ents" "tc_inv X ents m tc"
  shows "\<exists>tc'. reading_step X ents m tc tc' \<and> read_key_or_stop X k i tc =
     Some (case tc_view m tc (key_normalize k) of Some v \<Rightarrow> Ok v | None \<Rightarrow> Err (Inl (i, Key_Missing k)), tc')"
proof -
  obtain tc' where "tc_read X k tc = Some (Ok (tc_view m tc (key_normalize k)), tc')"
    "reading_step X ents m tc tc'"
    using tc_read_step [OF assms] by blast
  then show ?thesis
    by (cases "tc_view m tc (key_normalize k)") (auto simp: read_key_or_stop_def seq_def zoom_def)
qed

lemma query_fold_step:
  assumes laws: "linked_map_laws X ents" and "tc_inv X ents m tc"
  shows "\<exists>tc'. reading_step X ents m tc tc' \<and> query_fold X i current path tc =
     Some (case spec_path (tc_view m tc) i current path of Inr v \<Rightarrow> Ok v | Inl s \<Rightarrow> Err (Inl s), tc')"
  using assms(2)
proof (induction path arbitrary: tc i current)
  case Nil
  then show ?case by (simp add: reading_step_def)
next
  case (Cons name path)
  show ?case
  proof (cases "Option.bind (named_keys_of current) (\<lambda>nk. fmlookup nk name)")
    case None
    then have "query_fold X i current (name # path) tc = Some (Err (Inl (i, name_missing current name)), tc)"
      by (cases current) simp_all
    then show ?thesis using None Cons.prems by (simp add: reading_step_def)
  next
    case (Some key)
    obtain tc1 where tc1: "reading_step X ents m tc tc1" "read_key_or_stop X key i tc =
       Some (case tc_view m tc (key_normalize key) of Some v \<Rightarrow> Ok v | None \<Rightarrow> Err (Inl (i, Key_Missing key)), tc1)"
      using read_key_or_stop_step [OF laws Cons.prems] by blast
    have eq: "query_fold X i current (name # path) tc =
        seq (read_key_or_stop X key i) (\<lambda>value. query_fold X (i + 1) value path) tc"
      using Some by (cases current) simp_all
    show ?thesis
    proof (cases "tc_view m tc (key_normalize key)")
      case None
      then show ?thesis using tc1 Some unfolding eq by (auto simp: seq_def simp del: query_fold.simps)
    next
      case view: (Some v)
      have inv: "tc_inv X ents m tc1" "tc_view m tc1 = tc_view m tc"
        using tc1(1) by (simp_all add: reading_step_def)
      obtain tc2 where tc2: "reading_step X ents m tc1 tc2" "query_fold X (i + 1) v path tc1 =
          Some (case spec_path (tc_view m tc) (i + 1) v path of Inr v \<Rightarrow> Ok v | Inl s \<Rightarrow> Err (Inl s), tc2)"
        using Cons.IH [OF inv(1), of "i + 1" v] inv(2) by auto
      then have "reading_step X ents m tc tc2" using tc1(1) by (blast intro: reading_step_trans)
      then show ?thesis using tc1(2) tc2(2) view Some unfolding eq by (auto simp: seq_def simp del: query_fold.simps)
    qed
  qed
qed

lemma query_step:
  assumes "linked_map_laws X ents" "tc_inv X ents m tc"
  shows "\<exists>tc'. query X base_key path tc = Some (Ok (spec_query (tc_view m tc) base_key path), tc') \<and>
     reading_step X ents m tc tc'"
proof -
  obtain tc1 where tc1: "tc_read X base_key tc = Some (Ok (tc_view m tc (key_normalize base_key)), tc1)"
    "reading_step X ents m tc tc1"
    using tc_read_step [OF assms] by blast
  then have inv: "tc_inv X ents m tc1" "tc_view m tc1 = tc_view m tc"
    by (simp_all add: reading_step_def)
  show ?thesis
  proof (cases "tc_view m tc (key_normalize base_key)")
    case None
    then show ?thesis using tc1 by (auto simp: query_def seq_def spec_query_def error_path_msg_def)
  next
    case (Some v)
    obtain tc2 where tc2: "reading_step X ents m tc1 tc2" "query_fold X 0 v path tc1 =
        Some (case spec_path (tc_view m tc) 0 v path of Inr v \<Rightarrow> Ok v | Inl s \<Rightarrow> Err (Inl s), tc2)"
      using query_fold_step [OF assms(1) inv(1), of 0 v path] inv(2) by auto
    have "reading_step X ents m tc tc2" by (rule reading_step_trans [OF tc1(2) tc2(1)])
    then show ?thesis
      using tc1(1) tc2(2) Some
      by (auto simp: query_def seq_def attempt_def spec_query_def error_path_msg_def
          split: sum.splits)
  qed
qed

end
