(* ===== verification/Copy_Props.thy ===== *)
theory Copy_Props
  imports Copy_Refine
begin

text \<open>
  The properties of tracking copies, and the instance of the linked hash map by a list of entries with
  which they are checked.
\<close>

section \<open>A linked hash map\<close>

definition list_externals :: "(key \<times> stored_value) list externals" where
  "list_externals =
     \<lparr>lhm_new = [],
      lhm_insert = (\<lambda>k v l. filter (\<lambda>e. fst e \<noteq> k) l @ [(k, v)]),
      lhm_get_refresh = (\<lambda>k l. (map_of l k,
        case map_of l k of None \<Rightarrow> l | Some v \<Rightarrow> filter (\<lambda>e. fst e \<noteq> k) l @ [(k, v)])),
      lhm_pop_front = (\<lambda>l. case l of [] \<Rightarrow> None | e # es \<Rightarrow> Some (e, es)),
      size_of_stored_value = 200,
      string_capacity = (\<lambda>s. length (str_bytes s))\<rparr>"

lemma list_externals_laws: "linked_map_laws list_externals (\<lambda>l. l)"
proof -
  have "case lhm_pop_front list_externals l of None \<Rightarrow> l = [] | Some (e, l') \<Rightarrow> l = e # l'" for l
    by (cases l) (simp_all add: list_externals_def)
  then show ?thesis by (simp add: linked_map_laws_def list_externals_def)
qed

definition empty_copy :: "(key \<times> stored_value) list tracking_copy" where
  "empty_copy = tracking_copy_new list_externals (\<lambda>k. Some (Ok None))"

lemma empty_copy_inv: "tc_inv list_externals (\<lambda>l. l) Map.empty empty_copy"
  unfolding empty_copy_def by (rule tc_inv_new [OF list_externals_laws]) (simp add: reads_as_def)

lemma empty_copy_view: "tc_view Map.empty empty_copy = Map.empty"
  by (simp add: tc_view_def empty_copy_def tracking_copy_new_def cache_new_def fun_eq_iff)

section \<open>Properties\<close>

text \<open>C24. A tracking copy refines a map of keys to values, the base state overridden by its mutations: a
  read returns what the map holds and changes nothing, a write updates the map, an addition applies the
  transform of the added value or returns the error of the map's addition. The operations end, do not
  panic and do not depend on what the cache of reads has dropped.\<close>

theorem tracking_copy_refines:
  assumes "linked_map_laws X ents" "tc_inv X ents m tc"
  shows "(\<exists>tc'. tc_read X k tc = Some (Ok (tc_view m tc (key_normalize k)), tc')
       \<and> tc_inv X ents m tc' \<and> tc_view m tc' = tc_view m tc)
    \<and> (\<exists>tc'. tc_write k v tc = Some (Ok (), tc')
       \<and> tc_inv X ents m tc' \<and> tc_view m tc' = (tc_view m tc)(key_normalize k \<mapsto> v))
    \<and> (\<exists>tc'. tc_add X k v tc = Some (Ok (fst (spec_add (tc_view m tc) (key_normalize k) v)), tc')
       \<and> tc_inv X ents m tc' \<and> tc_view m tc' = snd (spec_add (tc_view m tc) (key_normalize k) v))"
proof (intro conjI)
  show "\<exists>tc'. tc_read X k tc = Some (Ok (tc_view m tc (key_normalize k)), tc')
       \<and> tc_inv X ents m tc' \<and> tc_view m tc' = tc_view m tc"
    using tc_read_step [OF assms, of k] by (auto simp: reading_step_def)
  show "\<exists>tc'. tc_write k v tc = Some (Ok (), tc')
       \<and> tc_inv X ents m tc' \<and> tc_view m tc' = (tc_view m tc)(key_normalize k \<mapsto> v)"
    using assms(2) by (simp add: tc_write_correct)
  obtain tc0 where tc0: "tc_inv X ents m tc0" "tc_view m tc0 = tc_view m tc"
    "tc_add X k v tc = Some (Ok (fst (spec_add (tc_view m tc) (key_normalize k) v)),
       case (tc_view m tc (key_normalize k), add_transform v) of
         (Some c, Ok t) \<Rightarrow>
           (case transform_apply t c of
              Ok n \<Rightarrow> record_effect (key_normalize k) Op_Add t (write_cache (key_normalize k) n tc0)
            | _ \<Rightarrow> tc0)
       | _ \<Rightarrow> tc0)"
    using tc_add_correct [OF assms, of k v] cache_only_view by blast
  then show "\<exists>tc'. tc_add X k v tc = Some (Ok (fst (spec_add (tc_view m tc) (key_normalize k) v)), tc')
       \<and> tc_inv X ents m tc' \<and> tc_view m tc' = snd (spec_add (tc_view m tc) (key_normalize k) v)"
    by (auto simp: spec_add_def split: option.splits result.splits transform_error.splits)
qed

theorem tracking_copy_refines_witness:
  "linked_map_laws list_externals (\<lambda>l. l) \<and> tc_inv list_externals (\<lambda>l. l) Map.empty empty_copy \<and>
   (\<exists>tc'. tc_write example_key example_value empty_copy = Some (Ok (), tc')
     \<and> tc_view Map.empty tc' = [example_key \<mapsto> example_value])"
  using list_externals_laws empty_copy_inv
    tracking_copy_refines [OF list_externals_laws empty_copy_inv, of example_key example_value]
  by (auto simp: empty_copy_view example_key_def)

text \<open>C7. What a deploy sees is what is committed: committing the transforms recorded by a tracking copy of
  the state at a root, in any order, succeeds with a root at which every key reads as it did through the
  copy. Numbers are assumed to be added to numbers of their own type.\<close>

theorem effects_match_copy:
  assumes "linked_map_laws X ents" "env_ok H (gs_trie_store gs) (gs_environment gs)"
    "state_at (gs_trie_store gs) (env_data (gs_environment gs)) root m"
    "copy_reachable X (view_read gs root) m tc"
    "distinct (map fst es)" "map_of es = fmlookup (tc_fns tc)" "effects_storable m es"
    "no_collision H (gs_trie_store gs) (gs_environment gs) root es"
  shows "\<exists>root' gs'. global_state_commit H gs root es = Some (Ok (Success root' fmempty), gs')
    \<and> (\<forall>k. view_read gs' root' k = Some (Ok (tc_view m tc k)))"
proof -
  have "reads_as (view_read gs root) m"
    using view_state(2) [OF assms(2,3)] by (simp add: reads_as_def)
  then have "effects_inv m tc" using copy_reachable_inv [OF assms(1) _ assms(4)] by blast
  then have spec: "spec_effects m es = Inl (tc_view m tc)" by (rule effects_commit [OF _ assms(5,6)])
  obtain root' env' where c: "commit H (gs_trie_store gs) (gs_environment gs) root es =
      Some (Ok (Success root' fmempty), env')" "env_ok H (gs_trie_store gs) env'"
    "state_at (gs_trie_store gs) (env_data env') root' (tc_view m tc)"
    using commit_refines [OF assms(2,3,7,8)] spec by auto
  let ?gs = "gs\<lparr>gs_environment := env'\<rparr>"
  have "view_read ?gs root' k = Some (Ok (tc_view m tc k))" for k
    by (rule view_state(2) [where H = H]) (use c in simp_all)
  then show ?thesis using c(1) by (intro exI [of _ root'] exI [of _ ?gs]) (simp add: global_state_commit_def)
qed

theorem effects_match_copy_witness:
  "\<exists>tc root' gs'. tc_write example_key example_value
       (tracking_copy_new list_externals (view_read example_gs example_root)) = Some (Ok (), tc)
     \<and> global_state_commit example_hash example_gs example_root example_effects =
         Some (Ok (Success root' fmempty), gs')
     \<and> view_read gs' root' example_key = Some (Ok (Some example_value))"
proof -
  let ?new = "tracking_copy_new list_externals (view_read example_gs example_root)"
  let ?tc = "record_effect example_key Op_Write (Write example_value) (write_cache example_key example_value ?new)"
  have w: "tc_write example_key example_value ?new = Some (Ok (), ?tc)"
    using tc_write_correct [of example_key example_value ?new] by (simp add: example_key_def)
  have r: "copy_reachable list_externals (view_read example_gs example_root) Map.empty ?tc"
    using copy_reachable.writes [OF copy_reachable.new w] .
  have fns: "map_of example_effects = fmlookup (tc_fns ?tc)"
    by (simp add: record_effect_def write_cache_def tracking_copy_new_def insert_add_def fun_eq_iff)
  have view: "tc_view Map.empty ?tc example_key = Some example_value" by simp
  obtain root' gs' where "global_state_commit example_hash example_gs example_root example_effects =
      Some (Ok (Success root' fmempty), gs')"
    "view_read gs' root' example_key = Some (Ok (tc_view Map.empty ?tc example_key))"
    using effects_match_copy [OF list_externals_laws example_state(2,4) r _ fns example_commit(2,1)] by auto
  then show ?thesis using w view by metis
qed

text \<open>C25. A query follows the path of names through the named keys of accounts and contracts: it returns
  the value that the reference walk over the map of the state finds, or the place where that walk stops,
  and leaves the state as it was.\<close>

theorem query_follows_path:
  assumes "linked_map_laws X ents" "tc_inv X ents m tc"
  shows "\<exists>tc'. query X base_key path tc = Some (Ok (spec_query (tc_view m tc) base_key path), tc')
    \<and> tc_inv X ents m tc' \<and> tc_view m tc' = tc_view m tc"
  using query_step [OF assms, of base_key path] by (auto simp: reading_step_def)

theorem query_follows_path_witness:
  "\<exists>tc'. query list_externals example_key [str_lit ''counter''] empty_copy =
     Some (Ok (ValueNotFound (Query_Message Root_Missing example_key [])), tc')"
  using query_follows_path [OF list_externals_laws empty_copy_inv, of example_key "[str_lit ''counter'']"]
  by (auto simp: spec_query_def empty_copy_view)


definition one_entry_copy :: "(key \<times> stored_value) list tracking_copy" where
  "one_entry_copy = tracking_copy_new list_externals (\<lambda>k. Some (Ok ([example_key \<mapsto> example_value] k)))"

lemma one_entry_read:
  "\<exists>tc'. tc_read list_externals example_key one_entry_copy = Some (Ok (Some example_value), tc')
     \<and> copy_reachable list_externals (\<lambda>k. Some (Ok ([example_key \<mapsto> example_value] k)))
         [example_key \<mapsto> example_value] tc'"
proof -
  let ?m = "[example_key \<mapsto> example_value]"
  have inv: "tc_inv list_externals (\<lambda>l. l) ?m one_entry_copy"
    unfolding one_entry_copy_def by (rule tc_inv_new [OF list_externals_laws]) (simp add: reads_as_def)
  have "tc_view ?m one_entry_copy (key_normalize example_key) = Some example_value"
    by (simp add: tc_view_def one_entry_copy_def tracking_copy_new_def cache_new_def example_key_def)
  then obtain tc' where "tc_read list_externals example_key one_entry_copy = Some (Ok (Some example_value), tc')"
    using tc_read_step [OF list_externals_laws inv, of example_key] by auto
  then show ?thesis
    using copy_reachable.reads [OF copy_reachable.new] unfolding one_entry_copy_def by blast
qed


text \<open>A fork starts from the state of the copy it was taken from, mutations included, and without
  effects of its own; reading the copy itself through a reference gives the same values.\<close>

theorem fork_reads_parent:
  assumes "linked_map_laws X ents" "tc_inv X ents m tc"
  shows "tc_inv X ents (tc_view m tc) (fork X tc) \<and> tc_view (tc_view m tc) (fork X tc) = tc_view m tc
    \<and> tc_effect (fork X tc) = \<lparr>eff_ops = fmempty, eff_transforms = fmempty\<rparr>
    \<and> (\<forall>k. copy_read tc k = Some (Ok (tc_view m tc k)))"
proof -
  have rd: "reads_as (copy_read tc) (tc_view m tc)"
    using assms(2) by (auto simp: reads_as_def copy_read_def tc_view_def tc_inv_def split: option.splits)
  then show ?thesis
    using tc_inv_new [OF assms(1) rd]
    by (simp add: fork_def tc_effect_def tracking_copy_new_def tc_view_def cache_new_def reads_as_def fun_eq_iff)
qed

theorem fork_reads_parent_witness:
  "copy_read empty_copy example_key = Some (Ok None)
   \<and> tc_view (tc_view Map.empty empty_copy) (fork list_externals empty_copy) = Map.empty"
  using fork_reads_parent [OF list_externals_laws empty_copy_inv] by (simp add: empty_copy_view)



end
