(* ===== verification/Context_Safety.thy ===== *)
theory Context_Safety
  imports Runtime_Context Copy_Props
begin

text \<open>
  What a contract can do through its context. \<open>contract_op\<close> lists the operations a running contract can
  call; \<open>authorised\<close> is the set of keys a context lets it change. The relations \<open>changes\<close> and \<open>grants\<close>
  follow the state and the access rights through the operations.
\<close>

section \<open>The operations of a contract\<close>

datatype contract_op =
    ReadGs key | WriteGs key stored_value | AddGs key stored_value | NewURef stored_value
  | PutKey rstring key | RemoveName rstring
  | ReadLs bytes | WriteLs bytes cl_value | AddLs bytes cl_value
  | StoreFunction stored_value | StoreFunctionAtHash stored_value
  | AddAssociatedKey public_key weight | RemoveAssociatedKey public_key
  | UpdateAssociatedKey public_key weight | SetActionThreshold action_type weight
  | UpgradeContract key bytes named_keys

abbreviation ignore :: "('s, 'a, 'e) exec \<Rightarrow> ('s, unit, 'e) exec" where
  "ignore m \<equiv> seq m (\<lambda>_. return ())"

fun run_op :: "('m, 'g, 'z) runtime_externals_scheme \<Rightarrow> contract_op \<Rightarrow> ('m, 'g, unit) ctx_exec" where
  "run_op X (ReadGs k) = ignore (read_gs X k)"
| "run_op X (WriteGs k v) = write_gs k v"
| "run_op X (AddGs k v) = add_gs X k v"
| "run_op X (NewURef v) = ignore (new_uref X v)"
| "run_op X (PutKey n k) = put_key X n k"
| "run_op X (RemoveName n) = ctx_remove_key X n"
| "run_op X (ReadLs b) = ignore (read_ls X b)"
| "run_op X (WriteLs b v) = write_ls X b v"
| "run_op X (AddLs b v) = add_ls X b v"
| "run_op X (StoreFunction v) = ignore (store_function X v)"
| "run_op X (StoreFunctionAtHash v) = ignore (store_function_at_hash X v)"
| "run_op X (AddAssociatedKey k w) = ctx_add_associated_key X k w"
| "run_op X (RemoveAssociatedKey k) = ctx_remove_associated_key X k"
| "run_op X (UpdateAssociatedKey k w) = ctx_update_associated_key X k w"
| "run_op X (SetActionThreshold a w) = ctx_set_action_threshold X a w"
| "run_op X (UpgradeContract k b n) = upgrade_contract_at_uref k b n"

text \<open>The address of the next reference, and of the next stored function.\<close>

definition fresh_address :: "('m, 'g, 'z) runtime_externals_scheme \<Rightarrow> ('m, 'g) runtime_context \<Rightarrow> array32" where
  "fresh_address X c = fst (create_address X (ctx_address_generator c))"

definition function_address :: "('m, 'g, 'z) runtime_externals_scheme \<Rightarrow> ('m, 'g) runtime_context \<Rightarrow> array32" where
  "function_address X c = blake2b X (array_bytes (ctx_deploy_hash c) @ to_le_bytes 4 (ctx_fn_store_id c))"

definition authorised ::
    "('m, 'g, 'z) runtime_externals_scheme \<Rightarrow> ('m, 'g) runtime_context \<Rightarrow> key set" where
  "authorised X c =
     {key_normalize (ctx_base_key c), Key_URef (URef (fresh_address X c) None), Key_Hash (function_address X c)}
     \<union> {key_local (blake2b X) (ctx_seed c) b | b. True}
     \<union> {Key_URef (remove_access_rights u) | u.
          validate_uref c u = Ok () \<and> (uref_is_writeable u \<or> uref_is_addable u)}"

section \<open>Changes of the state\<close>

definition static_eq :: "('m, 'g) runtime_context \<Rightarrow> ('m, 'g) runtime_context \<Rightarrow> bool" where
  "static_eq c c' \<longleftrightarrow> ctx_base_key c' = ctx_base_key c \<and> ctx_account c' = ctx_account c \<and>
     ctx_authorization_keys c' = ctx_authorization_keys c \<and> ctx_deploy_hash c' = ctx_deploy_hash c"

definition changes ::
    "('m, 'z) externals_scheme \<Rightarrow> ('m \<Rightarrow> (key \<times> stored_value) list) \<Rightarrow> (key \<rightharpoonup> stored_value) \<Rightarrow> key set \<Rightarrow>
     ('m, 'g) runtime_context \<Rightarrow> ('m, 'g) runtime_context \<Rightarrow> bool" where
  "changes X ents m S c c' \<longleftrightarrow>
     static_eq c c' \<and>
     (tc_inv X ents m (ctx_state c) \<longrightarrow>
        tc_inv X ents m (ctx_state c') \<and>
        (\<forall>k. k \<notin> S \<longrightarrow> tc_view m (ctx_state c') k = tc_view m (ctx_state c) k))"

interpretation chg: state_order "changes X ents m S" for X ents m S
  by unfold_locales (auto simp: changes_def static_eq_def)

lemma changes_mono: "changes X ents m S c c' \<Longrightarrow> S \<subseteq> T \<Longrightarrow> changes X ents m T c c'"
  unfolding changes_def by blast

lemma check_keeps: "keeps (changes X ents m S) (check f)"
  by (simp add: keeps_def check_def chg.order_refl)

lemma modify_keeps:
  "(\<And>c. ctx_state (f c) = ctx_state c \<and> static_eq c (f c)) \<Longrightarrow> keeps (changes X ents m S) (modify f)"
  by (simp add: keeps_def changes_def)

lemma on_state_keeps:
  assumes "\<And>tc r tc'. tc_inv X ents m tc \<Longrightarrow> op tc = Some (r, tc') \<Longrightarrow>
    tc_inv X ents m tc' \<and> (\<forall>k. k \<notin> S \<longrightarrow> tc_view m tc' k = tc_view m tc k)"
  shows "keeps (changes X ents m S) (on_state op)"
  using assms
  by (fastforce simp: keeps_def changes_def static_eq_def zoom_def split: option.splits)

lemma tc_read_keeps:
  assumes "linked_map_laws X ents"
  shows "keeps (changes X ents m S) (on_state (tc_read X k))"
  by (rule on_state_keeps) (use tc_read_step [OF assms, of m _ k] in \<open>fastforce simp: reading_step_def\<close>)

lemma tc_write_keeps:
  assumes "key_normalize k \<in> S"
  shows "keeps (changes X ents m S) (on_state (tc_write k v))"
  by (rule on_state_keeps) (use assms in \<open>auto simp: tc_write_correct\<close>)

lemma tc_add_keeps:
  assumes "linked_map_laws X ents" "key_normalize k \<in> S"
  shows "keeps (changes X ents m S) (on_state (tc_add X k v))"
proof (rule on_state_keeps)
  fix tc r tc'
  assume "tc_inv X ents m tc" and add: "tc_add X k v tc = Some (r, tc')"
  then obtain tc0 where tc0: "tc_inv X ents m tc0" "tc_view m tc0 = tc_view m tc"
    "tc' = (case (tc_view m tc (key_normalize k), add_transform v) of
         (Some c, Ok t) \<Rightarrow>
           (case transform_apply t c of
              Ok n \<Rightarrow> record_effect (key_normalize k) Op_Add t (write_cache (key_normalize k) n tc0)
            | _ \<Rightarrow> tc0)
       | _ \<Rightarrow> tc0)"
    using tc_add_correct [OF assms(1), of m tc k v] cache_only_view by fastforce
  then show "tc_inv X ents m tc' \<and> (\<forall>k. k \<notin> S \<longrightarrow> tc_view m tc' k = tc_view m tc k)"
    using assms(2) by (auto split: option.splits result.splits)
qed

lemma add_unsafe_keeps:
  assumes "linked_map_laws X ents" "key_normalize k \<in> S"
  shows "keeps (changes X ents m S) (add_unsafe X k v)"
  unfolding add_unsafe_def
  by (rule chg.keeps_seq [OF tc_add_keeps [OF assms]]) (simp add: chg.keeps_basic split: add_result.splits)

lemma read_gs_keeps:
  assumes "linked_map_laws X ents"
  shows "keeps (changes X ents m S) (read_gs X k)"
  unfolding read_gs_def by (intro chg.keeps_seq check_keeps tc_read_keeps [OF assms])

lemma read_gs_typed_keeps:
  assumes "linked_map_laws X ents"
  shows "keeps (changes X ents m S) (read_gs_typed X try_from k)"
  unfolding read_gs_typed_def
  by (rule chg.keeps_seq [OF read_gs_keeps [OF assms]]) (simp add: chg.keeps_basic split: option.splits)

lemma seq_check:
  "seq (check f) g c =
     (case f c of Ok x \<Rightarrow> g x c | Err e \<Rightarrow> Some (Err e, c) | Panic \<Rightarrow> Some (Panic, c))"
  by (simp add: seq_def check_def split: result.splits)

lemma seq_check_keeps:
  assumes "seq (check f) g c = Some (r, c')" "R c c"
    "\<And>x. f c = Ok x \<Longrightarrow> g x c = Some (r, c') \<Longrightarrow> R c c'"
  shows "R c c'"
  using assms by (auto simp: seq_check split: result.splits)

section \<open>Every operation changes authorised keys only\<close>

lemma authorised_base: "key_normalize (ctx_base_key c) \<in> authorised X c"
  by (simp add: authorised_def)

lemma authorised_local: "key_normalize (key_local (blake2b X) (ctx_seed c) b) \<in> authorised X c"
  by (auto simp: authorised_def key_local_def)

lemma authorised_writeable:
  "validate_writeable c k = Ok () \<Longrightarrow> validate_key c k = Ok () \<Longrightarrow> key_normalize k \<in> authorised X c"
  by (auto simp: authorised_def validate_writeable_def is_writeable_def validate_key_def
      split: key.splits if_splits)

lemma authorised_addable:
  "validate_addable c k = Ok () \<Longrightarrow> validate_key c k = Ok () \<Longrightarrow> key_normalize k \<in> authorised X c"
  by (auto simp: authorised_def validate_addable_def is_addable_def validate_key_def
      split: key.splits if_splits)

lemma write_gs_changes:
  assumes "write_gs k v c = Some (r, c')" "validate_key c k = Ok () \<Longrightarrow> is_writeable c k \<Longrightarrow> key_normalize k \<in> S"
  shows "changes X ents m S c c'"
  using assms
  by (auto simp: write_gs_def seq_check validate_writeable_def chg.order_refl
      split: result.splits if_splits intro: keepsD [OF tc_write_keeps])

lemma add_gs_changes:
  assumes laws: "linked_map_laws X ents" and "add_gs X k v c = Some (r, c')"
  shows "changes X ents m (authorised X c) c c'"
  using assms(2)
  by (auto simp: add_gs_def seq_check chg.order_refl split: result.splits
      intro: keepsD [OF add_unsafe_keeps [OF laws authorised_addable]])

lemma upgrade_contract_changes:
  assumes "upgrade_contract_at_uref k b n c = Some (r, c')"
  shows "changes X ents m (authorised Y c) c c'"
  using assms
  by (auto simp: upgrade_contract_at_uref_def seq_check chg.order_refl split: result.splits
      intro: keepsD [OF tc_write_keeps [OF authorised_writeable]])

lemma manage_account_changes:
  assumes laws: "linked_map_laws X ents" and "manage_account X into d f c = Some (r, c')"
  shows "changes X ents m (authorised X c) c c'"
proof (cases "is_valid_context c \<and> can_manage_keys_with (ctx_account c) (ctx_authorization_keys c)")
  case False
  then show ?thesis using assms(2) by (auto simp: manage_account_def chg.order_refl split: if_splits)
next
  case True
  let ?k = "Key_Account (acc_public_key (ctx_account c))"
  have k: "key_normalize ?k \<in> authorised X c"
    using True by (simp add: authorised_def is_valid_context_def)
  have "keeps (changes X ents m (authorised X c))
     (seq (read_gs_typed X account_try_from ?k) (\<lambda>account.
     let (r, account') = f account in
     seq (of_result (map_err into r)) (\<lambda>_.
     seq (check (\<lambda>c. account_to_validated_value c account')) (\<lambda>account_value.
       on_state (tc_write ?k account_value)))))"
    by (intro chg.keeps_seq read_gs_typed_keeps [OF laws])
      (auto simp: split_beta Let_def intro!: chg.keeps_seq chg.keeps_basic check_keeps tc_write_keeps k)
  then show ?thesis using assms(2) True by (auto simp: manage_account_def dest: keepsD)
qed

lemma forget_name_keeps: "keeps (changes X ents m S) (modify (forget_name n))"
  by (rule modify_keeps) (simp add: forget_name_def static_eq_def)

lemma remove_key_changes:
  assumes laws: "linked_map_laws X ents" and "ctx_remove_key X n c = Some (r, c')"
  shows "changes X ents m (authorised X c) c c'"
proof -
  let ?k = "ctx_base_key c"
  note steps = chg.keeps_seq chg.keeps_basic check_keeps forget_name_keeps tc_write_keeps
    tc_read_keeps [OF laws] read_gs_typed_keeps [OF laws]
  have "keeps (changes X ents m (authorised X c))
      (case ?k of
         Key_Account _ \<Rightarrow>
           seq (read_gs_typed X account_try_from ?k) (\<lambda>account.
           let account' = account\<lparr>acc_named_keys := fmdrop n (acc_named_keys account)\<rparr> in
           seq (modify (forget_name n)) (\<lambda>_.
           seq (check (\<lambda>c. account_to_validated_value c account')) (\<lambda>account_value.
             on_state (tc_write ?k account_value))))
       | Key_URef _ \<Rightarrow>
           seq (on_state (tc_read X ?k)) (\<lambda>maybe_value.
           seq (of_result (ok_or maybe_value (Exec_KeyNotFound ?k))) (\<lambda>value.
           seq (of_result (map_err TypeMismatchError (contract_try_from value))) (\<lambda>contract.
           seq (modify (forget_name n)) (\<lambda>_.
             remove_key_from_contract ?k contract n))))
       | _ \<Rightarrow>
           seq (read_gs_typed X contract_try_from ?k) (\<lambda>contract.
           seq (modify (forget_name n)) (\<lambda>_.
             remove_key_from_contract ?k contract n)))"
    unfolding remove_key_from_contract_def Let_def
    using authorised_base [of c X] by (cases ?k) (auto intro!: steps)
  then show ?thesis using assms(2) by (auto simp: ctx_remove_key_def dest: keepsD)
qed

lemma new_uref_changes:
  assumes "new_uref X v c = Some (r, c')" "Key_URef (URef (fresh_address X c) None) \<in> S"
  shows "changes Y ents m S c c'"
proof -
  let ?u = "uref_new (fresh_address X c) READ_ADD_WRITE"
  let ?c = "insert_uref ?u (c\<lparr>ctx_address_generator := snd (create_address X (ctx_address_generator c))\<rparr>)"
  have c: "changes Y ents m S c ?c"
    by (simp add: changes_def insert_uref_def static_eq_def uref_new_def)
  have run: "seq (write_gs (Key_URef ?u) v) (\<lambda>_. return (Key_URef ?u)) ?c = Some (r, c')"
    using assms(1) by (simp add: new_uref_def split_beta fresh_address_def Let_def)
  obtain r1 where "write_gs (Key_URef ?u) v ?c = Some (r1, c')"
    using run by (auto simp: seq_def split: option.splits result.splits)
  then have "changes Y ents m S ?c c'"
    by (rule write_gs_changes) (use assms(2) in \<open>simp add: remove_access_rights_def uref_new_def\<close>)
  then show ?thesis using c chg.order_trans by blast
qed

lemma store_function_changes:
  assumes "store_function X v c = Some (r, c')" "Key_URef (URef (fresh_address X c) None) \<in> S"
  shows "changes Y ents m S c c'"
proof (cases "validate_value c v = Ok ()")
  case True
  then obtain r1 where "new_uref X v c = Some (r1, c')"
    using assms(1)
    by (auto simp: store_function_def check_def seq_def split: option.splits result.splits key.splits)
  then show ?thesis by (rule new_uref_changes) (rule assms(2))
next
  case False
  then show ?thesis
    using assms(1) by (auto simp: store_function_def seq_check chg.order_refl split: result.splits)
qed

lemma store_function_at_hash_changes:
  assumes "store_function_at_hash X v c = Some (r, c')" "Key_Hash (function_address X c) \<in> S"
  shows "changes Y ents m S c c'"
proof -
  let ?h = "function_address X c"
  have "keeps (changes Y ents m S)
     (seq (modify inc_fn_store_id) (\<lambda>_. seq (check (\<lambda>c. validate_value c v)) (\<lambda>_.
     seq (on_state (tc_write (Key_Hash ?h) v)) (\<lambda>_. return ?h))))"
    using assms(2)
    by (intro chg.keeps_seq check_keeps chg.keeps_basic tc_write_keeps modify_keeps)
      (simp_all add: inc_fn_store_id_def static_eq_def)
  moreover have "store_function_at_hash X v c =
     seq (modify inc_fn_store_id) (\<lambda>_. seq (check (\<lambda>c. validate_value c v)) (\<lambda>_.
     seq (on_state (tc_write (Key_Hash ?h) v)) (\<lambda>_. return ?h))) c"
    by (simp add: store_function_at_hash_def new_function_address_def seq_assoc seq_check
        u32_to_bytes_def int_to_bytes_def function_address_def)
  ultimately show ?thesis using assms(1) by (metis keepsD)
qed

lemma insert_key_keeps: "keeps (changes X ents m S) (modify (insert_key n k))"
  by (rule modify_keeps)
    (simp add: insert_key_def static_eq_def insert_uref_def split: key.splits option.splits)

lemma put_key_changes:
  assumes laws: "linked_map_laws X ents" and "put_key X n k c = Some (r, c')"
  shows "changes X ents m (authorised X c) c c'"
proof -
  obtain w where w: "from_t (pair_to_bytes str_to_bytes key_to_bytes) named_key_type (n, k) = w" by blast
  let ?p = "seq (of_result (map_err Exec_CLValue w)) (\<lambda>named_key_value.
      seq (check (\<lambda>c. validate_value c (SV_CLValue named_key_value))) (\<lambda>_.
      seq (add_unsafe X (ctx_base_key c) (SV_CLValue named_key_value)) (\<lambda>_.
        modify (insert_key n k))))"
  have keeps: "keeps (changes X ents m (authorised X c)) ?p"
    by (intro chg.keeps_seq chg.keeps_basic check_keeps add_unsafe_keeps [OF laws authorised_base] insert_key_keeps)
  have "put_key X n k c = ?p c"
    by (cases w) (auto simp: put_key_def w seq_check split: result.splits)
  then have "?p c = Some (r, c')" using assms(2) by (simp only:)
  then show ?thesis by (rule keepsD [OF keeps])
qed

lemma local_state_changes:
  assumes laws: "linked_map_laws X ents"
  shows "read_ls X b c = Some (r, c') \<Longrightarrow> changes X ents m (authorised X c) c c'"
    and "write_ls X b v c = Some (q, c') \<Longrightarrow> changes X ents m (authorised X c) c c'"
    and "add_ls X b v c = Some (q, c') \<Longrightarrow> changes X ents m (authorised X c) c c'"
proof -
  have "keeps (changes X ents m S) (read_ls_with_seed X (ctx_seed c) b)" for S
    unfolding read_ls_with_seed_def
    by (intro chg.keeps_seq tc_read_keeps [OF laws])
      (auto intro!: chg.keeps_seq chg.keeps_basic split: option.splits)
  then show "read_ls X b c = Some (r, c') \<Longrightarrow> changes X ents m (authorised X c) c c'"
    by (auto simp: read_ls_def dest: keepsD)
  show "write_ls X b v c = Some (q, c') \<Longrightarrow> changes X ents m (authorised X c) c c'"
    by (auto simp: write_ls_def dest: keepsD [OF tc_write_keeps [OF authorised_local]])
  show "add_ls X b v c = Some (q, c') \<Longrightarrow> changes X ents m (authorised X c) c c'"
    by (auto simp: add_ls_def dest: keepsD [OF add_unsafe_keeps [OF laws authorised_local]])
qed

lemma ignore_run:
  assumes "ignore m c = Some (r, c')"
  obtains r' where "m c = Some (r', c')"
  using assms by (auto simp: seq_def split: option.splits result.splits)

lemma run_op_changes:
  assumes laws: "linked_map_laws X ents" and run: "run_op X op c = Some (r, c')"
  shows "changes X ents m (authorised X c) c c'"
proof -
  have fresh: "Key_URef (URef (fresh_address X c) None) \<in> authorised X c"
    "Key_Hash (function_address X c) \<in> authorised X c"
    by (simp_all add: authorised_def)
  show ?thesis
  proof (cases op)
    case (ReadGs k)
    from run [unfolded this run_op.simps] show ?thesis
      by (rule ignore_run) (rule keepsD [OF read_gs_keeps [OF laws]])
  next
    case (WriteGs k v)
    then show ?thesis
      using run by (auto intro!: write_gs_changes authorised_writeable simp: validate_writeable_def)
  next
    case (AddGs k v)
    then show ?thesis using run add_gs_changes [OF laws] by simp
  next
    case (NewURef v)
    from run [unfolded this run_op.simps] show ?thesis
      by (rule ignore_run) (rule new_uref_changes [OF _ fresh(1)])
  next
    case (PutKey n k)
    then show ?thesis using run put_key_changes [OF laws] by simp
  next
    case (RemoveName n)
    then show ?thesis using run remove_key_changes [OF laws] by simp
  next
    case (ReadLs b)
    from run [unfolded this run_op.simps] show ?thesis
      by (rule ignore_run) (rule local_state_changes(1) [OF laws])
  next
    case (WriteLs b v)
    then show ?thesis using run local_state_changes(2) [OF laws] by simp
  next
    case (AddLs b v)
    then show ?thesis using run local_state_changes(3) [OF laws] by simp
  next
    case (StoreFunction v)
    from run [unfolded this run_op.simps] show ?thesis
      by (rule ignore_run) (rule store_function_changes [OF _ fresh(1)])
  next
    case (StoreFunctionAtHash v)
    from run [unfolded this run_op.simps] show ?thesis
      by (rule ignore_run) (rule store_function_at_hash_changes [OF _ fresh(2)])
  next
    case (UpgradeContract k b n)
    then show ?thesis using run upgrade_contract_changes by simp
  qed (use run manage_account_changes [OF laws] in \<open>simp_all add: ctx_add_associated_key_def
      ctx_remove_associated_key_def ctx_update_associated_key_def ctx_set_action_threshold_def\<close>)
qed

section \<open>Access rights\<close>

lemma rights_inter_eq_iff: "rights_inter r s = s \<longleftrightarrow> bits r AND bits s = bits s"
proof -
  have "bits s AND 7 = bits s"
    using from_bits_bits [of s] by (metis bits_rights_of from_bits_def option.distinct(1) option.inject)
  then have "(bits r AND bits s) AND 7 = bits r AND bits s"
    by (simp add: and.assoc)
  then show ?thesis by (simp add: rights_inter_def bits_eq_iff [symmetric])
qed

lemma rights_inter_trans:
  "rights_inter p q = q \<Longrightarrow> rights_inter q r = r \<Longrightarrow> rights_inter p r = r"
  by (metis rights_inter_eq_iff and.assoc)

text \<open>Which references with access rights a context accepts.\<close>

lemma validate_uref_Ok_iff:
  "access_rights u = Some r \<Longrightarrow> validate_uref c u = Ok () \<longleftrightarrow>
     covered_by_purse c u \<or>
     (\<exists>s. fmlookup (ctx_access_rights c) (addr u) = Some s \<and> (\<exists>q. q |\<in>| s \<and> rights_inter q r = r))"
  by (auto simp: validate_uref_def split: option.splits)

definition same_rights :: "('m, 'g) runtime_context \<Rightarrow> ('m, 'g) runtime_context \<Rightarrow> bool" where
  "same_rights c c' \<longleftrightarrow> ctx_access_rights c' = ctx_access_rights c \<and> static_eq c c'"

definition grants :: "array32 set \<Rightarrow> ('m, 'g) runtime_context \<Rightarrow> ('m, 'g) runtime_context \<Rightarrow> bool" where
  "grants A c c' \<longleftrightarrow> static_eq c c' \<and>
     (\<forall>u r. access_rights u = Some r \<longrightarrow> addr u \<notin> A \<longrightarrow>
        (validate_uref c' u = Ok () \<longleftrightarrow> validate_uref c u = Ok ()))"

interpretation srt: state_order same_rights
  by unfold_locales (auto simp: same_rights_def static_eq_def)

interpretation gr: state_order "grants A" for A
  by unfold_locales (auto simp: grants_def static_eq_def)

lemma validate_uref_cong:
  "ctx_access_rights c' = ctx_access_rights c \<Longrightarrow> ctx_account c' = ctx_account c \<Longrightarrow>
   validate_uref c' u = validate_uref c u"
  by (simp add: validate_uref_def covered_by_purse_def)

lemma validate_uref_same: "same_rights c c' \<Longrightarrow> validate_uref c' u = validate_uref c u"
  by (rule validate_uref_cong) (simp_all add: same_rights_def static_eq_def)

lemma same_rights_grants: "same_rights c c' \<Longrightarrow> grants A c c'"
  using validate_uref_same [of c c'] by (simp add: grants_def same_rights_def)

lemma keeps_same_grants: "keeps same_rights m \<Longrightarrow> m c = Some (r, c') \<Longrightarrow> grants A c c'"
  by (rule same_rights_grants) (rule keepsD)

lemma grants_mono: "grants A c c' \<Longrightarrow> A \<subseteq> B \<Longrightarrow> grants B c c'"
  by (auto simp: grants_def)

lemma check_same: "keeps same_rights (check f)"
  by (simp add: keeps_def check_def srt.order_refl)

lemma on_state_same: "keeps same_rights (on_state op)"
  by (auto simp: keeps_def zoom_def same_rights_def static_eq_def split: option.splits)

lemma modify_same: "keeps same_rights (modify (forget_name n))" "keeps same_rights (modify inc_fn_store_id)"
  by (simp_all add: keeps_def same_rights_def static_eq_def forget_name_def inc_fn_store_id_def)

lemma add_unsafe_same: "keeps same_rights (add_unsafe X k v)"
  unfolding add_unsafe_def
  by (rule srt.keeps_seq [OF on_state_same]) (simp add: srt.keeps_basic split: add_result.splits)

lemma read_gs_same: "keeps same_rights (read_gs X k)"
  unfolding read_gs_def by (intro srt.keeps_seq check_same on_state_same)

lemma read_gs_typed_same: "keeps same_rights (read_gs_typed X try_from k)"
  unfolding read_gs_typed_def
  by (rule srt.keeps_seq [OF read_gs_same]) (simp add: srt.keeps_basic split: option.splits)

lemmas same_intros = srt.keeps_seq srt.keeps_basic check_same on_state_same modify_same add_unsafe_same
  read_gs_same read_gs_typed_same

lemma write_gs_same: "keeps same_rights (write_gs k v)"
  unfolding write_gs_def by (intro same_intros)

lemma add_gs_same: "keeps same_rights (add_gs X k v)"
  unfolding add_gs_def by (intro same_intros)

lemma local_state_same:
  "keeps same_rights (read_ls X b)" "keeps same_rights (write_ls X b v)" "keeps same_rights (add_ls X b v)"
  unfolding read_ls_def write_ls_def add_ls_def read_ls_with_seed_def
  by (auto intro!: same_intros split: option.splits)

lemma upgrade_same: "keeps same_rights (upgrade_contract_at_uref k b n)"
  unfolding upgrade_contract_at_uref_def by (intro same_intros)

lemma store_at_hash_same: "keeps same_rights (store_function_at_hash X v)"
  unfolding store_function_at_hash_def new_function_address_def by (intro same_intros)

lemma manage_account_same: "keeps same_rights (manage_account X into d f)"
  unfolding manage_account_def by (auto simp: split_beta Let_def intro!: same_intros)

lemma remove_key_same: "keeps same_rights (ctx_remove_key X n)"
  unfolding ctx_remove_key_def remove_key_from_contract_def Let_def
  by (rule srt.keeps_seq) (auto intro!: same_intros split: key.splits)

section \<open>New references\<close>

lemma validate_insert_uref:
  assumes "access_rights u = Some r" "addr u \<noteq> addr v \<or> validate_uref c v = Ok ()"
  shows "validate_uref (insert_uref v c) u = Ok () \<longleftrightarrow> validate_uref c u = Ok ()"
proof (cases "access_rights v")
  case None
  then show ?thesis by (simp add: insert_uref_def)
next
  case (Some rv)
  have purse: "covered_by_purse (insert_uref v c) u = covered_by_purse c u"
    by (simp add: covered_by_purse_def insert_uref_def Some)
  show ?thesis
  proof (cases "addr u = addr v")
    case False
    then show ?thesis
      by (simp add: validate_uref_Ok_iff [OF assms(1)] purse) (simp add: insert_uref_def Some)
  next
    case True
    have "validate_uref c v = Ok ()" using assms(2) True by simp
    then have v: "covered_by_purse c v \<or> (\<exists>s. fmlookup (ctx_access_rights c) (addr u) = Some s \<and>
        (\<exists>q. q |\<in>| s \<and> rights_inter q rv = rv))"
      by (simp add: validate_uref_Ok_iff [OF Some] True)
    have "validate_uref c u = Ok ()" if rv: "rights_inter rv r = r"
      using v
    proof
      assume "covered_by_purse c v"
      then have "covered_by_purse c u"
        using True Some assms(1) rv
        by (auto simp: covered_by_purse_def Let_def split: option.splits intro: rights_inter_trans)
      then show ?thesis by (simp add: validate_uref_def)
    next
      assume "\<exists>s. fmlookup (ctx_access_rights c) (addr u) = Some s \<and> (\<exists>q. q |\<in>| s \<and> rights_inter q rv = rv)"
      then show ?thesis
        using rv by (auto simp: validate_uref_Ok_iff [OF assms(1)] intro: rights_inter_trans)
    qed
    then show ?thesis
      using True
      by (auto simp: validate_uref_Ok_iff [OF assms(1)] purse)
        (auto simp: insert_uref_def Some split: option.splits)
  qed
qed

lemma write_gs_grants: "write_gs k v c = Some (r, c') \<Longrightarrow> grants A c c'"
  by (rule same_rights_grants) (rule keepsD [OF write_gs_same])

lemma new_uref_grants:
  assumes "new_uref X v c = Some (r, c')"
  shows "grants {fresh_address X c} c c'"
proof -
  let ?u = "uref_new (fresh_address X c) READ_ADD_WRITE"
  let ?c = "c\<lparr>ctx_address_generator := snd (create_address X (ctx_address_generator c))\<rparr>"
  obtain r1 where w: "write_gs (Key_URef ?u) v (insert_uref ?u ?c) = Some (r1, c')"
    using assms
    by (auto simp: new_uref_def split_beta fresh_address_def Let_def seq_def split: option.splits result.splits)
  have "same_rights c ?c" by (simp add: same_rights_def static_eq_def)
  then have "grants {fresh_address X c} c ?c" by (rule same_rights_grants)
  moreover have "grants {fresh_address X c} ?c (insert_uref ?u ?c)"
  proof -
    have "static_eq ?c (insert_uref ?u ?c)"
      by (simp add: static_eq_def insert_uref_def split: option.split)
    then show ?thesis
      by (auto simp: grants_def validate_insert_uref uref_new_def)
  qed
  ultimately show ?thesis using write_gs_grants [OF w] gr.order_trans by blast
qed

lemma put_key_grants:
  assumes "put_key X n k c = Some (r, c')"
  shows "grants A c c'"
proof -
  obtain w where w: "from_t (pair_to_bytes str_to_bytes key_to_bytes) named_key_type (n, k) = w" by blast
  show ?thesis
  proof (cases "\<exists>v. w = Ok v \<and> validate_value c (SV_CLValue v) = Ok ()")
    case True
    then obtain v where v: "w = Ok v" "validate_value c (SV_CLValue v) = Ok ()" by blast
    have ty: "cl_type v = named_key_type"
      using w v(1) by (auto simp: from_t_def result_simps)
    have "into_t (pair_from_bytes string_from_bytes key_from_bytes) named_key_type v = Ok (n, k)"
      by (rule into_t_from_t [OF pair_codec [OF strc.codec_axioms keyc.codec_axioms]])
        (use w v(1) in simp_all)
    then have key: "validate_key c k = Ok ()"
      using v(2) ty by (simp add: validate_value_def named_key_type_def)
    obtain c1 r1 where c1: "add_unsafe X (ctx_base_key c) (SV_CLValue v) c = Some (r1, c1)"
      and c': "c' = (case r1 of Ok _ \<Rightarrow> insert_key n k c1 | _ \<Rightarrow> c1)"
      using assms by (auto simp: put_key_def w v check_def seq_def split: option.splits result.splits)
    have same: "same_rights c c1" by (rule keepsD [OF add_unsafe_same c1])
    have "grants A c1 (insert_key n k c1)"
    proof (cases k)
      case (Key_URef u)
      then have "validate_uref c1 u = Ok ()"
        using key validate_uref_same [OF same] by (simp add: validate_key_def)
      moreover have "validate_uref (insert_key n k c1) w = validate_uref (insert_uref u c1) w" for w
        by (rule validate_uref_cong) (simp_all add: Key_URef insert_key_def Let_def)
      moreover have "static_eq c1 (insert_key n k c1)"
        by (simp add: static_eq_def insert_key_def Key_URef insert_uref_def split: option.split)
      ultimately show ?thesis by (auto simp: grants_def validate_insert_uref)
    qed (auto intro!: same_rights_grants simp: same_rights_def static_eq_def insert_key_def)
    then show ?thesis
      using same_rights_grants [OF same, of A] c' gr.order_trans by (auto split: result.splits)
  next
    case False
    then have "c' = c"
      using assms by (cases w) (auto simp: put_key_def w seq_check split: result.splits)
    then show ?thesis by (simp add: gr.order_refl)
  qed
qed

lemma store_function_grants:
  assumes "store_function X v c = Some (r, c')"
  shows "grants {fresh_address X c} c c'"
proof (cases "validate_value c v = Ok ()")
  case True
  then obtain r1 where "new_uref X v c = Some (r1, c')"
    using assms
    by (auto simp: store_function_def check_def seq_def split: option.splits result.splits key.splits)
  then show ?thesis by (rule new_uref_grants)
next
  case False
  then show ?thesis
    using assms by (auto simp: store_function_def seq_check gr.order_refl split: result.splits)
qed

lemma run_op_grants:
  assumes run: "run_op X op c = Some (r, c')"
  shows "grants {fresh_address X c} c c'"
proof -
  note same = keeps_same_grants
  note [simp] = ctx_add_associated_key_def ctx_remove_associated_key_def ctx_update_associated_key_def
    ctx_set_action_threshold_def
  show ?thesis
  proof (cases op)
    case (ReadGs k)
    from run [unfolded this run_op.simps] show ?thesis by (rule ignore_run) (rule same [OF read_gs_same])
  next
    case (NewURef v)
    from run [unfolded this run_op.simps] show ?thesis by (rule ignore_run) (rule new_uref_grants)
  next
    case (PutKey n k)
    then show ?thesis using run put_key_grants by simp
  next
    case (ReadLs b)
    from run [unfolded this run_op.simps] show ?thesis
      by (rule ignore_run) (rule same [OF local_state_same(1)])
  next
    case (StoreFunction v)
    from run [unfolded this run_op.simps] show ?thesis by (rule ignore_run) (rule store_function_grants)
  next
    case (StoreFunctionAtHash v)
    from run [unfolded this run_op.simps] show ?thesis
      by (rule ignore_run) (rule same [OF store_at_hash_same])
  qed (use run in \<open>auto intro: same [OF write_gs_same] same [OF add_gs_same] same [OF remove_key_same]
      same [OF local_state_same(2)] same [OF local_state_same(3)] same [OF upgrade_same]
      same [OF manage_account_same]\<close>)
qed

section \<open>Runs of a contract\<close>

text \<open>
  Any sequence of operations, whatever their outcome, with the addresses that the generator gave
  for new references on the way.
\<close>

inductive contract_run ::
    "('m, 'g, 'z) runtime_externals_scheme \<Rightarrow> ('m, 'g) runtime_context \<Rightarrow> array32 set \<Rightarrow>
     ('m, 'g) runtime_context \<Rightarrow> bool"
  for X c where
  start: "contract_run X c {} c"
| run_step: "contract_run X c F c' \<Longrightarrow> run_op X op c' = Some (r, c'') \<Longrightarrow>
    contract_run X c (insert (fresh_address X c') F) c''"

definition footprint ::
    "('m, 'g, 'z) runtime_externals_scheme \<Rightarrow> ('m, 'g) runtime_context \<Rightarrow> array32 set \<Rightarrow> key set" where
  "footprint X c F =
     {key_normalize (ctx_base_key c)}
     \<union> {Key_URef (URef a None) | a. a \<in> F}
     \<union> {Key_Hash (blake2b X (array_bytes (ctx_deploy_hash c) @ to_le_bytes 4 n)) | n :: u32. True}
     \<union> {key_local (blake2b X) (ctx_seed c) b | b. True}
     \<union> {Key_URef (remove_access_rights u) | u.
          validate_uref c u = Ok () \<and> (uref_is_writeable u \<or> uref_is_addable u)}"

lemma footprint_mono: "F \<subseteq> G \<Longrightarrow> footprint X c F \<subseteq> footprint X c G"
  by (auto simp: footprint_def)

lemma contract_run_grants: "contract_run X c F c' \<Longrightarrow> grants F c c'"
proof (induction rule: contract_run.induct)
  case (run_step F c' op r c'')
  have "grants (insert (fresh_address X c') F) c' c''"
    by (rule grants_mono [OF run_op_grants [OF run_step.hyps(2)]]) auto
  moreover have "grants (insert (fresh_address X c') F) c c'"
    by (rule grants_mono [OF run_step.IH]) auto
  ultimately show ?case using gr.order_trans by blast
qed (rule gr.order_refl)

lemma authorised_footprint:
  assumes "grants F c c'"
  shows "authorised X c' \<subseteq> footprint X c (insert (fresh_address X c') F)"
proof
  fix k assume k: "k \<in> authorised X c'"
  have s: "static_eq c c'" using assms by (simp add: grants_def)
  then have "ctx_seed c' = ctx_seed c" by (simp add: static_eq_def ctx_seed_def)
  with k s consider "k \<in> footprint X c (insert (fresh_address X c') F)"
    | u where "k = Key_URef (remove_access_rights u)" "validate_uref c' u = Ok ()"
      "uref_is_writeable u \<or> uref_is_addable u"
    by (auto simp: authorised_def footprint_def static_eq_def function_address_def)
  then show "k \<in> footprint X c (insert (fresh_address X c') F)"
  proof cases
    case (2 u)
    then obtain r where r: "access_rights u = Some r"
      by (auto simp: uref_is_writeable_def uref_is_addable_def split: option.splits)
    show ?thesis
    proof (cases "addr u \<in> F")
      case True
      then show ?thesis using 2 by (auto simp: footprint_def remove_access_rights_def)
    next
      case False
      then have "validate_uref c u = Ok ()" using assms r 2(2) by (auto simp: grants_def)
      then show ?thesis using 2 by (auto simp: footprint_def)
    qed
  qed
qed

lemma contract_run_changes:
  assumes laws: "linked_map_laws X ents"
  shows "contract_run X c F c' \<Longrightarrow> changes X ents m (footprint X c F) c c'"
proof (induction rule: contract_run.induct)
  case (run_step F c' op r c'')
  let ?S = "footprint X c (insert (fresh_address X c') F)"
  have "changes X ents m ?S c' c''"
    by (rule changes_mono [OF run_op_changes [OF laws run_step.hyps(2)]
          authorised_footprint [OF contract_run_grants [OF run_step.hyps(1)]]])
  moreover have "changes X ents m ?S c c'"
    by (rule changes_mono [OF run_step.IH footprint_mono]) auto
  ultimately show ?case using chg.order_trans by blast
qed (rule chg.order_refl)

end
