(* ===== verification/Context_Props.thy ===== *)
theory Context_Props
  imports Context_Safety
begin

text \<open>
  The properties of the runtime context: what a run of a contract can change, that it gains no access
  rights but to the references it creates, what becomes of rights returned by a call, and the key
  management of an account. Each has its application to a concrete context.
\<close>

section \<open>Key management on the state\<close>

lemma on_read_run:
  assumes "linked_map_laws X ents" "tc_inv X ents m (ctx_state c)"
  obtains tc' where "on_state (tc_read X k) c = Some (Ok (tc_view m (ctx_state c) (key_normalize k)), c\<lparr>ctx_state := tc'\<rparr>)"
    "tc_inv X ents m tc'" "tc_view m tc' = tc_view m (ctx_state c)"
  using tc_read_step [OF assms, of k] by (auto simp: zoom_def reading_step_def)

lemma on_write_run:
  assumes "tc_inv X ents m (ctx_state c)"
  obtains tc' where "on_state (tc_write k v) c = Some (Ok (), c\<lparr>ctx_state := tc'\<rparr>)"
    "tc_inv X ents m tc'" "tc_view m tc' = (tc_view m (ctx_state c))(key_normalize k \<mapsto> v)"
  using assms by (auto simp: zoom_def tc_write_correct)

lemma validate_account_state:
  "validate_value (c\<lparr>ctx_state := tc\<rparr>) (SV_Account a) = validate_value c (SV_Account a)"
proof -
  have "validate_key (c\<lparr>ctx_state := tc\<rparr>) = validate_key c"
    by (auto simp: fun_eq_iff validate_key_def intro!: validate_uref_cong split: key.split)
  then show ?thesis by (simp add: validate_value_def)
qed

definition managed ::
    "('m, 'z) externals_scheme \<Rightarrow> ('m \<Rightarrow> (key \<times> stored_value) list) \<Rightarrow> (key \<rightharpoonup> stored_value) \<Rightarrow>
     (account \<Rightarrow> bool) \<Rightarrow> (account \<Rightarrow> account) \<Rightarrow> ('m, 'g) runtime_context \<Rightarrow>
     (unit, exec_error) result \<Rightarrow> ('m, 'g) runtime_context \<Rightarrow> bool" where
  "managed X ents m accepts g c r c' \<longleftrightarrow>
     tc_inv X ents m (ctx_state c') \<and>
     (r = Ok () \<longleftrightarrow> is_valid_context c \<and> can_manage_keys_with (ctx_account c) (ctx_authorization_keys c) \<and>
        (\<exists>a. tc_view m (ctx_state c) (ctx_base_key c) = Some (SV_Account a) \<and> accepts a \<and>
           validate_value c (SV_Account (g a)) = Ok ())) \<and>
     (if r = Ok ()
      then \<exists>a. tc_view m (ctx_state c) (ctx_base_key c) = Some (SV_Account a) \<and>
         tc_view m (ctx_state c') = (tc_view m (ctx_state c))(ctx_base_key c \<mapsto> SV_Account (g a))
      else tc_view m (ctx_state c') = tc_view m (ctx_state c))"

lemma manage_account_correct:
  assumes laws: "linked_map_laws X ents" and inv: "tc_inv X ents m (ctx_state c)"
  shows "\<exists>r c'. manage_account X into d f c = Some (r, c') \<and>
     managed X ents m (\<lambda>a. fst (f a) = Ok ()) (\<lambda>a. snd (f a)) c r c'"
proof (cases "is_valid_context c \<and> can_manage_keys_with (ctx_account c) (ctx_authorization_keys c)")
  case False
  then show ?thesis using inv by (auto simp: manage_account_def managed_def)
next
  case True
  let ?k = "Key_Account (acc_public_key (ctx_account c))"
  let ?v = "tc_view m (ctx_state c) ?k"
  let ?rest = "\<lambda>account. let (r, account') = f account in
     seq (of_result (map_err into r)) (\<lambda>_.
     seq (check (\<lambda>c. account_to_validated_value c account')) (\<lambda>account_value.
       on_state (tc_write ?k account_value)))"
  have base: "ctx_base_key c = ?k" using True by (simp add: is_valid_context_def)
  obtain tc1 where tc1: "on_state (tc_read X ?k) c = Some (Ok ?v, c\<lparr>ctx_state := tc1\<rparr>)"
    "tc_inv X ents m tc1" "tc_view m tc1 = tc_view m (ctx_state c)"
    by (rule on_read_run [OF assms, of ?k, unfolded key_normalize.simps])
  let ?c1 = "c\<lparr>ctx_state := tc1\<rparr>"
  have "read_gs X ?k c = Some (Ok ?v, ?c1)"
    using base tc1(1)
    by (simp add: read_gs_def seq_check validate_readable_def is_readable_def validate_key_def)
  then have read: "seq (read_gs X ?k) g c = g ?v ?c1" for g :: "_ \<Rightarrow> (_, unit, _) exec"
    by (simp add: seq_def)
  have run: "manage_account X into d f c =
      (case ?v of None \<Rightarrow> Some (Err (Exec_KeyNotFound ?k), ?c1)
       | Some v \<Rightarrow> seq (of_result (map_err (\<lambda>e. FunctionNotFound (Typed_Read ?k e)) (account_try_from v))) ?rest ?c1)"
    using True by (simp add: manage_account_def read_gs_typed_def seq_assoc read split: option.split)
  consider a where "?v = Some (SV_Account a)" | "\<forall>a. ?v \<noteq> Some (SV_Account a)" by blast
  then show ?thesis
  proof cases
    case (1 a)
    obtain tc2 where tc2: "on_state (tc_write ?k (SV_Account (snd (f a)))) ?c1 = Some (Ok (), ?c1\<lparr>ctx_state := tc2\<rparr>)"
      "tc_inv X ents m tc2" "tc_view m tc2 = (tc_view m tc1)(?k \<mapsto> SV_Account (snd (f a)))"
      by (rule on_write_run [of X ents m ?c1 ?k "SV_Account (snd (f a))", unfolded key_normalize.simps])
        (use tc1(2) in simp_all)
    then show ?thesis
      using 1 True tc1 base
      by (cases "f a"; cases "fst (f a)"; cases "validate_value c (SV_Account (snd (f a)))")
        (auto simp: run managed_def account_to_validated_value_def seq_check validate_account_state)
  next
    case 2
    then show ?thesis
      using tc1
    proof (cases ?v)
      case (Some v)
      then show ?thesis using 2 tc1 by (cases v) (auto simp: run managed_def base)
    qed (auto simp: run managed_def base)
  qed
qed

fun account_op_of :: "contract_op \<Rightarrow> account_op option" where
  "account_op_of (AddAssociatedKey k w) = Some (AddKey k w)"
| "account_op_of (RemoveAssociatedKey k) = Some (RemoveKey k)"
| "account_op_of (UpdateAssociatedKey k w) = Some (UpdateKey k w)"
| "account_op_of (SetActionThreshold ty w) = Some (SetThreshold ty w)"
| "account_op_of _ = None"

fun account_accepts :: "account_op \<Rightarrow> account \<Rightarrow> bool" where
  "account_accepts (AddKey k w) a = (fst (add_associated_key a k w) = Ok ())"
| "account_accepts (RemoveKey k) a = (fst (remove_associated_key a k) = Ok ())"
| "account_accepts (UpdateKey k w) a = (fst (update_associated_key a k w) = Ok ())"
| "account_accepts (SetThreshold ty w) a = (fst (set_action_threshold a ty w) = Ok ())"
| "account_accepts (AppendNamedKeys nk) a = True"

lemma key_op_correct:
  assumes "linked_map_laws X ents" "tc_inv X ents m (ctx_state c)" "account_op_of op = Some aop"
  shows "\<exists>r c'. run_op X op c = Some (r, c') \<and> managed X ents m (account_accepts aop) (account_step aop) c r c'"
proof -
  have step: "account_step (AddKey k w) = (\<lambda>a. snd (add_associated_key a k w))"
    "account_step (RemoveKey k) = (\<lambda>a. snd (remove_associated_key a k))"
    "account_step (UpdateKey k w) = (\<lambda>a. snd (update_associated_key a k w))"
    "account_step (SetThreshold ty w) = (\<lambda>a. snd (set_action_threshold a ty w))"
    "account_accepts (AddKey k w) = (\<lambda>a. fst (add_associated_key a k w) = Ok ())"
    "account_accepts (RemoveKey k) = (\<lambda>a. fst (remove_associated_key a k) = Ok ())"
    "account_accepts (UpdateKey k w) = (\<lambda>a. fst (update_associated_key a k w) = Ok ())"
    "account_accepts (SetThreshold ty w) = (\<lambda>a. fst (set_action_threshold a ty w) = Ok ())" for k w ty
    by (simp_all add: fun_eq_iff)
  show ?thesis
    using assms(3)
    by (cases op) (auto simp del: account_step.simps account_accepts.simps
        simp: step manage_account_correct [OF assms(1,2)] ctx_add_associated_key_def
        ctx_remove_associated_key_def ctx_update_associated_key_def ctx_set_action_threshold_def)
qed

section \<open>A concrete context\<close>

definition list_runtime :: "((key \<times> stored_value) list, nat) runtime_externals" where
  "list_runtime =
     \<lparr>lhm_new = lhm_new list_externals,
      lhm_insert = lhm_insert list_externals,
      lhm_get_refresh = lhm_get_refresh list_externals,
      lhm_pop_front = lhm_pop_front list_externals,
      size_of_stored_value = 200,
      string_capacity = string_capacity list_externals,
      blake2b = (\<lambda>_. array32_fill 9),
      rng_from_seed = (\<lambda>_. 1),
      rng_fill_bytes = (\<lambda>n. (array32_fill (of_nat n), n + 1))\<rparr>"

lemma list_runtime_laws: "linked_map_laws list_runtime (\<lambda>l. l)"
  using list_externals_laws by (simp add: linked_map_laws_def list_runtime_def)

definition example_account :: account where
  "example_account = account_create (array32_fill 0) fmempty (uref_new (array32_fill 200) READ_ADD_WRITE)"

text \<open>A deploy of the account, over a state that holds the account.\<close>

definition example_context :: "((key \<times> stored_value) list, nat) runtime_context" where
  "example_context =
     \<lparr>ctx_state = tracking_copy_new list_runtime (\<lambda>k. Some (Ok ([example_key \<mapsto> SV_Account example_account] k))),
      ctx_named_keys = fmempty,
      ctx_access_rights = fmap_of_list [(array32_fill 100, {|READ_WRITE|})],
      ctx_account = example_account,
      ctx_args = [],
      ctx_authorization_keys = {|array32_fill 0|},
      ctx_base_key = example_key,
      ctx_blocktime = BlockTime 0,
      ctx_deploy_hash = array32_fill 0,
      ctx_gas_limit = Gas 0,
      ctx_gas_counter = Gas 0,
      ctx_fn_store_id = 0,
      ctx_address_generator = 1,
      ctx_protocol_version = V1_0_0,
      ctx_phase = Session,
      ctx_protocol_data = protocol_data_default\<rparr>"

lemma example_context_inv:
  "tc_inv list_runtime (\<lambda>l. l) [example_key \<mapsto> SV_Account example_account] (ctx_state example_context)"
  unfolding example_context_def runtime_context.select_convs
  by (rule tc_inv_new [OF list_runtime_laws]) (simp add: reads_as_def)

definition example_uref :: "access_rights \<Rightarrow> uref" where
  "example_uref r = URef (array32_fill 100) (Some r)"

lemma example_rights:
  "validate_uref example_context (example_uref READ_WRITE) = Ok ()"
  "validate_uref example_context (example_uref READ_ADD_WRITE) = Err (ForgedReference (example_uref READ_ADD_WRITE))"
  by (simp_all add: validate_uref_def covered_by_purse_def example_context_def example_uref_def
      example_account_def account_create_def uref_new_def rights_inter_eq_iff)

definition written_context :: "((key \<times> stored_value) list, nat) runtime_context" where
  "written_context = example_context\<lparr>ctx_state :=
     record_effect (Key_URef (URef (array32_fill 100) None)) Op_Write (Write example_value)
       (write_cache (Key_URef (URef (array32_fill 100) None)) example_value (ctx_state example_context))\<rparr>"

lemma example_run:
  "contract_run list_runtime example_context {fresh_address list_runtime example_context} written_context"
proof -
  have "run_op list_runtime (WriteGs (Key_URef (example_uref READ_WRITE)) example_value) example_context =
      Some (Ok (), written_context)"
    using example_rights(1)
    by (simp add: write_gs_def seq_check validate_writeable_def is_writeable_def uref_is_writeable_def
        rights_is_writeable_def rights_inter_def validate_key_def validate_value_def example_value_def
        zoom_def tc_write_correct written_context_def remove_access_rights_def example_uref_def)
  then show ?thesis using contract_run.run_step [OF contract_run.start] by fastforce
qed

section \<open>Properties\<close>





text \<open>C11. Rights returned by a call replace what was known of their address: afterwards a reference with
  rights is accepted exactly if the main purse covers it, or the returned rights for its address do, or
  its address is not among the returned ones and it was accepted before.\<close>

theorem access_rights_extend_replaces:
  assumes "access_rights u = Some r"
  shows "validate_uref (access_rights_extend rights c) u = Ok () \<longleftrightarrow>
    covered_by_purse c u \<or>
    (case fmlookup rights (addr u) of
       Some s \<Rightarrow> \<exists>q. q |\<in>| s \<and> rights_inter q r = r
     | None \<Rightarrow> validate_uref c u = Ok ())"
  using assms
  by (auto simp: validate_uref_Ok_iff access_rights_extend_def covered_by_purse_def split: option.splits)

theorem access_rights_extend_replaces_witness:
  "validate_uref example_context (example_uref READ_WRITE) = Ok () \<and>
   validate_uref (access_rights_extend (fmap_of_list [(array32_fill 100, {|READ|})]) example_context)
     (example_uref READ_WRITE) \<noteq> Ok ()"
  using access_rights_extend_replaces [of "example_uref READ_WRITE" READ_WRITE
      "fmap_of_list [(array32_fill 100, {|READ|})]" example_context] example_rights(1)
  by (simp add: example_uref_def covered_by_purse_def example_context_def example_account_def
      account_create_def uref_new_def rights_inter_eq_iff)

text \<open>C10. Each operation of key management ends. It succeeds exactly if the account runs in its own context,
  signed with keys of enough weight to manage it, and the stored account accepts the change and names only
  keys the context accepts; then the changed account is stored under the account's key, still satisfying
  the invariant of accounts if it did before. Otherwise the state is as it was.\<close>

theorem key_management_guarded:
  assumes "linked_map_laws X ents" "tc_inv X ents m (ctx_state c)" "account_op_of op = Some aop"
  shows "\<exists>r c'. run_op X op c = Some (r, c') \<and>
    (r = Ok () \<longleftrightarrow> is_valid_context c \<and> can_manage_keys_with (ctx_account c) (ctx_authorization_keys c) \<and>
       (\<exists>a. tc_view m (ctx_state c) (ctx_base_key c) = Some (SV_Account a) \<and> account_accepts aop a \<and>
          validate_value c (SV_Account (account_step aop a)) = Ok ())) \<and>
    (if r = Ok ()
     then \<exists>a. tc_view m (ctx_state c) (ctx_base_key c) = Some (SV_Account a) \<and>
       tc_view m (ctx_state c') = (tc_view m (ctx_state c))(ctx_base_key c \<mapsto> SV_Account (account_step aop a)) \<and>
       (account_inv a \<longrightarrow> account_inv (account_step aop a))
     else tc_view m (ctx_state c') = tc_view m (ctx_state c))"
proof -
  obtain r c' where run: "run_op X op c = Some (r, c')"
    and c': "managed X ents m (account_accepts aop) (account_step aop) c r c'"
    using key_op_correct [OF assms] by blast
  from c' account_step_inv show ?thesis
    by (intro exI [of _ r] exI [of _ c'] conjI run)
      (auto simp: managed_def simp del: account_step.simps account_accepts.simps)
qed

theorem key_management_guarded_witness:
  "\<exists>c'. run_op list_runtime (AddAssociatedKey (array32_fill 7) 1) example_context = Some (Ok (), c') \<and>
     tc_view [example_key \<mapsto> SV_Account example_account] (ctx_state c') example_key =
       Some (SV_Account (account_step (AddKey (array32_fill 7) 1) example_account))"
proof -
  let ?m = "[example_key \<mapsto> SV_Account example_account]"
  have view: "tc_view ?m (ctx_state example_context) = ?m"
    by (simp add: tc_view_def example_context_def tracking_copy_new_def cache_new_def fun_eq_iff)
  have ctx: "ctx_base_key example_context = example_key" "is_valid_context example_context"
    "can_manage_keys_with (ctx_account example_context) (ctx_authorization_keys example_context)"
    "account_accepts (AddKey (array32_fill 7) 1) example_account"
    "validate_value example_context (SV_Account (account_step (AddKey (array32_fill 7) 1) example_account)) = Ok ()"
    by (simp_all add: example_context_def example_key_def example_account_def account_create_def
        is_valid_context_def can_manage_keys_with_def word_le_nat_alt unat_calculate_keys_weight weight_of_def
        associated_keys_new_def add_associated_key_def add_key_def contains_key_def MAX_KEYS_def
        action_thresholds_default_def validate_value_def fcard.rep_eq)
  from key_management_guarded [OF list_runtime_laws example_context_inv, of "AddAssociatedKey (array32_fill 7) 1"
      "AddKey (array32_fill 7) 1"] ctx
  show ?thesis by (auto simp: view simp del: account_step.simps account_accepts.simps)
qed

end
