(* ===== verification/Host_Rights.thy ===== *)
theory Host_Rights
  imports Host_Dispatch Context_Props
begin

text \<open>
  The access rights of calls between contracts. A callee starts with the rights that its own names and
  the references passed to it carry; a caller gains those that are returned. The table of rights is
  built from consecutive references only, and the returned references are not checked against the
  rights of the callee that returns them.
\<close>

section \<open>Tables of rights\<close>

function groups :: "('k \<times> 'v) list \<Rightarrow> ('k \<times> ('k \<times> 'v) list) list" where
  "groups [] = []"
| "groups (x # xs) =
     (fst x, x # takeWhile (\<lambda>y. fst y = fst x) xs) # groups (dropWhile (\<lambda>y. fst y = fst x) xs)"
  by pat_completeness auto
termination
  by (relation "measure length") (auto simp: le_imp_less_Suc length_dropWhile_le)

lemma groups_run:
  assumes "fst x = k" "\<forall>y \<in> set g. fst y = k" "ys = [] \<or> fst (hd ys) \<noteq> k"
  shows "groups (x # g @ ys) = (k, x # g) # groups ys"
proof -
  have ys: "takeWhile (\<lambda>y. fst y = k) ys = []" "dropWhile (\<lambda>y. fst y = k) ys = ys"
    using assms(3) by (cases ys; simp)+
  have "takeWhile (\<lambda>y. fst y = k) (g @ ys) = g @ takeWhile (\<lambda>y. fst y = k) ys"
    by (rule takeWhile_append2) (use assms(2) in blast)
  moreover have "dropWhile (\<lambda>y. fst y = k) (g @ ys) = dropWhile (\<lambda>y. fst y = k) ys"
    by (rule dropWhile_append2) (use assms(2) in blast)
  ultimately show ?thesis unfolding groups.simps(2) [of x "g @ ys"] assms(1) ys by simp
qed

lemma groups_unique:
  assumes "\<forall>e \<in> set gs. snd e \<noteq> [] \<and> (\<forall>x \<in> set (snd e). fst x = fst e)"
    "successively (\<lambda>g h. fst g \<noteq> fst h) gs"
  shows "groups (concat (map snd gs)) = gs"
  using assms
proof (induction gs)
  case (Cons e rest)
  obtain k x g where e: "e = (k, x # g)" "fst x = k" "\<forall>y \<in> set g. fst y = k"
    using Cons.prems(1) by (cases e; cases "snd e") auto
  have IH: "groups (concat (map snd rest)) = rest"
  proof (rule Cons.IH)
    show "successively (\<lambda>g h. fst g \<noteq> fst h) rest" using Cons.prems(2) by (cases rest) auto
  qed (use Cons.prems(1) in simp)
  have stop: "concat (map snd rest) = [] \<or> fst (hd (concat (map snd rest))) \<noteq> k"
  proof (cases rest)
    case (Cons f fs)
    then obtain y h where f: "snd f = y # h" "fst y = fst f"
      using Cons.prems(1) by (cases "snd f") auto
    moreover have "fst f \<noteq> k" using Cons.prems(2) Cons e(1) by auto
    ultimately show ?thesis using Cons by simp
  qed simp
  show ?case using groups_run [OF e(2,3) stop] IH e(1) by (simp del: groups.simps)
qed simp

lemma group_by_groups: "group_by_law G \<Longrightarrow> G xs = groups xs"
  using groups_unique [of "G xs"] by (auto simp: group_by_law_def split_beta)

text \<open>The last run of consecutive entries with a key.\<close>

definition last_run :: "'k \<Rightarrow> ('k \<times> 'v) list \<Rightarrow> ('k \<times> 'v) list" where
  "last_run a xs = takeWhile (\<lambda>y. fst y = a) (dropWhile (\<lambda>y. fst y \<noteq> a) (rev xs))"

lemma last_run_none:
  assumes "a \<notin> fst ` set ws"
  shows "last_run a (ys @ ws) = last_run a ys"
proof -
  have "dropWhile (\<lambda>y. fst y \<noteq> a) (rev ws @ rev ys) = dropWhile (\<lambda>y. fst y \<noteq> a) (rev ys)"
    by (rule dropWhile_append2) (use assms in auto)
  then show ?thesis by (simp add: last_run_def)
qed

lemma last_dropWhile: "dropWhile P xs \<noteq> [] \<Longrightarrow> last (dropWhile P xs) = last xs"
  by (induction xs) auto

lemma last_run_run:
  assumes "\<forall>z \<in> set zs. fst z = a" "zs \<noteq> []"
  shows "last_run a zs = rev zs"
  using assms by (cases "rev zs") (auto simp: last_run_def)

lemma last_run_later:
  assumes "a \<in> fst ` set rest" "\<forall>z \<in> set run. fst z = k" "fst (hd rest) \<noteq> k"
  shows "last_run a (run @ rest) = last_run a rest"
proof -
  let ?D = "dropWhile (\<lambda>y. fst y \<noteq> a) (rev rest)"
  obtain z where z: "z \<in> set (rev rest)" "\<not> fst z \<noteq> a" using assms(1) by auto
  have D: "dropWhile (\<lambda>y. fst y \<noteq> a) (rev (run @ rest)) = ?D @ rev run"
    unfolding rev_append by (rule dropWhile_append1 [OF z(1)]) (use z(2) in simp)
  show ?thesis
  proof (cases "\<forall>y \<in> set ?D. fst y = a")
    case True
    have ne: "?D \<noteq> []" using z unfolding dropWhile_eq_Nil_conv by blast
    have "rest \<noteq> []" using z(1) by auto
    then have "last ?D = hd rest" unfolding last_dropWhile [OF ne] by (simp add: last_rev)
    then have "fst (hd rest) = a" using bspec [OF True last_in_set [OF ne]] by (simp only:)
    then have "k \<noteq> a" using assms(3) by simp
    then have "takeWhile (\<lambda>y. fst y = a) (rev run) = []"
      using assms(2) unfolding takeWhile_eq_Nil_iff by (metis hd_in_set set_rev)
    moreover have "takeWhile (\<lambda>y. fst y = a) (?D @ rev run) = ?D @ takeWhile (\<lambda>y. fst y = a) (rev run)"
      by (rule takeWhile_append2) (use True in blast)
    moreover have "takeWhile (\<lambda>y. fst y = a) ?D = ?D"
      unfolding takeWhile_eq_all_conv by (rule True)
    ultimately show ?thesis unfolding last_run_def D by (simp only: append_Nil2)
  next
    case False
    then obtain y where y: "y \<in> set ?D" "fst y \<noteq> a" by blast
    show ?thesis unfolding last_run_def D by (rule takeWhile_append1 [OF y(1)]) (use y(2) in simp)
  qed
qed

definition rights_of_run :: "(array32 \<times> access_rights option) list \<Rightarrow> access_rights fset" where
  "rights_of_run zs = fset_of_list (List.map_filter snd zs)"

lemma in_map_filter: "x \<in> set (List.map_filter f xs) \<longleftrightarrow> (\<exists>y \<in> set xs. f y = Some x)"
  by (force simp: List.map_filter_def)

lemma rights_of_run_iff: "q |\<in>| rights_of_run zs \<longleftrightarrow> (\<exists>a. (a, Some q) \<in> set zs)"
  by (force simp: rights_of_run_def fset_of_list_elem in_map_filter)

lemma collect_rights_eq:
  "collect_rights gs = insert_all (map (\<lambda>(k, g). (k, rights_of_run g)) gs) fmempty"
  by (simp add: collect_rights_def rights_of_run_def)

lemma insert_all_last:
  "fmlookup (insert_all kvs m) k =
     (case map_of (rev kvs) k of Some v \<Rightarrow> Some v | None \<Rightarrow> fmlookup m k)"
  by (induction kvs arbitrary: m) (auto simp: map_add_def split: option.splits)

lemma rights_of_run_rev [simp]: "rights_of_run (rev zs) = rights_of_run zs"
  by (auto simp: rights_of_run_iff)

lemma last_run_split:
  assumes "\<forall>z \<in> set run. fst z = k" "run \<noteq> []" "rest = [] \<or> fst (hd rest) \<noteq> k"
  shows "rights_of_run (last_run a (run @ rest)) =
     rights_of_run (if a \<in> fst ` set rest then last_run a rest else if a = k then run else [])"
proof (cases "a \<in> fst ` set rest")
  case True
  then have "rest \<noteq> []" by auto
  then show ?thesis using last_run_later [OF True assms(1)] assms(3) True by (simp only: if_True simp_thms)
next
  case False
  have "last_run a (run @ rest) = last_run a run" by (rule last_run_none [OF False])
  moreover have "a \<noteq> k \<Longrightarrow> last_run a run = []"
    using last_run_none [of a run "[]"] assms(1) by (force simp: last_run_def)
  moreover have "a = k \<Longrightarrow> last_run a run = rev run"
    by (rule last_run_run [OF _ assms(2)]) (use assms(1) in simp)
  ultimately show ?thesis using False by (cases "a = k") simp_all
qed

definition rights_lookup ::
    "array32 \<Rightarrow> (array32 \<times> access_rights option) list \<Rightarrow> access_rights fset option" where
  "rights_lookup a xs = (if a \<in> fst ` set xs then Some (rights_of_run (last_run a xs)) else None)"

lemma rights_lookup_split:
  assumes "\<forall>z \<in> set run. fst z = k" "run \<noteq> []" "rest = [] \<or> fst (hd rest) \<noteq> k"
  shows "rights_lookup a (run @ rest) =
     (case rights_lookup a rest of
        Some s \<Rightarrow> Some s | None \<Rightarrow> if a = k then Some (rights_of_run run) else None)"
proof -
  have "fst ` set run = {k}" using assms(1,2) by (cases run) auto
  then show ?thesis
    unfolding rights_lookup_def last_run_split [OF assms] by (simp add: image_Un)
qed

lemma map_of_groups:
  "map_of (rev (map (\<lambda>(k, g). (k, rights_of_run g)) (groups xs))) a = rights_lookup a xs"
proof (induction xs rule: groups.induct)
  case (2 x xs)
  define run rest where "run = x # takeWhile (\<lambda>y. fst y = fst x) xs"
    and "rest = dropWhile (\<lambda>y. fst y = fst x) xs"
  have xs: "x # xs = run @ rest" by (simp add: run_def rest_def)
  have run: "\<forall>z \<in> set run. fst z = fst x" "run \<noteq> []" by (auto simp: run_def dest: set_takeWhileD)
  have rest: "rest = [] \<or> fst (hd rest) \<noteq> fst x" unfolding rest_def using hd_dropWhile by blast
  have "groups (x # xs) = (fst x, run) # groups rest" by (simp add: run_def rest_def)
  then have "map_of (rev (map (\<lambda>(k, g). (k, rights_of_run g)) (groups (x # xs)))) a =
      (case rights_lookup a rest of
         Some s \<Rightarrow> Some s | None \<Rightarrow> if a = fst x then Some (rights_of_run run) else None)"
    using 2 [folded rest_def] by (auto simp: map_add_def split: option.split)
  then show ?case unfolding xs rights_lookup_split [OF run rest] .
qed (simp add: rights_lookup_def)

lemma collect_groups: "fmlookup (collect_rights (groups xs)) a = rights_lookup a xs"
  by (simp add: collect_rights_eq insert_all_last map_of_groups split: option.split)

lemma rights_table:
  "group_by_law G \<Longrightarrow>
   fmlookup (extract_access_rights_from_keys G keys) a = rights_lookup a (List.map_filter key_to_tuple keys)"
  "group_by_law G \<Longrightarrow>
   fmlookup (extract_access_rights_from_urefs G us) a = rights_lookup a (map (\<lambda>u. (addr u, access_rights u)) us)"
  by (simp_all add: extract_access_rights_from_keys_def extract_access_rights_from_urefs_def
      group_by_groups collect_groups)

lemma set_last_run: "set (last_run a xs) \<subseteq> {x \<in> set xs. fst x = a}"
proof
  fix x assume "x \<in> set (last_run a xs)"
  then have x: "fst x = a" "x \<in> set (dropWhile (\<lambda>y. fst y \<noteq> a) (rev xs))"
    unfolding last_run_def by (blast dest: set_takeWhileD)+
  then show "x \<in> {x \<in> set xs. fst x = a}" using set_dropWhileD [OF x(2)] by simp
qed

lemma rights_lookup_sound:
  assumes "rights_lookup a xs = Some s" "q |\<in>| s"
  shows "(a, Some q) \<in> set xs"
proof -
  have s: "s = rights_of_run (last_run a xs)" using assms(1) by (auto simp: rights_lookup_def split: if_splits)
  then obtain b where "(b, Some q) \<in> set (last_run a xs)" using assms(2) by (auto simp: rights_of_run_iff)
  then show ?thesis using set_last_run by fastforce
qed

lemma rights_table_sound:
  assumes "group_by_law G" "fmlookup (extract_access_rights_from_keys G keys) a = Some s" "q |\<in>| s"
  shows "Key_URef (URef a (Some q)) \<in> set keys"
proof -
  have "(a, Some q) \<in> set (List.map_filter key_to_tuple keys)"
    using assms rights_lookup_sound by (simp add: rights_table)
  then obtain k where "k \<in> set keys" "key_to_tuple k = Some (a, Some q)"
    by (auto simp: in_map_filter)
  then show ?thesis by (auto simp: key_to_tuple_def split: key.splits) (metis uref.collapse)
qed

end
