(* ===== verification/Host_Frame.thy ===== *)
theory Host_Frame
  imports Host_Dispatch Context_Safety
begin

text \<open>
  What host functions leave alone. The locale \<open>context_frame\<close> holds a relation of contexts that all
  updates of a context by a contract respect, \<open>runtime_frame\<close> one of runtimes; every host function but
  the one that charges gas respects it, whatever the interpreter does in a call. The interpretation
  gives that the gas and the identity of a runtime stay as they are.
\<close>

section \<open>Contexts\<close>

locale context_frame = state_order R for R :: "('m, 'g) runtime_context \<Rightarrow> ('m, 'g) runtime_context \<Rightarrow> bool" +
  assumes frame_state: "R c (c\<lparr>ctx_state := tc\<rparr>)"
    and frame_names: "R c (c\<lparr>ctx_named_keys := nk\<rparr>)"
    and frame_rights: "R c (c\<lparr>ctx_access_rights := ar\<rparr>)"
    and frame_store_id: "R c (c\<lparr>ctx_fn_store_id := i\<rparr>)"
    and frame_generator: "R c (c\<lparr>ctx_address_generator := g\<rparr>)"
begin

lemma frame_check: "keeps R (check f)"
  by (simp add: keeps_def check_def order_refl)

lemma frame_on_state: "keeps R (on_state op)"
  by (auto simp: keeps_def zoom_def frame_state split: option.splits)

lemma frame_insert_uref: "R c (insert_uref u c)"
  by (simp add: insert_uref_def frame_rights order_refl split: option.split)

lemma frame_insert_key: "R c (insert_key n k c)"
proof -
  let ?c = "case k of Key_URef u \<Rightarrow> insert_uref u c | _ \<Rightarrow> c"
  have "R c ?c" by (simp add: frame_insert_uref order_refl split: key.split)
  moreover have "R ?c (insert_key n k c)" unfolding insert_key_def Let_def by (rule frame_names)
  ultimately show ?thesis by (rule order_trans)
qed

lemma frame_modify:
  "keeps R (modify (forget_name n))" "keeps R (modify inc_fn_store_id)" "keeps R (modify (insert_key n k))"
  "keeps R (modify (insert_uref u))" "keeps R (modify (access_rights_extend rights))"
  by (simp_all add: keeps_def forget_name_def inc_fn_store_id_def access_rights_extend_def frame_names
      frame_store_id frame_insert_key frame_insert_uref frame_rights)

lemmas frame_basic = keeps_seq keeps_basic frame_check frame_on_state frame_modify

lemma frame_reads:
  "keeps R (read_gs X k)" "keeps R (read_gs_direct X k)" "keeps R (read_ls_with_seed X s b)" "keeps R (read_ls X b)"
  "keeps R (read_account X k)"
  unfolding read_gs_def read_gs_direct_def read_ls_def read_ls_with_seed_def read_account_def
  by (auto intro!: frame_basic split: option.splits key.splits)

lemma frame_add_unsafe: "keeps R (add_unsafe X k v)"
  unfolding add_unsafe_def
  by (rule keeps_seq [OF frame_on_state]) (simp add: keeps_basic split: add_result.splits)

lemma frame_writes:
  "keeps R (write_gs k v)" "keeps R (write_ls X b w)" "keeps R (add_gs X k v)" "keeps R (add_ls X b w)"
  "keeps R (write_account k a)" "keeps R (upgrade_contract_at_uref k b n)"
  unfolding write_gs_def write_ls_def add_gs_def add_ls_def write_account_def upgrade_contract_at_uref_def
  by (auto intro!: frame_basic frame_add_unsafe split: key.splits)

lemma frame_new_uref: "keeps R (new_uref X v)"
proof -
  have "R c (insert_uref u (c\<lparr>ctx_address_generator := g\<rparr>))" for c u g
    using frame_generator frame_insert_uref order_trans by blast
  then have "keeps R (modify (\<lambda>c. insert_uref u (c\<lparr>ctx_address_generator := g\<rparr>)))" for u g
    by (simp add: keeps_def)
  then show ?thesis
    unfolding new_uref_def Let_def by (auto intro!: frame_basic frame_writes)
qed

lemma frame_names_ops: "keeps R (put_key X n k)" "keeps R (ctx_remove_key X n)"
  unfolding put_key_def ctx_remove_key_def remove_key_from_contract_def read_gs_typed_def Let_def
  by (auto intro!: frame_basic frame_add_unsafe frame_reads split: key.splits option.splits)

lemma frame_store: "keeps R (store_function X v)" "keeps R (store_function_at_hash X v)"
  unfolding store_function_def store_function_at_hash_def new_function_address_def
  by (auto intro!: frame_basic frame_new_uref split: key.splits)

lemma frame_manage: "keeps R (manage_account X into d f)"
  unfolding manage_account_def read_gs_typed_def
  by (auto simp: split_beta Let_def intro!: frame_basic frame_reads split: option.splits)

lemmas frame_ops = frame_reads frame_writes frame_new_uref frame_names_ops frame_store frame_manage frame_modify

end

section \<open>Runtimes\<close>

locale runtime_frame = cf: context_frame R + state_order Q
  for R :: "('m, 'g) runtime_context \<Rightarrow> ('m, 'g) runtime_context \<Rightarrow> bool"
    and Q :: "('m, 'g, 'w, 'p) runtime \<Rightarrow> ('m, 'g, 'w, 'p) runtime \<Rightarrow> bool" +
  assumes frame_context: "R (rt_context rt) c \<Longrightarrow> Q rt (rt\<lparr>rt_context := c\<rparr>)"
    and frame_memory: "Q rt (rt\<lparr>rt_memory := w\<rparr>)"
    and frame_host_buf: "Q rt (rt\<lparr>rt_host_buf := b\<rparr>)"
    and frame_cache: "Q rt (rt\<lparr>rt_system_contract_cache := sc\<rparr>)"
begin

lemma frame_on_context: "keeps R op \<Longrightarrow> keeps Q (on_context op)"
  by (auto simp: keeps_def zoom_def intro: frame_context split: option.splits)

lemma frame_probe: "keeps Q (probe f)"
  by (simp add: keeps_def probe_def order_refl)

lemma frame_attempt: "keeps Q op \<Longrightarrow> keeps Q (attempt op)"
  by (auto simp: keeps_def attempt_def split: option.splits result.splits)

lemma frame_host: "keeps Q op \<Longrightarrow> keeps Q (host op)"
  by (auto simp: keeps_def host_def zoom_def split: option.splits)

lemma frame_share: "keeps Q (modify (share_from callee))"
proof -
  have "Q rt (share_from callee rt)" for rt
  proof -
    let ?c = "(rt_context rt)\<lparr>ctx_state := ctx_state (rt_context callee),
        ctx_address_generator := ctx_address_generator (rt_context callee)\<rparr>"
    have "R (rt_context rt) ?c" using cf.frame_state cf.frame_generator cf.order_trans by blast
    then have "Q (rt\<lparr>rt_system_contract_cache := rt_system_contract_cache callee\<rparr>)
        (rt\<lparr>rt_system_contract_cache := rt_system_contract_cache callee, rt_context := ?c\<rparr>)"
      by (intro frame_context) simp
    then show ?thesis unfolding share_from_def using frame_cache order_trans by blast
  qed
  then show ?thesis by (simp add: keeps_def)
qed

lemma frame_buffer:
  "keeps Q (modify (\<lambda>rt. rt\<lparr>rt_host_buf := b\<rparr>))" "keeps Q (modify (\<lambda>rt. rt\<lparr>rt_memory := w\<rparr>))"
  by (simp_all add: keeps_def frame_host_buf frame_memory)

lemmas frame_steps = keeps_seq keeps_basic frame_on_context frame_probe frame_attempt frame_host frame_share
  frame_buffer cf.frame_ops

lemma frame_memory_ops: "keeps Q (bytes_from_mem X p n)" "keeps Q (memory_set X p bs)"
  unfolding bytes_from_mem_def memory_set_def by (intro frame_steps)+

lemma frame_value_from_mem: "keeps Q (value_from_mem X de p n)"
  unfolding value_from_mem_def by (intro frame_steps frame_memory_ops)

lemma frame_values:
  "keeps Q (key_from_mem X p s)" "keeps Q (cl_value_from_mem X p s)" "keeps Q (string_from_mem X p s)"
  unfolding key_from_mem_def cl_value_from_mem_def string_from_mem_def by (rule frame_value_from_mem)+

lemmas frame_mem = frame_memory_ops frame_value_from_mem frame_values

lemma frame_get_function: "keeps Q (get_function_by_name X p s)"
  unfolding get_function_by_name_def Let_def by (auto intro!: frame_steps frame_mem split: option.split)

lemma frame_write_host_buf: "keeps Q (write_host_buf v)"
  unfolding write_host_buf_def by (auto intro!: frame_steps split: option.split)

lemma frame_offer: "keeps Q (offer X v p)"
  unfolding offer_def by (auto intro!: frame_steps frame_mem frame_write_host_buf split: sum.split)

lemma frame_if_free: "keeps Q op \<Longrightarrow> keeps Q (if_host_buf_free op)"
  unfolding if_host_buf_free_def by (auto intro!: frame_steps)

lemma frame_sub_call: "keeps Q (sub_call X p args nk k us v)"
proof -
  have "keeps Q (call_outcome X r b)" for r b
    unfolding call_outcome_def by (auto intro!: frame_steps split: result.split option.split exec_error.split)
  moreover have "keeps Q (\<lambda>_. None)" by (simp add: keeps_def)
  ultimately show ?thesis
    unfolding sub_call_def by (auto intro!: frame_steps split: option.split)
qed

lemma frame_call_contract: "keeps Q (call_contract X k bs)"
  unfolding call_contract_def prepare_call_def Let_def
  by (auto intro!: frame_steps frame_sub_call split: option.split stored_value.split)

lemmas frame_calls = frame_get_function frame_offer frame_if_free frame_call_contract

lemma frame_arguments:
  "keeps Q (get_arg_size X i p)" "keeps Q (get_arg X i p n)" "keeps Q (load_key X a b d n e)"
  unfolding get_arg_size_def get_arg_def load_key_def
  by (auto intro!: frame_steps frame_mem split: option.split result.split)

lemma frame_names_host:
  "keeps Q (has_key X p s)" "keeps Q (rt_put_key X a b d e)" "keeps Q (rt_remove_key X p s)"
  "keeps Q (is_valid_uref X p s)"
  unfolding has_key_def rt_put_key_def rt_remove_key_def is_valid_uref_def
  by (intro frame_steps frame_mem)+

lemma frame_getters:
  "keeps Q (rt_get_main_purse X p)" "keeps Q (rt_get_caller X p)" "keeps Q (get_phase X p)"
  "keeps Q (get_blocktime X p)" "keeps Q (get_system_contract X i p s)"
  unfolding rt_get_main_purse_def rt_get_caller_def get_phase_def get_blocktime_def get_system_contract_def
  by (auto intro!: frame_steps frame_mem split: sum.split)

lemma frame_host_buffer:
  "keeps Q (read_host_buffer X p n w)" "keeps Q (load_named_keys X p q)" "keeps Q (call_contract_host_buf X k bs p)"
  unfolding read_host_buffer_def load_named_keys_def call_contract_host_buf_def take_host_buf_def Let_def
  by (auto intro!: frame_steps frame_mem frame_calls split: option.split)

lemma frame_ret: "keeps Q (ret X p n)"
  unfolding ret_def by (auto intro!: frame_steps frame_mem split: result.split)

lemma frame_storing:
  "keeps Q (rt_store_function X bs nk)" "keeps Q (rt_store_function_at_hash X bs nk)"
  "keeps Q (rt_function_address X h p)"
  unfolding rt_store_function_def rt_store_function_at_hash_def rt_function_address_def
  by (intro frame_steps frame_mem)+

lemma frame_values_host:
  "keeps Q (rt_new_uref X a b d)" "keeps Q (rt_write X a b d e)" "keeps Q (write_local X a b d e)"
  "keeps Q (rt_add X a b d e)" "keeps Q (add_local X a b d e)"
  unfolding rt_new_uref_def rt_write_def write_local_def rt_add_def add_local_def
  by (intro frame_steps frame_mem)+

lemma frame_reads_host: "keeps Q (rt_read X a b d)" "keeps Q (read_local X a b d)"
  unfolding rt_read_def read_local_def
  by (auto intro!: frame_steps frame_mem frame_calls split: option.split)

lemma frame_status_code: "keeps Q op \<Longrightarrow> keeps Q (status_code code op)"
  unfolding status_code_def by (auto intro!: frame_steps split: sum.split option.split)

lemma frame_key_management:
  "keeps Q (rt_add_associated_key X p w)" "keeps Q (rt_remove_associated_key X p)"
  "keeps Q (rt_update_associated_key X p w)" "keeps Q (rt_set_action_threshold X i w)"
  unfolding rt_add_associated_key_def rt_remove_associated_key_def rt_update_associated_key_def
    rt_set_action_threshold_def ctx_add_associated_key_def ctx_remove_associated_key_def
    ctx_update_associated_key_def ctx_set_action_threshold_def
  by (auto intro!: frame_steps frame_mem frame_status_code split: result.split)

lemma frame_mint: "keeps Q (mint_create X k)" "keeps Q (mint_transfer X k s t n)" "keeps Q (get_balance X s)"
  unfolding mint_create_def mint_transfer_def get_balance_def
  by (auto intro!: frame_steps frame_calls split: sum.split option.split result.split key.split stored_value.split)

lemma frame_transfer_to_account: "keeps Q (transfer_from_purse_to_account X s t n)"
  unfolding transfer_from_purse_to_account_def transfer_to_new_account_def transfer_to_existing_account_def Let_def
  by (auto intro!: frame_steps frame_mint split: sum.split option.split stored_value.split)

lemma frame_transfers:
  "keeps Q (transfer_to_account X t n)" "keeps Q (transfer_from_purse_to_purse X a b d e g h)"
  "keeps Q (create_purse X)" "keeps Q (get_balance_host_buf X p l q)"
  unfolding transfer_to_account_def transfer_from_purse_to_purse_def create_purse_def get_balance_host_buf_def
  by (auto intro!: frame_steps frame_mem frame_mint frame_calls frame_transfer_to_account
      split: option.split result.split)

lemma frame_upgrade: "keeps Q (rt_upgrade_contract_at_uref X a b d e)"
  unfolding rt_upgrade_contract_at_uref_def
  by (auto intro!: frame_steps frame_mem frame_calls split: option.split stored_value.split)

lemma frame_dispatched:
  "keeps Q (store_fn X (rt_store_function X) a b d e g)"
  "keeps Q (store_fn X (rt_store_function_at_hash X) a b d e g)"
  "keeps Q (host_create_purse X p n)" "keeps Q (host_transfer_to_account X a b d e)"
  "keeps Q (host_transfer_from_purse_to_account X a b d e g h)"
  unfolding store_fn_def host_create_purse_def host_transfer_to_account_def
    host_transfer_from_purse_to_account_def
  by (auto intro!: frame_steps frame_mem frame_calls frame_storing frame_transfers frame_transfer_to_account)

lemma frame_returns:
  "keeps Q u \<Longrightarrow> keeps Q (returns_nothing u)" "keeps Q a \<Longrightarrow> keeps Q (returns_api a)" "keeps Q i \<Longrightarrow> keeps Q (returns_i32 i)"
  unfolding returns_nothing_def returns_api_def returns_i32_def by (intro frame_steps; assumption)+

lemmas frame_functions = frame_arguments frame_names_host frame_getters frame_host_buffer frame_ret frame_values_host
  frame_reads_host frame_key_management frame_transfers frame_upgrade frame_dispatched

theorem frame_run_function:
  assumes "f \<noteq> GasFuncIndex"
  shows "keeps Q (run_function X f args)"
proof -
  have rev: "keeps Q (revert n)" for n by (simp add: revert_def keeps_basic)
  show ?thesis
    by (cases f)
      (use assms in \<open>auto intro!: keeps_seq keeps_basic frame_returns frame_host frame_functions rev frame_mem\<close>)
qed

end

end
