(* ===== verification/Host_Props.thy ===== *)
theory Host_Props
  imports Host_Rights Host_Frame
begin

text \<open>
  The properties of the host interface: the table of host functions, gas, the host buffer, arguments,
  and the access rights that calls and returns hand over. Each has its application to a runtime over
  a memory that is a list of written blocks.
\<close>

section \<open>Gas and identity\<close>

definition fixed :: "('m, 'g) runtime_context \<Rightarrow> ('m, 'g) runtime_context \<Rightarrow> bool" where
  "fixed c c' \<longleftrightarrow> ctx_gas_counter c' = ctx_gas_counter c \<and> ctx_gas_limit c' = ctx_gas_limit c \<and>
     ctx_base_key c' = ctx_base_key c \<and> ctx_account c' = ctx_account c \<and> ctx_args c' = ctx_args c \<and>
     ctx_authorization_keys c' = ctx_authorization_keys c \<and> ctx_blocktime c' = ctx_blocktime c \<and>
     ctx_deploy_hash c' = ctx_deploy_hash c \<and> ctx_protocol_version c' = ctx_protocol_version c \<and>
     ctx_phase c' = ctx_phase c \<and> ctx_protocol_data c' = ctx_protocol_data c"

interpretation cfx: context_frame fixed
  by unfold_locales (simp_all add: fixed_def)

interpretation rfx: runtime_frame fixed
    "\<lambda>rt rt'. fixed (rt_context rt) (rt_context rt') \<and> rt_module rt' = rt_module rt"
  by unfold_locales (auto simp: fixed_def)

lemma charge_gas_run:
  "rt_gas a rt =
     (if unat (gas_value (ctx_gas_counter (rt_context rt))) + unat (gas_value a)
         \<le> unat (gas_value (ctx_gas_limit (rt_context rt)))
      then Some (Ok (), rt\<lparr>rt_context := set_gas_counter
        (Gas (gas_value (ctx_gas_counter (rt_context rt)) + gas_value a)) (rt_context rt)\<rparr>)
      else Some (Err GasLimit, rt))"
proof -
  obtain n m where nm: "gas_value (ctx_gas_counter (rt_context rt)) = n" "gas_value (ctx_gas_limit (rt_context rt)) = m"
    by blast
  have bound: "unat m < 2 ^ 512" using unat_lt_pow [of m] by simp
  have run: "rt_gas a rt = (case checked_add n (gas_value a) of
      None \<Rightarrow> Some (Err GasLimit, rt)
    | Some val \<Rightarrow> if m < val then Some (Err GasLimit, rt)
        else Some (Ok (), rt\<lparr>rt_context := set_gas_counter (Gas val) (rt_context rt)\<rparr>))"
    by (simp add: rt_gas_def charge_gas_def seq_assoc gas_checked_add_def nm zoom_def seq_def split: option.split)
  show ?thesis
  proof (cases "checked_add n (gas_value a)")
    case None
    then have "\<not> unat n + unat (gas_value a) \<le> unat m"
      using bound by (simp add: checked_add_def split: if_splits)
    then show ?thesis using None run nm by simp
  next
    case (Some val)
    then have "unat val = unat n + unat (gas_value a)" "val = n + gas_value a"
      by (simp_all add: checked_add_Some [symmetric]) (simp add: checked_add_def split: if_splits)
    then show ?thesis using Some run nm by (simp add: word_less_nat_alt not_less)
  qed
qed

section \<open>Calls\<close>

lemma try_for_each_Ok: "try_for_each f xs = Ok () \<longleftrightarrow> (\<forall>x \<in> set xs. f x = Ok ())"
  by (induction xs) (auto simp: result_simps)

lemma validate_key_state: "validate_key (c\<lparr>ctx_state := tc\<rparr>) = validate_key c"
  by (auto simp: fun_eq_iff validate_key_def intro!: validate_uref_cong split: key.split)

lemma read_gs_state:
  assumes "read_gs X key c = Some (r, c')"
  obtains tc where "c' = c\<lparr>ctx_state := tc\<rparr>"
proof -
  have "c' = c \<or> (\<exists>tc. c' = c\<lparr>ctx_state := tc\<rparr>)"
    using assms by (auto simp: read_gs_def seq_check zoom_def split: result.splits option.splits)
  moreover have "c = c\<lparr>ctx_state := ctx_state c\<rparr>" by simp
  ultimately show ?thesis using that by metis
qed

lemma prepare_call_Ok:
  assumes "prepare_call X key bs rt = Some (Ok (module, args, refs, extra, v), rt')"
  obtains tc us where "rt_context rt' = (rt_context rt)\<lparr>ctx_state := tc\<rparr>" "extra = map Key_URef us"
    "\<forall>u \<in> set us. validate_uref (rt_context rt) u = Ok ()"
proof -
  obtain sv rt1 where rt1: "on_context (read_gs X key) rt = Some (Ok (Some sv), rt1)"
    using assms by (auto simp: prepare_call_def seq_Ok_iff split: option.splits)
  then obtain c where c: "read_gs X key (rt_context rt) = Some (Ok (Some sv), c)" "rt1 = rt\<lparr>rt_context := c\<rparr>"
    by (auto simp: zoom_Ok_iff)
  obtain us where us: "extra = map Key_URef us" "try_for_each (validate_key c) extra = Ok ()" "rt' = rt1"
    using assms c rt1
    by (cases sv) (auto simp: prepare_call_def seq_step(1) exec_simps probe_def Let_def split: if_splits)
  obtain tc where "c = (rt_context rt)\<lparr>ctx_state := tc\<rparr>" using read_gs_state [OF c(1)] .
  then show ?thesis
    using that us c(2) by (auto simp: try_for_each_Ok validate_key_state validate_key_def)
qed

lemma validate_uref_weaken:
  assumes "validate_uref c (URef a (Some q)) = Ok ()" "rights_inter q r = r"
  shows "validate_uref c (URef a (Some r)) = Ok ()"
proof -
  have "covered_by_purse c (URef a (Some q)) \<Longrightarrow> covered_by_purse c (URef a (Some r))"
    using assms(2) by (auto simp: covered_by_purse_def Let_def intro: rights_inter_trans split: option.splits)
  then show ?thesis
    using assms by (auto simp: validate_uref_Ok_iff intro: rights_inter_trans)
qed

section \<open>A concrete host\<close>

type_synonym block_memory = "(u32 \<times> bytes) list"

definition list_host ::
    "exec_error option \<Rightarrow> ((key \<times> stored_value) list, nat, block_memory, unit) host_externals" where
  "list_host err =
     \<lparr>lhm_new = lhm_new list_externals,
      lhm_insert = lhm_insert list_externals,
      lhm_get_refresh = lhm_get_refresh list_externals,
      lhm_pop_front = lhm_pop_front list_externals,
      size_of_stored_value = 200,
      string_capacity = string_capacity list_externals,
      blake2b = (\<lambda>_. array32_fill 9),
      rng_from_seed = (\<lambda>_. 1),
      rng_fill_bytes = (\<lambda>n. (array32_fill (of_nat n), n + 1)),
      group_by_addr = groups,
      mem_get = (\<lambda>w p n. Ok (case map_of w p of Some bs \<Rightarrow> take n bs | None \<Rightarrow> [])),
      mem_set = (\<lambda>w p bs. Ok ((p, bs) # w)),
      nth_u32 = (\<lambda>args i. case args ! i of RV_I32 v \<Rightarrow> Ok v | _ \<Rightarrow> Err Trap_UnexpectedSignature),
      nth_u8 = (\<lambda>args i. case args ! i of RV_I32 v \<Rightarrow> Ok (ucast v) | _ \<Rightarrow> Err Trap_UnexpectedSignature),
      export_section = (\<lambda>_. Some [str_lit ''call'']),
      set_export_field = (\<lambda>i name p. p),
      optimize = (\<lambda>p names. Some p),
      serialize_module = (\<lambda>_. Ok []),
      deserialize_buffer = (\<lambda>_. Ok ()),
      from_parity_wasm_module = (\<lambda>_. Ok ()),
      instantiate = (\<lambda>_. Ok (Some [])),
      as_host_error = (\<lambda>_. err),
      invoke_call = (\<lambda>_ rt. Some (Ok (), rt))\<rparr>"

lemma groups_concat: "concat (map snd (groups xs)) = xs"
  by (induction xs rule: groups.induct) simp_all

lemma groups_fst: "e \<in> set (groups xs) \<Longrightarrow> snd e \<noteq> [] \<and> (\<forall>x \<in> set (snd e). fst x = fst e)"
proof (induction xs rule: groups.induct)
  case (2 x xs)
  show ?case
  proof (cases "e \<in> set (groups (dropWhile (\<lambda>y. fst y = fst x) xs))")
    case False
    then have e: "e = (fst x, x # takeWhile (\<lambda>y. fst y = fst x) xs)" using 2(2) by simp
    have "fst y = fst e" if "y \<in> set (snd e)" for y
      using that set_takeWhileD [of y "\<lambda>y. fst y = fst x" xs] unfolding e by auto
    moreover have "snd e \<noteq> []" by (simp add: e)
    ultimately show ?thesis by blast
  qed (rule 2(1))
qed simp

lemma hd_groups: "xs \<noteq> [] \<Longrightarrow> fst (hd (groups xs)) = fst (hd xs)"
  by (cases xs) simp_all

lemma groups_Nil_iff: "groups xs = [] \<longleftrightarrow> xs = []"
  by (cases xs) simp_all

lemma groups_successive: "successively (\<lambda>g h. fst g \<noteq> fst h) (groups xs)"
proof (induction xs rule: groups.induct)
  case (2 x xs)
  define rest where "rest = dropWhile (\<lambda>y. fst y = fst x) xs"
  have "rest = [] \<or> fst (hd rest) \<noteq> fst x"
    unfolding rest_def using hd_dropWhile by blast
  then have "groups rest = [] \<or> fst (hd (groups rest)) \<noteq> fst x"
    by (cases "rest = []") (simp_all add: hd_groups)
  then show ?case using 2 [folded rest_def] by (auto simp: successively_Cons rest_def [symmetric])
qed simp

lemma list_host_groups: "group_by_law (group_by_addr (list_host err))"
proof -
  have "\<forall>(k, g) \<in> set (groups xs). g \<noteq> [] \<and> (\<forall>x \<in> set g. fst x = k)" for xs :: "(array32 \<times> access_rights option) list"
    using groups_fst by fastforce
  then show ?thesis by (simp add: group_by_law_def list_host_def groups_concat groups_successive)
qed

lemma list_host_laws: "linked_map_laws (list_host err) (\<lambda>l. l)"
  using list_externals_laws by (simp add: linked_map_laws_def list_host_def)

definition example_runtime ::
    "block_memory \<Rightarrow> ((key \<times> stored_value) list, nat, block_memory, unit) runtime" where
  "example_runtime w =
     \<lparr>rt_system_contract_cache = fmempty, rt_memory = w, rt_module = (), rt_host_buf = None,
      rt_context = example_context\<lparr>ctx_gas_limit := Gas 100, ctx_args := [CLValue CL_U8 [5]]\<rparr>\<rparr>"

definition called_contract :: contract where
  "called_contract =
     contract_new [] (fmupd (str_lit ''purse'') (Key_URef (URef (array32_fill 50) (Some READ))) fmempty) V1_0_0"

definition calling_runtime :: "((key \<times> stored_value) list, nat, block_memory, unit) runtime" where
  "calling_runtime = (example_runtime [])\<lparr>rt_context := example_context\<lparr>ctx_state :=
     tracking_copy_new (list_host None) (\<lambda>k. Some (Ok ([Key_Hash (array32_fill 3) \<mapsto> SV_Contract called_contract] k)))\<rparr>\<rparr>"

section \<open>The table of host functions\<close>

lemma index_of_Some: "index_of x xs = Some n \<Longrightarrow> n < length xs \<and> xs ! n = x"
  by (induction xs arbitrary: n) (auto split: if_splits)

lemma index_of_nth: "distinct xs \<Longrightarrow> n < length xs \<Longrightarrow> index_of (xs ! n) xs = Some n"
proof (induction xs arbitrary: n)
  case (Cons y ys)
  then show ?case by (cases n) (auto simp: nth_mem)
qed simp

lemma index_of_mem: "x \<in> set xs \<Longrightarrow> \<exists>n. index_of x xs = Some n"
  by (induction xs) auto

lemma function_indices_all: "f \<in> set function_indices"
  by (cases f) (simp_all add: function_indices_def)

lemma function_indices_distinct: "distinct function_indices"
  by (simp add: function_indices_def)

lemma host_functions_index: "distinct (map (snd \<circ> snd \<circ> snd) host_functions)"
  "set (map (snd \<circ> snd \<circ> snd) host_functions) = set function_indices"
  by (simp_all add: host_functions_def function_indices_def) auto

text \<open>The arguments of a host function are those its signature declares.\<close>

definition nth_law :: "('m, 'g, 'w, 'p, 'z) host_externals_scheme \<Rightarrow> bool" where
  "nth_law X \<longleftrightarrow> (\<forall>args i n. i < n \<longrightarrow>
     nth_u32 X (take n args) i = nth_u32 X args i \<and> nth_u8 X (take n args) i = nth_u8 X args i)"

lemma parse_take:
  assumes "nth_law X"
  shows "parse1 X (take (Suc 0) args) = parse1 X args" "parse2 X (take 2 args) = parse2 X args"
    "parse2_u8 X (take 2 args) = parse2_u8 X args" "parse3 X (take 3 args) = parse3 X args"
    "parse4 X (take 4 args) = parse4 X args" "parse5 X (take 5 args) = parse5 X args"
    "parse6 X (take 6 args) = parse6 X args"
  using assms
  by (simp_all add: nth_law_def parse1_def parse2_def parse2_u8_def parse3_def parse4_def parse5_def parse6_def)

lemma run_function_take:
  assumes "nth_law X" "(name, n, result, f) \<in> set host_functions"
  shows "run_function X f (take n args) = run_function X f args"
proof -
  note [simp] = parse_take [OF assms(1)]
  show ?thesis using assms(2) by (auto simp: host_functions_def)
qed

lemma returns_result:
  "returns_nothing u s = Some (Ok v, s') \<Longrightarrow> v = None"
  "returns_api a s = Some (Ok v, s') \<Longrightarrow> v \<noteq> None"
  "returns_i32 i s = Some (Ok v, s') \<Longrightarrow> v \<noteq> None"
  by (auto simp: returns_nothing_def returns_api_def returns_i32_def exec_simps)

lemma ends_execution:
  "host (ret X p n) s \<noteq> Some (Ok v, s')" "host (revert st) s \<noteq> Some (Ok v, s')"
  by (auto simp: host_def ret_def revert_def exec_simps split: result.splits)

lemma run_function_result:
  assumes "(name, n, result, f) \<in> set host_functions" "run_function X f args s = Some (Ok v, s')"
  shows "v \<noteq> None \<longleftrightarrow> result"
proof -
  have "f \<in> {WriteFuncIndex, WriteLocalFuncIndex, AddFuncIndex, AddLocalFuncIndex, NewFuncIndex, RetFuncIndex,
      PutKeyFuncIndex, GasFuncIndex, StoreFnIndex, StoreFnAtHashIndex, RevertFuncIndex, RemoveKeyFuncIndex,
      GetCallerIndex, GetBlocktimeIndex, GetPhaseIndex, GetMainPurseIndex} \<longleftrightarrow> \<not> result"
    using assms(1) by (auto simp: host_functions_def)
  then show ?thesis
    using assms(2)
    by (cases f) (auto simp: seq_Ok_iff ends_execution split: prod.splits dest: returns_result)
qed

section \<open>Properties\<close>


text \<open>C18. Dispatch agrees with the declared signatures: a host function reads no more arguments than its
  signature has parameters, and when it returns it has a result exactly if the signature has one.\<close>

theorem host_signatures:
  assumes "nth_law X" "(name, n, result, f) \<in> set host_functions"
  shows "run_function X f (take n args) = run_function X f args
    \<and> (run_function X f args rt = Some (Ok v, rt') \<longrightarrow> (v \<noteq> None \<longleftrightarrow> result))"
  using run_function_take [OF assms] run_function_result [OF assms(2)] by blast

theorem host_signatures_witness:
  "nth_law (list_host None) \<and> (''get_phase'', 1, False, GetPhaseIndex) \<in> set host_functions \<and>
   run_function (list_host None) GetPhaseIndex (take 1 [RV_I32 0, RV_I32 7]) =
   run_function (list_host None) GetPhaseIndex [RV_I32 0, RV_I32 7]"
proof -
  have law: "nth_law (list_host None)" by (simp add: nth_law_def list_host_def)
  have mem: "(''get_phase'', 1, False, GetPhaseIndex) \<in> set host_functions" by (simp add: host_functions_def)
  show ?thesis using law mem host_signatures [OF law mem, of "[RV_I32 0, RV_I32 7]"] by blast
qed

text \<open>C17. Gas: a host function other than \<^verbatim>\<open>gas\<close> leaves the gas counter, the limit and the identity of the
  running contract as they are, also when it calls another contract, whatever that contract consumes.
  Charging adds the amount if the sum is within the limit, without overflow, and ends the execution with
  \<^verbatim>\<open>GasLimit\<close> and an unchanged counter otherwise.\<close>

theorem host_gas_accounting:
  assumes "run_function X f args rt = Some (r, rt')"
  shows "if f = GasFuncIndex
    then (case parse1 X args of
        Ok a \<Rightarrow>
          (let n = gas_value (ctx_gas_counter (rt_context rt)); m = gas_value (ctx_gas_limit (rt_context rt)) in
           if unat n + unat a \<le> unat m
           then r = Ok None \<and> rt' = rt\<lparr>rt_context := set_gas_counter (Gas (n + ucast a)) (rt_context rt)\<rparr>
             \<and> unat (n + ucast a) = unat n + unat a
           else r = Err (Trap_Host GasLimit) \<and> rt' = rt)
      | _ \<Rightarrow> rt' = rt)
    else fixed (rt_context rt) (rt_context rt') \<and> rt_module rt' = rt_module rt"
proof (cases "f = GasFuncIndex")
  case False
  then show ?thesis using keepsD [OF rfx.frame_run_function [OF False] assms] by simp
next
  case True
  show ?thesis
  proof (cases "parse1 X args")
    case (Ok a)
    let ?n = "gas_value (ctx_gas_counter (rt_context rt))" and ?m = "gas_value (ctx_gas_limit (rt_context rt))"
    have a: "unat (ucast a :: U512) = unat a"
      using unat_lt_pow [of a] by (simp add: unsigned_ucast_eq take_bit_eq_mod)
    have "unat (?n + ucast a) = unat ?n + unat a" if "unat ?n + unat a \<le> unat ?m"
    proof -
      have "unat ?n + unat (ucast a :: U512) < 2 ^ LENGTH(512)"
        using that a le_less_trans [OF _ unat_lt_pow [of ?m]] by simp
      then show ?thesis using a by (simp only: unat_word_ariths mod_less)
    qed
    then show ?thesis
      using assms True Ok a
      by (auto simp: returns_nothing_def host_def zoom_def seq_def charge_gas_run Let_def split: if_splits)
  qed (use assms True in auto)
qed

theorem host_gas_accounting_witness:
  "\<exists>rt'. run_function (list_host None) GasFuncIndex [RV_I32 40] (example_runtime []) = Some (Ok None, rt') \<and>
     ctx_gas_counter (rt_context rt') = Gas 40"
proof -
  have p: "parse1 (list_host None) [RV_I32 40] = Ok 40" by (simp add: parse1_def list_host_def)
  obtain r rt' where run: "run_function (list_host None) GasFuncIndex [RV_I32 40] (example_runtime []) = Some (r, rt')"
    by (simp add: p returns_nothing_def host_def zoom_def seq_def charge_gas_run example_runtime_def example_context_def)
  from host_gas_accounting [OF run] show ?thesis
    using run by (simp add: p example_runtime_def example_context_def set_gas_counter_def)
qed

text \<open>C20. A value offered through the host buffer is read back once: \<^verbatim>\<open>read_host_buffer\<close> writes exactly its
  bytes and their number to the memory and empties the buffer, a second read finds it empty, and while it
  is full no other value can be offered.\<close>

theorem host_buffer_round_trip:
  assumes "offer X v p rt = Some (Ok (Inr ()), rt1)" "length (inner_bytes v) \<le> n" "length (inner_bytes v) \<le> u32_max"
    "mem_set X (rt_memory rt1) d (inner_bytes v) = Ok w1"
    "mem_set X w1 q (to_le_bytes 4 (word_of_nat (length (inner_bytes v)) :: u32)) = Ok w2"
  shows "\<exists>rt2. read_host_buffer X d n q rt1 = Some (Ok (Inr ()), rt2) \<and> rt_memory rt2 = w2
    \<and> read_host_buffer X d n q rt2 = Some (Ok (Inl Api_HostBufferEmpty), rt2)
    \<and> offer X v' p rt1 = Some (Ok (Inl Api_HostBufferFull), rt1)"
proof -
  have buf: "rt_host_buf rt1 = Some v"
    using assms(1)
    by (auto simp: offer_def write_host_buf_def memory_set_def probe_def exec_simps split: option.splits sum.splits)
  let ?rt2 = "rt1\<lparr>rt_host_buf := None, rt_memory := w2\<rparr>"
  have "read_host_buffer X d n q rt1 = Some (Ok (Inr ()), ?rt2)"
    using assms(2-) buf
    by (simp add: read_host_buffer_def take_host_buf_def memory_set_def probe_def seq_def Let_def min_def)
  moreover have "read_host_buffer X d n q ?rt2 = Some (Ok (Inl Api_HostBufferEmpty), ?rt2)"
    by (simp add: read_host_buffer_def take_host_buf_def seq_def)
  moreover have "offer X v' p rt1 = Some (Ok (Inl Api_HostBufferFull), rt1)"
    using buf by (simp add: offer_def write_host_buf_def seq_def)
  ultimately show ?thesis by (intro exI [of _ ?rt2]) simp
qed

theorem host_buffer_round_trip_witness:
  "\<exists>rt1 rt2. offer (list_host None) (CLValue CL_U8 [5]) 0 (example_runtime []) = Some (Ok (Inr ()), rt1) \<and>
     read_host_buffer (list_host None) 8 1 16 rt1 = Some (Ok (Inr ()), rt2) \<and>
     map_of (rt_memory rt2) 8 = Some [5]"
proof -
  let ?X = "list_host None" and ?v = "CLValue CL_U8 [5]"
  let ?n = "to_le_bytes 4 (word_of_nat 1 :: u32)"
  let ?rt1 = "(example_runtime [])\<lparr>rt_host_buf := Some ?v, rt_memory := [(0, ?n)]\<rparr>"
  have offer: "offer ?X ?v 0 (example_runtime []) = Some (Ok (Inr ()), ?rt1)"
    by (simp add: offer_def write_host_buf_def memory_set_def probe_def seq_def list_host_def example_runtime_def)
  have "mem_set ?X (rt_memory ?rt1) 8 (inner_bytes ?v) = Ok [(8, [5]), (0, ?n)]"
    "mem_set ?X [(8, [5]), (0, ?n)] 16 (to_le_bytes 4 (word_of_nat (length (inner_bytes ?v)) :: u32)) =
       Ok [(16, ?n), (8, [5]), (0, ?n)]"
    by (simp_all add: list_host_def)
  from host_buffer_round_trip [OF offer _ _ this] obtain rt2
    where "read_host_buffer ?X 8 1 16 ?rt1 = Some (Ok (Inr ()), rt2)" "rt_memory rt2 = [(16, ?n), (8, [5]), (0, ?n)]"
    by auto
  then show ?thesis using offer by fastforce
qed



text \<open>C16. A callee gains no authority from its caller that the caller does not have: a reference with rights
  that the callee accepts at its start is accepted by the caller, or the rights come from a named key of
  the called contract or from the references to the two system contracts.\<close>

theorem callee_authority:
  assumes "group_by_law (group_by_addr X)"
    "prepare_call X key bs rt = Some (Ok (module, args, refs, extra, v), rt')"
    "access_rights u = Some r"
    "validate_uref (rt_context (callee_runtime X module w args refs key extra v rt')) u = Ok ()"
  shows "validate_uref (rt_context rt) u = Ok () \<or>
    (\<exists>q. rights_inter q r = r \<and>
       (Key_URef (URef (addr u) (Some q)) \<in> fmran' refs \<or>
        URef (addr u) (Some q) \<in> {get_mint_contract_uref rt, get_pos_contract_uref rt}))"
proof -
  obtain tc us where rt': "rt_context rt' = (rt_context rt)\<lparr>ctx_state := tc\<rparr>" "extra = map Key_URef us"
    "\<forall>u \<in> set us. validate_uref (rt_context rt) u = Ok ()"
    by (rule prepare_call_Ok [OF assms(2)])
  let ?c = "rt_context (callee_runtime X module w args refs key extra v rt')"
  have system: "get_mint_contract_uref rt' = get_mint_contract_uref rt" "get_pos_contract_uref rt' = get_pos_contract_uref rt"
    by (simp_all add: get_mint_contract_uref_def get_pos_contract_uref_def rt'(1))
  have rights: "ctx_access_rights ?c = callee_rights X refs extra rt'" and "ctx_account ?c = ctx_account (rt_context rt)"
    by (simp_all add: callee_runtime_def callee_context_def rt'(1))
  then have purse: "covered_by_purse ?c u = covered_by_purse (rt_context rt) u"
    by (simp add: covered_by_purse_def)
  show ?thesis
  proof (cases "covered_by_purse ?c u")
    case True
    then show ?thesis using purse by (simp add: validate_uref_def)
  next
    case False
    then obtain t q where t: "fmlookup (callee_rights X refs extra rt') (addr u) = Some t" "q |\<in>| t" "rights_inter q r = r"
      using assms(4) rights by (auto simp: validate_uref_Ok_iff [OF assms(3)])
    have "Key_URef (URef (addr u) (Some q)) \<in> set (map snd (entries refs) @ extra
        @ [Key_URef (get_mint_contract_uref rt'), Key_URef (get_pos_contract_uref rt')])"
      by (rule rights_table_sound [OF assms(1) t(1) [unfolded callee_rights_def] t(2)])
    then consider "Key_URef (URef (addr u) (Some q)) \<in> snd ` set (entries refs)"
      | "URef (addr u) (Some q) \<in> set us"
      | "URef (addr u) (Some q) \<in> {get_mint_contract_uref rt, get_pos_contract_uref rt}"
      using rt'(2) system by auto
    then show ?thesis
    proof cases
      case 1
      then have "Key_URef (URef (addr u) (Some q)) \<in> fmran' refs" by (auto simp: set_entries intro: fmran'I)
      then show ?thesis using t(3) by blast
    next
      case 2
      have "validate_uref (rt_context rt) (URef (addr u) (Some r)) = Ok ()"
        using validate_uref_weaken [OF _ t(3)] rt'(3) 2 by blast
      then show ?thesis using assms(3) by (metis uref.collapse)
    qed (use t(3) in blast)
  qed
qed

theorem callee_authority_witness:
  "\<exists>rt'. prepare_call (list_host None) (Key_Hash (array32_fill 3)) [0, 0, 0, 0] calling_runtime =
       Some (Ok ((), [], con_named_keys called_contract, [], V1_0_0), rt') \<and>
     validate_uref (rt_context (callee_runtime (list_host None) () [] [] (con_named_keys called_contract)
       (Key_Hash (array32_fill 3)) [] V1_0_0 rt')) (URef (array32_fill 50) (Some READ)) = Ok () \<and>
     validate_uref (rt_context calling_runtime) (URef (array32_fill 50) (Some READ)) \<noteq> Ok () \<and>
     (\<exists>q. rights_inter q READ = READ \<and>
       Key_URef (URef (array32_fill 50) (Some q)) \<in> fmran' (con_named_keys called_contract))"
proof -
  let ?X = "list_host None" and ?k = "Key_Hash (array32_fill 3)" and ?u = "URef (array32_fill 50) (Some READ)"
  let ?refs = "con_named_keys called_contract" and ?m = "[Key_Hash (array32_fill 3) \<mapsto> SV_Contract called_contract]"
  have inv: "tc_inv ?X (\<lambda>l. l) ?m (ctx_state (rt_context calling_runtime))"
    unfolding calling_runtime_def
    by (simp add: tc_inv_new [OF list_host_laws] reads_as_def)
  have view: "tc_view ?m (ctx_state (rt_context calling_runtime)) ?k = Some (SV_Contract called_contract)"
    by (simp add: calling_runtime_def tc_view_def tracking_copy_new_def cache_new_def)
  obtain tc where tc: "on_state (tc_read ?X ?k) (rt_context calling_runtime) =
      Some (Ok (Some (SV_Contract called_contract)), (rt_context calling_runtime)\<lparr>ctx_state := tc\<rparr>)"
    using on_read_run [OF list_host_laws inv, of ?k] view by (metis key_normalize.simps(3))
  let ?rt = "calling_runtime\<lparr>rt_context := (rt_context calling_runtime)\<lparr>ctx_state := tc\<rparr>\<rparr>"
  have args: "deserialize vec_cl_value_from_bytes [0, 0, 0, 0] = Ok []"
    by (rule vec_cl_valuec.deserialize_ser)
      (simp_all add: vec_cl_value_to_bytes_def vec_to_bytes_def len_prefix_def to_le_bytes_4)
  have run: "prepare_call ?X ?k [0, 0, 0, 0] calling_runtime = Some (Ok ((), [], ?refs, [], V1_0_0), ?rt)"
  proof -
    have "read_gs ?X ?k (rt_context calling_runtime) =
        Some (Ok (Some (SV_Contract called_contract)), (rt_context calling_runtime)\<lparr>ctx_state := tc\<rparr>)"
      using tc by (simp add: read_gs_def seq_check validate_readable_def is_readable_def validate_key_def)
    moreover have "is_compatible_with (con_protocol_version called_contract) (ctx_protocol_version (rt_context calling_runtime))"
      "con_protocol_version called_contract = V1_0_0"
      by (simp_all add: called_contract_def contract_new_def calling_runtime_def example_context_def is_compatible_with_def)
    moreover have "deserialize_buffer ?X bs = Ok ()" for bs by (simp add: list_host_def)
    ultimately show ?thesis
      by (simp add: prepare_call_def zoom_def seq_def args probe_def)
  qed
  have callee: "validate_uref (rt_context (callee_runtime ?X () [] [] ?refs ?k [] V1_0_0 ?rt)) ?u = Ok ()"
  proof -
    have entries: "map snd (entries ?refs) = [Key_URef ?u]"
      by (simp add: called_contract_def contract_new_def sorted_list_of_fmap_def btree_simps sorted_list_of_fset.rep_eq)
    have "fmlookup (callee_rights ?X ?refs [] ?rt) (array32_fill 50) = Some {|READ|}"
      unfolding callee_rights_def rights_table(1) [OF list_host_groups] entries
      by (simp add: rights_lookup_def List.map_filter_def key_to_tuple_def last_run_def rights_of_run_def
          get_mint_contract_uref_def get_pos_contract_uref_def calling_runtime_def example_context_def
          attenuate_uref_for_account_def into_read_def into_read_add_write_def protocol_data_default_def uref_new_def)
    then show ?thesis
      by (simp add: validate_uref_def callee_runtime_def callee_context_def rights_inter_eq_iff)
  qed
  have caller: "validate_uref (rt_context calling_runtime) ?u \<noteq> Ok ()"
    by (simp add: validate_uref_def covered_by_purse_def calling_runtime_def example_context_def
        example_account_def account_create_def uref_new_def)
  have system: "addr (get_mint_contract_uref calling_runtime) = array32_fill 0"
    "addr (get_pos_contract_uref calling_runtime) = array32_fill 0"
    by (simp_all add: get_mint_contract_uref_def get_pos_contract_uref_def calling_runtime_def example_context_def
        attenuate_uref_for_account_def into_read_def into_read_add_write_def protocol_data_default_def uref_new_def)
  have "URef (array32_fill 50) q \<noteq> get_mint_contract_uref calling_runtime"
    "URef (array32_fill 50) q \<noteq> get_pos_contract_uref calling_runtime" for q
    using system by (auto dest: arg_cong [where f = addr])
  then have "\<exists>q. rights_inter q READ = READ \<and> Key_URef (URef (array32_fill 50) (Some q)) \<in> fmran' ?refs"
    using callee_authority [OF list_host_groups run _ callee] caller by auto
  then show ?thesis using run callee caller by blast
qed

text \<open>C21. Returned references are not checked: a contract that returns a reference, whether it holds the
  reference or not, ends with \<^verbatim>\<open>Ret\<close> of it, and the caller accepts the reference afterwards.\<close>

theorem returned_reference_accepted:
  assumes "group_by_law (group_by_addr X)" "from_t uref_to_bytes CL_URef u = Ok v" "access_rights u = Some r"
    "cl_value_to_bytes v = Ok bs" "mem_get X (rt_memory callee) p (length bs) = Ok bs"
    "as_host_error X e = Some (Ret [u])"
  shows "\<exists>callee' caller'. ret X p (length bs) callee = Some (Err (Ret [u]), callee')
    \<and> call_outcome X (Err e) (rt_host_buf callee') caller = Some (Ok v, caller')
    \<and> validate_uref (rt_context caller') u = Ok ()"
proof -
  have v: "cl_type v = CL_URef" "into_t uref_from_bytes CL_URef v = Ok u"
    using into_t_from_t [OF urefc.codec_axioms _ assms(2)] assms(2) by (auto simp: from_t_def result_simps)
  have "extract_urefs v = Ok [u]"
    by (simp add: extract_urefs_def read_urefs_def v)
  moreover have "deserialize cl_value_from_bytes bs = Ok v"
    by (rule cl_valuec.deserialize_ser [OF _ assms(4)]) simp
  ultimately have ret: "ret X p (length bs) callee = Some (Err (Ret [u]), callee\<lparr>rt_host_buf := Some v\<rparr>)"
    using assms(5) by (simp add: ret_def bytes_from_mem_def probe_def seq_def)
  let ?rights = "extract_access_rights_from_urefs (group_by_addr X) [u]"
  let ?caller = "caller\<lparr>rt_context := access_rights_extend ?rights (rt_context caller)\<rparr>"
  have out: "call_outcome X (Err e) (Some v) caller = Some (Ok v, ?caller)"
    using assms(6) by (simp add: call_outcome_def zoom_def seq_def)
  have "fmlookup ?rights (addr u) = Some (rights_of_run [(addr u, Some r)])"
    using rights_table(2) [OF assms(1)] assms(3) by (simp add: rights_lookup_def last_run_def)
  moreover have "rights_inter r r = r" by (simp add: rights_inter_eq_iff)
  ultimately have "validate_uref (access_rights_extend ?rights (rt_context caller)) u = Ok ()"
    using assms(3) by (auto simp: validate_uref_Ok_iff access_rights_extend_def rights_of_run_iff)
  then show ?thesis using ret out by fastforce
qed

theorem returned_reference_accepted_witness:
  "validate_uref example_context (example_uref READ_ADD_WRITE) \<noteq> Ok () \<and>
   (\<exists>bs e v callee' caller'.
     ret (list_host (Some (Ret [example_uref READ_ADD_WRITE]))) 0 (length bs) (example_runtime [(0, bs)]) =
       Some (Err (Ret [example_uref READ_ADD_WRITE]) :: (unit, exec_error) result, callee') \<and>
     call_outcome (list_host (Some (Ret [example_uref READ_ADD_WRITE]))) (Err e) (rt_host_buf callee')
       (example_runtime []) = Some (Ok v, caller') \<and>
     validate_uref (rt_context caller') (example_uref READ_ADD_WRITE) = Ok ())"
proof -
  let ?u = "example_uref READ_ADD_WRITE"
  define v where "v = CLValue CL_URef (replicate 32 100 @ [1, 7])"
  have v: "from_t uref_to_bytes CL_URef ?u = Ok v"
    by (simp add: v_def from_t_def example_uref_def uref_to_bytes_def array32_to_bytes_def rights_to_bytes_def
        u8_to_bytes_def)
  obtain bs where bs: "cl_value_to_bytes v = Ok bs"
    by (simp add: v_def cl_value_to_bytes_def vec_u8_to_bytes_def)
  let ?X = "list_host (Some (Ret [?u]))" and ?w = "[(0 :: u32, bs)]"
  have mem: "mem_get ?X (rt_memory (example_runtime ?w)) 0 (length bs) = Ok bs"
    by (simp add: list_host_def example_runtime_def)
  obtain callee' caller' where "ret ?X 0 (length bs) (example_runtime ?w) =
      Some (Err (Ret [?u]) :: (unit, exec_error) result, callee')"
    "call_outcome ?X (Err undefined) (rt_host_buf callee') (example_runtime []) = Some (Ok v, caller')"
    "validate_uref (rt_context caller') ?u = Ok ()"
    using returned_reference_accepted [OF list_host_groups v _ bs mem, of READ_ADD_WRITE undefined "example_runtime []"]
    by (auto simp: list_host_def example_uref_def)
  moreover have "validate_uref example_context ?u \<noteq> Ok ()" using example_rights(2) by simp
  ultimately show ?thesis by blast
qed

text \<open>C22. The table of access rights holds, for an address, the rights of the last run of consecutive
  references to it only: rights of references to the address that are separated by another one are lost.\<close>

theorem rights_of_last_run:
  assumes "group_by_law G"
  shows "fmlookup (extract_access_rights_from_keys G keys) a =
    (let refs = List.map_filter key_to_tuple keys in
     if a \<in> fst ` set refs then Some (rights_of_run (last_run a refs)) else None)"
  using rights_table(1) [OF assms, of keys a] by (simp add: rights_lookup_def Let_def)

theorem rights_of_last_run_witness:
  "group_by_law (group_by_addr (list_host None)) \<and>
   fmlookup (extract_access_rights_from_keys (group_by_addr (list_host None))
     [Key_URef (URef (array32_fill 1) (Some WRITE)), Key_URef (URef (array32_fill 2) (Some READ)),
      Key_URef (URef (array32_fill 1) (Some READ))]) (array32_fill 1) = Some {|READ|}"
  using list_host_groups [of None]
    rights_of_last_run [OF list_host_groups [of None],
      of "[Key_URef (URef (array32_fill 1) (Some WRITE)), Key_URef (URef (array32_fill 2) (Some READ)),
      Key_URef (URef (array32_fill 1) (Some READ))]" "array32_fill 1"]
  by (simp add: List.map_filter_def key_to_tuple_def last_run_def rights_of_run_def)

end
