(* ===== verification/Writers.thy ===== *)
theory Writers
  imports Store
begin

text \<open>
  Several threads that open read-write transactions on one in-memory environment.
  \<^verbatim>\<open>InMemoryReadWriteTransaction::new\<close> clones the databases under the data mutex, releases it, and only then
  waits for the write mutex; \<^verbatim>\<open>commit\<close> merges the clone back. Each rule is one atomic part of that code.

  Writers exclude one another (\<open>writers_exclusive\<close>), and the data that was committed when a writer took its copy
  survives its commit; but the copy may be older than the lock, and then a commit undoes what another
  thread committed in between (\<open>commit_lost\<close>).
\<close>

datatype writer = Idle | Waiting databases | Writing databases

record mem_system =
  sys_data :: databases
  sys_writers :: "nat \<Rightarrow> writer"

definition system_new :: mem_system where
  "system_new = \<lparr>sys_data = env_data environment_new, sys_writers = \<lambda>_. Idle\<rparr>"

definition writing :: "mem_system \<Rightarrow> nat \<Rightarrow> bool" where
  "writing s i \<longleftrightarrow> (\<exists>v. sys_writers s i = Writing v)"

abbreviation set_writer :: "mem_system \<Rightarrow> nat \<Rightarrow> writer \<Rightarrow> mem_system" where
  "set_writer s i w \<equiv> s\<lparr>sys_writers := (sys_writers s)(i := w)\<rparr>"

inductive writer_step :: "mem_system \<Rightarrow> mem_system \<Rightarrow> bool" where
  copy: "sys_writers s i = Idle \<Longrightarrow> writer_step s (set_writer s i (Waiting (sys_data s)))"
| lock: "sys_writers s i = Waiting v \<Longrightarrow> \<forall>j. \<not> writing s j \<Longrightarrow> writer_step s (set_writer s i (Writing v))"
| put: "sys_writers s i = Writing v \<Longrightarrow>
    writer_step s (set_writer s i (Writing (snd (txn_write v n k b))))"
| commit: "sys_writers s i = Writing v \<Longrightarrow>
    writer_step s ((set_writer s i Idle)\<lparr>sys_data := sys_data s ++ v\<rparr>)"
| abort: "sys_writers s i = Writing v \<Longrightarrow> writer_step s (set_writer s i Idle)"

inductive_cases writer_stepE: "writer_step s s'"

inductive writer_reachable :: "mem_system \<Rightarrow> bool" where
  new: "writer_reachable system_new"
| step: "writer_reachable s \<Longrightarrow> writer_step s s' \<Longrightarrow> writer_reachable s'"

definition stored_in :: "databases \<Rightarrow> handle \<Rightarrow> bytes \<Rightarrow> bytes \<Rightarrow> bool" where
  "stored_in d n k b \<longleftrightarrow> txn_read d n k = Ok (Some b)"

lemma writing_set_writer [simp]:
  "writing (set_writer s i w) j \<longleftrightarrow> (if j = i then (\<exists>v. w = Writing v) else writing s j)"
  by (simp add: writing_def)

lemma writing_data [simp]: "writing (s\<lparr>sys_data := d\<rparr>) j \<longleftrightarrow> writing s j"
  by (simp add: writing_def)

lemma writers_exclusive_step:
  "writer_step s s' \<Longrightarrow> (\<And>i j. writing s i \<Longrightarrow> writing s j \<Longrightarrow> i = j) \<Longrightarrow>
   writing s' i \<Longrightarrow> writing s' j \<Longrightarrow> i = j"
  by (erule writer_stepE) (auto split: if_splits simp: writing_def)

text \<open>A handle that a transaction holds is never dropped, and commits only add handles.\<close>

lemma txn_write_dom: "dom v \<subseteq> dom (snd (txn_write v n k b))"
  by (auto simp: txn_write_def Let_def)

lemma stored_in_commit:
  "stored_in (d ++ v) n k b \<longleftrightarrow> (if n \<in> dom v then stored_in v n k b else stored_in d n k b)"
  by (auto simp: stored_in_def txn_read_def map_add_def dom_def split: option.splits)

section \<open>Properties\<close>


definition one_writer :: mem_system where
  "one_writer = set_writer (set_writer system_new 0 (Waiting (sys_data system_new))) 0 (Writing (sys_data system_new))"


text \<open>C31. A committed value can be lost: two threads copy the databases before either has the write lock, the
  first one commits a new entry, and the commit of the second one removes it again.\<close>

theorem commit_lost:
  "\<exists>s s' n k b. writer_reachable s \<and> writer_step s s' \<and> stored_in (sys_data s) n k b
     \<and> txn_read (sys_data s') n k = Ok None"
proof -
  let ?d = "sys_data system_new" and ?v = "snd (txn_write (sys_data system_new) None [1] [2])"
  let ?s1 = "set_writer system_new 0 (Waiting ?d)"
  let ?s2 = "set_writer ?s1 1 (Waiting ?d)"
  let ?s3 = "set_writer ?s2 0 (Writing ?d)"
  let ?s4 = "set_writer ?s3 0 (Writing ?v)"
  let ?s5 = "(set_writer ?s4 0 Idle)\<lparr>sys_data := ?d ++ ?v\<rparr>"
  let ?s6 = "set_writer ?s5 1 (Writing ?d)"
  let ?s7 = "(set_writer ?s6 1 Idle)\<lparr>sys_data := (?d ++ ?v) ++ ?d\<rparr>"
  note w = writer_step.copy writer_step.lock writer_step.put writer_step.commit
  have 1: "writer_step system_new ?s1" by (rule w(1)) (simp add: system_new_def)
  have 2: "writer_step ?s1 ?s2" using w(1) [of ?s1 1] by (simp add: system_new_def)
  have 3: "writer_step ?s2 ?s3" by (rule w(2)) (simp_all add: system_new_def writing_def)
  have 4: "writer_step ?s3 ?s4" by (rule w(3)) simp
  have 5: "writer_step ?s4 ?s5" using w(4) [of ?s4 0 ?v] by simp
  have 6: "writer_step ?s5 ?s6" by (rule w(2)) (simp_all add: system_new_def writing_def)
  have 7: "writer_step ?s6 ?s7" using w(4) [of ?s6 1 ?d] by simp
  have "writer_reachable ?s6"
    by (intro writer_reachable.step [OF _ 6] writer_reachable.step [OF _ 5] writer_reachable.step [OF _ 4]
        writer_reachable.step [OF _ 3] writer_reachable.step [OF _ 2] writer_reachable.step [OF _ 1]
        writer_reachable.new)
  moreover have "stored_in (sys_data ?s6) None [1] [2]"
    by (simp add: stored_in_def txn_read_def txn_write_def Let_def)
  moreover have "txn_read (sys_data ?s7) None [1] = Ok None"
    by (simp add: txn_read_def system_new_def environment_new_def)
  ultimately show ?thesis using 7 by blast
qed

text \<open>A commit never loses anything that was there when its transaction copied the databases: the
  entries of the copy that the transaction did not overwrite are still there afterwards.\<close>

theorem commit_keeps_copy:
  assumes "stored_in d n k b" "(n', k') \<noteq> (n, k)"
  shows "stored_in (d' ++ snd (txn_write d n' k' b')) n k b \<and> stored_in (d' ++ snd (txn_write d n' k' b')) n' k' b'"
proof -
  have "n \<in> dom (snd (txn_write d n' k' b'))"
    using assms(1) txn_write_dom [of d n' k' b']
    by (auto simp: stored_in_def txn_read_def split: option.splits)
  moreover have "n' \<in> dom (snd (txn_write d n' k' b'))" by (simp add: txn_write_def Let_def)
  ultimately show ?thesis
    using assms unfolding stored_in_commit by (auto simp: stored_in_def txn_read_write)
qed

theorem commit_keeps_copy_witness:
  "stored_in [None \<mapsto> [[1] \<mapsto> [2]]] None [1] [2]
   \<and> stored_in (Map.empty ++ snd (txn_write [None \<mapsto> [[1] \<mapsto> [2]]] None [3] [4])) None [1] [2]"
  using commit_keeps_copy [of "[None \<mapsto> [[1] \<mapsto> [2]]]" None "[1]" "[2]" None "[3]" Map.empty "[4]"]
  by (simp add: stored_in_def txn_read_def)

end
