(* ===== verification/Contract_Api.thy ===== *)
theory Contract_Api
  imports Runtime_Context Copy_Refine
begin

text \<open>
  The parts of \<^verbatim>\<open>contract/src/contract_api\<close> that the system contracts use, seen from the contract: every
  function calls a host function, which is an operation of the runtime context. The pointers and the
  host buffer that carry the values between the contract and the host are left out.

  A contract that reverts ends with \<^verbatim>\<open>Revert\<close> of the code of the error. A function of the contract that
  returns a \<^verbatim>\<open>Result\<close> has a sum type as its value, \<open>Inl\<close> being the error; \<open>seq_ok\<close> is the operator \<^verbatim>\<open>?\<close>.

  The lemmas describe the functions on a context whose tracking copy refines a map of keys to values
  (\<open>at_view\<close>): reading gives what the map holds, writing and adding update it.
\<close>

section \<open>Results as values\<close>

definition seq_ok ::
    "('s, 'e + 'a, 'x) exec \<Rightarrow> ('a \<Rightarrow> ('s, 'e + 'b, 'x) exec) \<Rightarrow> ('s, 'e + 'b, 'x) exec" where
  "seq_ok m f = seq m (\<lambda>r. case r of Inl e \<Rightarrow> return (Inl e) | Inr x \<Rightarrow> f x)"

definition as_value :: "('a, 'e) result \<Rightarrow> ('s, 'e + 'a, 'x) exec" where
  "as_value r = (case r of Ok x \<Rightarrow> return (Inr x) | Err e \<Rightarrow> return (Inl e) | Panic \<Rightarrow> panic)"

definition map_inl :: "('e \<Rightarrow> 'f) \<Rightarrow> ('s, 'e + 'a, 'x) exec \<Rightarrow> ('s, 'f + 'a, 'x) exec" where
  "map_inl g m = seq m (\<lambda>r. return (case r of Inl e \<Rightarrow> Inl (g e) | Inr x \<Rightarrow> Inr x))"

lemma seq_ok_step:
  "m s = Some (Ok (Inr x), s') \<Longrightarrow> seq_ok m f s = f x s'"
  "m s = Some (Ok (Inl e), s') \<Longrightarrow> seq_ok m f s = Some (Ok (Inl e), s')"
  "m s = Some (Panic, s') \<Longrightarrow> seq_ok m f s = Some (Panic, s')"
  by (simp_all add: seq_ok_def seq_step)

lemma seq_ok_as_value [simp]:
  "seq_ok (as_value (Ok x)) f s = f x s"
  "seq_ok (as_value (Err e)) f s = Some (Ok (Inl e), s)"
  "seq_ok (as_value Panic) f s = Some (Panic, s)"
  by (simp_all add: seq_ok_def as_value_def seq_def)

lemma seq_ok_return [simp]:
  "seq_ok (return (Inr x)) f s = f x s"
  "seq_ok (return (Inl e)) f s = Some (Ok (Inl e), s)"
  by (simp_all add: seq_ok_def)

section \<open>Reverting\<close>

definition api_revert :: "api_error \<Rightarrow> ('m, 'g, 'a) ctx_exec" where
  "api_revert e = throw (Revert (u32_from_api e))"

definition unwrap_or_revert :: "('e \<Rightarrow> api_error) \<Rightarrow> ('a, 'e) result \<Rightarrow> ('m, 'g, 'a) ctx_exec" where
  "unwrap_or_revert into r =
     (case r of Ok x \<Rightarrow> return x | Err e \<Rightarrow> api_revert (into e) | Panic \<Rightarrow> panic)"

lemma unwrap_or_revert_Ok [simp]: "unwrap_or_revert into (Ok x) = return x"
  by (simp add: unwrap_or_revert_def)

section \<open>Storage\<close>

definition turef_from_uref :: "uref \<Rightarrow> (uref, unit) result" where
  "turef_from_uref u = (case access_rights u of Some r \<Rightarrow> Ok (uref_new (addr u) r) | None \<Rightarrow> Err ())"

definition read_value :: "'a de \<Rightarrow> cl_value \<Rightarrow> ('s, bytesrepr_error + 'a option, 'x) exec" where
  "read_value de v = seq_ok (as_value (deserialize de (inner_bytes v))) (\<lambda>x. return (Inr (Some x)))"

definition storage_read ::
    "('m, 'g, 'z) runtime_externals_scheme \<Rightarrow> 'a de \<Rightarrow> uref \<Rightarrow> ('m, 'g, bytesrepr_error + 'a option) ctx_exec" where
  "storage_read X de turef =
     seq (read_gs X (Key_URef turef)) (\<lambda>value.
       case value of
         None \<Rightarrow> return (Inr None)
       | Some stored_value \<Rightarrow>
           seq (of_result (map_err TypeMismatchError (cl_value_try_from stored_value))) (read_value de))"

definition storage_read_local ::
    "('m, 'g, 'z) runtime_externals_scheme \<Rightarrow> 'k ser \<Rightarrow> 'a de \<Rightarrow> 'k \<Rightarrow> ('m, 'g, bytesrepr_error + 'a option) ctx_exec" where
  "storage_read_local X ser de key =
     seq_ok (as_value (ser key)) (\<lambda>key_bytes.
     seq (read_ls X key_bytes) (\<lambda>value.
       case value of None \<Rightarrow> return (Inr None) | Some v \<Rightarrow> read_value de v))"

definition storage_write :: "'a ser \<Rightarrow> cl_type \<Rightarrow> uref \<Rightarrow> 'a \<Rightarrow> ('m, 'g, unit) ctx_exec" where
  "storage_write ser ty turef value =
     seq (unwrap_or_revert api_from_cl_value (from_t ser ty value)) (\<lambda>v.
       write_gs (Key_URef turef) (SV_CLValue v))"

definition storage_write_local ::
    "('m, 'g, 'z) runtime_externals_scheme \<Rightarrow> 'k ser \<Rightarrow> 'a ser \<Rightarrow> cl_type \<Rightarrow> 'k \<Rightarrow> 'a \<Rightarrow> ('m, 'g, unit) ctx_exec" where
  "storage_write_local X kser ser ty key value =
     seq (unwrap_or_revert api_from_bytesrepr (kser key)) (\<lambda>key_bytes.
     seq (unwrap_or_revert api_from_cl_value (from_t ser ty value)) (\<lambda>v.
       write_ls X key_bytes v))"

definition storage_add ::
    "('m, 'g, 'z) runtime_externals_scheme \<Rightarrow> 'a ser \<Rightarrow> cl_type \<Rightarrow> uref \<Rightarrow> 'a \<Rightarrow> ('m, 'g, unit) ctx_exec" where
  "storage_add X ser ty turef value =
     seq (unwrap_or_revert api_from_cl_value (from_t ser ty value)) (\<lambda>v.
       add_gs X (Key_URef turef) (SV_CLValue v))"

definition new_turef ::
    "('m, 'g, 'z) runtime_externals_scheme \<Rightarrow> 'a ser \<Rightarrow> cl_type \<Rightarrow> 'a \<Rightarrow> ('m, 'g, uref) ctx_exec" where
  "new_turef X ser ty init =
     seq (unwrap_or_revert api_from_cl_value (from_t ser ty init)) (\<lambda>v.
     seq (new_uref X (SV_CLValue v)) (\<lambda>key.
       case key of
         Key_URef u \<Rightarrow> unwrap_or_revert (\<lambda>_. Api_NoAccessRights) (turef_from_uref u)
       | _ \<Rightarrow> api_revert Api_UnexpectedKeyVariant))"

section \<open>Contexts on a view of the state\<close>

definition at_view ::
    "('m, 'g, 'z) runtime_externals_scheme \<Rightarrow> ('m \<Rightarrow> (key \<times> stored_value) list) \<Rightarrow> (key \<rightharpoonup> stored_value) \<Rightarrow>
     (key \<rightharpoonup> stored_value) \<Rightarrow> ('m, 'g) runtime_context \<Rightarrow> bool" where
  "at_view X ents m view c \<longleftrightarrow>
     linked_map_laws X ents \<and> tc_inv X ents m (ctx_state c) \<and> tc_view m (ctx_state c) = view"

lemma on_state_step:
  assumes "at_view X ents m view c" "m' (ctx_state c) = Some (Ok x, tc)" "tc_inv X ents m tc" "tc_view m tc = view'"
  shows "on_state m' c = Some (Ok x, c\<lparr>ctx_state := tc\<rparr>)" "at_view X ents m view' (c\<lparr>ctx_state := tc\<rparr>)"
  using assms by (simp_all add: zoom_def at_view_def)

lemma read_step:
  assumes "at_view X ents m view c"
  shows "\<exists>tc. on_state (tc_read X k) c = Some (Ok (view (key_normalize k)), c\<lparr>ctx_state := tc\<rparr>)
     \<and> at_view X ents m view (c\<lparr>ctx_state := tc\<rparr>)"
proof -
  obtain tc where "tc_read X k (ctx_state c) = Some (Ok (view (key_normalize k)), tc)"
    "reading_step X ents m (ctx_state c) tc"
    using tc_read_step [of X ents m "ctx_state c" k] assms by (auto simp: at_view_def)
  then show ?thesis
    using on_state_step [OF assms, of "tc_read X k" _ tc view] assms
    by (auto simp: reading_step_def at_view_def)
qed

lemma write_step:
  assumes "at_view X ents m view c"
  shows "\<exists>tc. on_state (tc_write k v) c = Some (Ok (), c\<lparr>ctx_state := tc\<rparr>)
     \<and> at_view X ents m (view(key_normalize k \<mapsto> v)) (c\<lparr>ctx_state := tc\<rparr>)"
  using assms by (auto simp: zoom_def tc_write_correct at_view_def)

lemma add_step:
  assumes "at_view X ents m view c"
  shows "\<exists>tc. on_state (tc_add X k v) c = Some (Ok (fst (spec_add view (key_normalize k) v)), c\<lparr>ctx_state := tc\<rparr>)
     \<and> at_view X ents m (snd (spec_add view (key_normalize k) v)) (c\<lparr>ctx_state := tc\<rparr>)"
proof -
  obtain tc0 where tc0: "tc_inv X ents m tc0" "tc_view m tc0 = view"
    "tc_add X k v (ctx_state c) = Some (Ok (fst (spec_add view (key_normalize k) v)),
       case (view (key_normalize k), add_transform v) of
         (Some c, Ok t) \<Rightarrow>
           (case transform_apply t c of
              Ok n \<Rightarrow> record_effect (key_normalize k) Op_Add t (write_cache (key_normalize k) n tc0)
            | _ \<Rightarrow> tc0)
       | _ \<Rightarrow> tc0)"
    using tc_add_correct [of X ents m "ctx_state c" k v] assms cache_only_view by (auto simp: at_view_def)
  then show ?thesis
    using assms
    by (auto simp: zoom_def at_view_def spec_add_def split: option.splits result.splits transform_error.splits)
qed

abbreviation local_key :: "('m, 'g, 'z) runtime_externals_scheme \<Rightarrow> ('m, 'g) runtime_context \<Rightarrow> bytes \<Rightarrow> key" where
  "local_key X c bs \<equiv> key_local (blake2b X) (ctx_seed c) bs"

text \<open>Storing a key under a short name appends to the names of the stored contract.\<close>

lemma named_key_bytes:
  assumes "length (str_bytes name) \<le> 1000"
  shows "\<exists>bs. pair_to_bytes str_to_bytes key_to_bytes (name, k) = Ok bs
    \<and> deserialize (pair_from_bytes string_from_bytes key_from_bytes) bs = Ok (name, k)"
proof -
  obtain b where b: "str_to_bytes name = Ok b"
    using assms by (auto simp: str_to_bytes_def vec_u8_to_bytes_def)
  have c: "codec (pair_to_bytes str_to_bytes key_to_bytes) (pair_from_bytes string_from_bytes key_from_bytes)
      (pred_prod (\<lambda>_. True) (\<lambda>_. True))"
    by (rule pair_codec [OF strc.codec_axioms keyc.codec_axioms])
  have "pair_to_bytes str_to_bytes key_to_bytes (name, k) = Ok (b @ key_bytes k)"
    by (simp add: pair_to_bytes_def b key_to_bytes_eq)
  then show ?thesis using codec.deserialize_ser [OF c] by simp
qed

lemma put_key_step:
  assumes "at_view X ents m view c" "length (str_bytes name) \<le> 1000" "validate_key c k = Ok ()"
    "view (key_normalize (ctx_base_key c)) = Some (SV_Contract con)"
  shows "\<exists>tc. put_key X name k c = Some (Ok (), insert_key name k (c\<lparr>ctx_state := tc\<rparr>))
    \<and> at_view X ents m (view(key_normalize (ctx_base_key c) \<mapsto>
          SV_Contract (contract_named_keys_append con (fmap_of_list [(name, k)])))) (c\<lparr>ctx_state := tc\<rparr>)"
proof -
  obtain bs where bs: "pair_to_bytes str_to_bytes key_to_bytes (name, k) = Ok bs"
      "deserialize (pair_from_bytes string_from_bytes key_from_bytes) bs = Ok (name, k)"
    using named_key_bytes [OF assms(2)] by blast
  let ?v = "SV_CLValue (CLValue named_key_type bs)"
  let ?con = "SV_Contract (contract_named_keys_append con (fmap_of_list [(name, k)]))"
  have t: "add_transform ?v = Ok (AddKeys (fmap_of_list [(name, k)]))"
    by (simp add: add_transform_def named_key_type_def into_t_def bs(2) del: fmap_of_list_simps)
  then have spec: "spec_add view (key_normalize (ctx_base_key c)) ?v =
      (Add_Success, view(key_normalize (ctx_base_key c) \<mapsto> ?con))"
    using assms(4) by (simp add: spec_add_def del: fmap_of_list_simps)
  obtain tc where tc: "on_state (tc_add X (ctx_base_key c) ?v) c = Some (Ok Add_Success, c\<lparr>ctx_state := tc\<rparr>)"
      "at_view X ents m (view(key_normalize (ctx_base_key c) \<mapsto> ?con)) (c\<lparr>ctx_state := tc\<rparr>)"
    using add_step [OF assms(1), of "ctx_base_key c" ?v] spec by auto
  have "validate_value c ?v = Ok ()"
    using assms(3) by (simp add: validate_value_def named_key_type_def into_t_def bs(2))
  then have "put_key X name k c = Some (Ok (), insert_key name k (c\<lparr>ctx_state := tc\<rparr>))"
    using tc(1) by (simp add: put_key_def from_t_def bs(1) add_unsafe_def seq_def check_def)
  then show ?thesis using tc(2) by blast
qed

end
