(* ===== verification/Mint.thy ===== *)
theory Mint
  imports Contract_Api
begin

text \<open>
  \<^verbatim>\<open>mint/src/lib.rs\<close>: purses and their balances. The functions of the trait \<^verbatim>\<open>Mint\<close> are written over the
  methods of \<^verbatim>\<open>RuntimeProvider\<close> and \<^verbatim>\<open>StorageProvider\<close>, which are the fields of \<open>mint_provider\<close> at the types
  at which the functions use them; \<open>encode_lower\<close> is the coder of \<^verbatim>\<open>base16\<close>.

  The locale \<open>mint_store\<close> states what the mint relies on: the providers represent a map from purses to
  references and a map from references to balances. Its lemmas: creating a purse adds one with the
  given balance, transfers move motes between two balances or return an error and change nothing, and
  the sum of all balances is kept.
\<close>

section \<open>The providers and the functions of the mint\<close>

record ('s, 'x) mint_provider =
  mp_get_caller :: "('s, public_key, 'x) exec"
  mp_put_key :: "rstring \<Rightarrow> key \<Rightarrow> ('s, unit, 'x) exec"
  mp_new_balance :: "U512 \<Rightarrow> ('s, uref, 'x) exec"
  mp_new_unit :: "('s, uref, 'x) exec"
  mp_write_local :: "array32 \<Rightarrow> key \<Rightarrow> ('s, unit, 'x) exec"
  mp_read_local :: "array32 \<Rightarrow> ('s, mint_error + key option, 'x) exec"
  mp_read :: "uref \<Rightarrow> ('s, mint_error + U512 option, 'x) exec"
  mp_write :: "uref \<Rightarrow> U512 \<Rightarrow> ('s, mint_error + unit, 'x) exec"
  mp_add :: "uref \<Rightarrow> U512 \<Rightarrow> ('s, mint_error + unit, 'x) exec"

definition SYSTEM_ACCOUNT :: array32 where "SYSTEM_ACCOUNT = array32_fill 0"

definition mint ::
    "(bytes \<Rightarrow> rstring) \<Rightarrow> ('s, 'x) mint_provider \<Rightarrow> U512 \<Rightarrow> ('s, mint_error + uref, 'x) exec" where
  "mint encode_lower P initial_balance =
     seq (mp_get_caller P) (\<lambda>caller.
     if initial_balance \<noteq> 0 \<and> caller \<noteq> SYSTEM_ACCOUNT then return (Inl Mint_InvalidNonEmptyPurseCreation)
     else
       seq (mp_new_balance P initial_balance) (\<lambda>balance_uref.
       seq (mp_new_unit P) (\<lambda>purse_key.
       let purse_uref_name = uref_as_string encode_lower (remove_access_rights purse_key) in
       seq (mp_put_key P purse_uref_name (Key_URef balance_uref)) (\<lambda>_.
       seq (mp_write_local P (addr purse_key) (Key_URef balance_uref)) (\<lambda>_.
         return (Inr purse_key))))))"

definition balance :: "('s, 'x) mint_provider \<Rightarrow> uref \<Rightarrow> ('s, mint_error + U512 option, 'x) exec" where
  "balance P purse =
     seq_ok (mp_read_local P (addr purse)) (\<lambda>maybe_key.
       case maybe_key of
         None \<Rightarrow> return (Inr None)
       | Some key \<Rightarrow>
           seq_ok (as_value (ok_or (into_uref key) Mint_InvalidAccessRights)) (\<lambda>balance_uref.
           seq_ok (mp_read P balance_uref) (\<lambda>maybe_balance.
             case maybe_balance of
               Some v \<Rightarrow> return (Inr (Some v))
             | None \<Rightarrow> return (Inl Mint_PurseNotFound))))"

text \<open>The first part of both lookups of \<^verbatim>\<open>transfer\<close>.\<close>

definition balance_uref_of ::
    "('s, 'x) mint_provider \<Rightarrow> mint_error \<Rightarrow> uref \<Rightarrow> ('s, mint_error + uref, 'x) exec" where
  "balance_uref_of P not_found purse =
     seq_ok (mp_read_local P (addr purse)) (\<lambda>maybe_key.
       case maybe_key of
         Some key \<Rightarrow> as_value (ok_or (into_uref key) Mint_InvalidAccessRights)
       | None \<Rightarrow> return (Inl not_found))"

definition transfer ::
    "('s, 'x) mint_provider \<Rightarrow> uref \<Rightarrow> uref \<Rightarrow> U512 \<Rightarrow> ('s, mint_error + unit, 'x) exec" where
  "transfer P source dest amount =
     (if \<not> uref_is_writeable source \<or> \<not> uref_is_addable dest then return (Inl Mint_InvalidAccessRights)
      else
        seq_ok (balance_uref_of P Mint_SourceNotFound source) (\<lambda>source_bal.
        seq_ok (mp_read P source_bal) (\<lambda>maybe_value.
        seq_ok (as_value (ok_or maybe_value Mint_SourceNotFound)) (\<lambda>source_value.
        if source_value < amount then return (Inl Mint_InsufficientFunds)
        else
          seq_ok (balance_uref_of P Mint_DestNotFound dest) (\<lambda>dest_bal.
          seq_ok (as_value (uint_sub source_value amount)) (\<lambda>rest.
          seq_ok (mp_write P source_bal rest) (\<lambda>_.
          seq_ok (mp_add P dest_bal amount) (\<lambda>_.
            return (Inr ())))))))))"

section \<open>The specification\<close>

type_synonym purses = "array32 \<rightharpoonup> key"
type_synonym balances = "array32 \<rightharpoonup> U512"

definition balance_at :: "purses \<Rightarrow> array32 \<Rightarrow> array32 option" where
  "balance_at p a = (case p a of Some k \<Rightarrow> map_option addr (into_uref k) | None \<Rightarrow> None)"

definition move :: "array32 \<Rightarrow> array32 \<Rightarrow> U512 \<Rightarrow> balances \<Rightarrow> balances" where
  "move x y amount b =
     (let b' = b(x \<mapsto> the (b x) - amount) in b'(y \<mapsto> the (b' y) + amount))"

definition spec_transfer ::
    "purses \<Rightarrow> balances \<Rightarrow> uref \<Rightarrow> uref \<Rightarrow> U512 \<Rightarrow> mint_error + balances" where
  "spec_transfer p b source dest amount =
     (if \<not> uref_is_writeable source \<or> \<not> uref_is_addable dest then Inl Mint_InvalidAccessRights
      else case balance_at p (addr source) of
        None \<Rightarrow> Inl Mint_SourceNotFound
      | Some x \<Rightarrow>
          if the (b x) < amount then Inl Mint_InsufficientFunds
          else case balance_at p (addr dest) of
            None \<Rightarrow> Inl Mint_DestNotFound
          | Some y \<Rightarrow> Inr (move x y amount b))"

definition total_balance :: "balances \<Rightarrow> nat" where
  "total_balance b = (\<Sum>a \<in> dom b. unat (the (b a)))"

lemma total_balance_upd:
  assumes "finite (dom b)" "a \<in> dom b"
  shows "total_balance (b(a \<mapsto> v)) + unat (the (b a)) = total_balance b + unat v"
proof -
  have "(\<Sum>x \<in> dom b - {a}. unat (the ((b(a \<mapsto> v)) x))) = (\<Sum>x \<in> dom b - {a}. unat (the (b x)))"
    by (rule sum.cong) auto
  then show ?thesis
    using assms by (simp add: total_balance_def sum.remove [of "dom b" a] insert_absorb)
qed

lemma balance_le_total: "finite (dom b) \<Longrightarrow> a \<in> dom b \<Longrightarrow> unat (the (b a)) \<le> total_balance b"
  unfolding total_balance_def by (rule member_le_sum) auto

text \<open>A transfer conserves the motes, also between a purse and itself, while their sum fits in 512 bits.\<close>

lemma move_total:
  assumes "finite (dom b)" "x \<in> dom b" "y \<in> dom b" "amount \<le> the (b x)" "total_balance b < 2 ^ 512"
  shows "total_balance (move x y amount b) = total_balance b" "dom (move x y amount b) = dom b"
proof -
  let ?b = "b(x \<mapsto> the (b x) - amount)"
  have d: "dom ?b = dom b" using assms(2) by auto
  show "dom (move x y amount b) = dom b" using assms(2,3) by (auto simp: move_def)
  have s: "unat (the (b x) - amount) = unat (the (b x)) - unat amount" "unat amount \<le> unat (the (b x))"
    using assms(4) by (simp_all add: unat_sub word_le_nat_alt)
  have t: "total_balance ?b + unat amount = total_balance b"
    using total_balance_upd [OF assms(1,2), of "the (b x) - amount"] s by linarith
  have f: "finite (dom ?b)" "y \<in> dom ?b" using assms(1,3) by (simp_all only: d)
  have "unat (the (?b y)) \<le> total_balance ?b" by (rule balance_le_total [OF f])
  then have "unat (the (?b y)) + unat amount < 2 ^ LENGTH(512)" using t assms(5) by simp
  then have "unat (the (?b y) + amount) = unat (the (?b y)) + unat amount" by (simp only: unat_add_lem)
  then show "total_balance (move x y amount b) = total_balance b"
    using total_balance_upd [OF f, of "the (?b y) + amount"] t by (simp add: move_def Let_def)
qed

text \<open>The hexadecimal form has two characters per byte.\<close>

definition hex_length :: "(bytes \<Rightarrow> rstring) \<Rightarrow> bool" where
  "hex_length encode_lower \<longleftrightarrow> (\<forall>bs. length (str_bytes (encode_lower bs)) = 2 * length bs)"

lemma purse_name_length:
  assumes "hex_length encode_lower"
  shows "length (str_bytes (uref_as_string encode_lower u)) \<le> 1000"
  using assms by (simp add: hex_length_def uref_as_string_def Let_def octal3_def ascii_bytes_def)

section \<open>The mint over its providers\<close>

locale mint_store =
  fixes P :: "('s, 'x) mint_provider"
    and caller :: "'s \<Rightarrow> public_key"
    and rep :: "array32 set \<Rightarrow> 's \<Rightarrow> purses \<Rightarrow> balances \<Rightarrow> uref set \<Rightarrow> nat \<Rightarrow> bool"
    and undrawn :: "'s \<Rightarrow> nat \<Rightarrow> array32 set"
  assumes purse_known: "rep U s p b h n \<Longrightarrow> p a = Some k \<Longrightarrow> \<exists>u. k = Key_URef u \<and> u \<in> h \<and> addr u \<in> dom b"
    and caller_read: "mp_get_caller P s = Some (Ok (caller s), s)"
    and local_read: "rep U s p b h n \<Longrightarrow> a \<in> U \<Longrightarrow>
      \<exists>s'. mp_read_local P a s = Some (Ok (Inr (p a)), s') \<and> rep U s' p b h n"
    and balance_read: "rep U s p b h n \<Longrightarrow> u \<in> h \<Longrightarrow> addr u \<in> dom b \<Longrightarrow>
      \<exists>s'. mp_read P u s = Some (Ok (Inr (b (addr u))), s') \<and> rep U s' p b h n"
    and balance_write: "rep U s p b h n \<Longrightarrow> u \<in> h \<Longrightarrow> addr u \<in> dom b \<Longrightarrow>
      \<exists>s'. mp_write P u v s = Some (Ok (Inr ()), s') \<and> rep U s' p (b(addr u \<mapsto> v)) h n"
    and balance_add: "rep U s p b h n \<Longrightarrow> u \<in> h \<Longrightarrow> addr u \<in> dom b \<Longrightarrow>
      \<exists>s'. mp_add P u v s = Some (Ok (Inr ()), s') \<and> rep U s' p (b(addr u \<mapsto> the (b (addr u)) + v)) h n"
    and balance_new: "rep U s p b h (Suc n) \<Longrightarrow>
      \<exists>u s'. mp_new_balance P v s = Some (Ok u, s') \<and> addr u \<notin> dom b
        \<and> rep U s' p (b(addr u \<mapsto> v)) (insert u h) n"
    and unit_new: "rep U s p b h (Suc n) \<Longrightarrow>
      \<exists>u s'. mp_new_unit P s = Some (Ok u, s') \<and> addr u \<notin> dom p \<and> addr u \<in> U
        \<and> access_rights u = Some READ_ADD_WRITE \<and> rep U s' p b h n \<and> addr u \<notin> undrawn s' n"
    and key_put: "rep U s p b h n \<Longrightarrow> u \<in> h \<Longrightarrow> length (str_bytes name) \<le> 1000 \<Longrightarrow>
      \<exists>s'. mp_put_key P name (Key_URef u) s = Some (Ok (), s') \<and> rep U s' p b h n \<and> undrawn s' n = undrawn s n"
    and local_write: "rep U s p b h n \<Longrightarrow> a \<in> U \<Longrightarrow> u \<in> h \<Longrightarrow> addr u \<in> dom b \<Longrightarrow> a \<notin> undrawn s n \<Longrightarrow>
      \<exists>s'. mp_write_local P a (Key_URef u) s = Some (Ok (), s') \<and> rep U s' (p(a \<mapsto> Key_URef u)) b h n"
begin

lemma lookup_balance:
  assumes "rep U s p b h n" "addr purse \<in> U"
  shows "\<exists>s'. rep U s' p b h n \<and>
    (case balance_at p (addr purse) of
       None \<Rightarrow> balance_uref_of P e purse s = Some (Ok (Inl e), s')
     | Some x \<Rightarrow> \<exists>u \<in> h. addr u = x \<and> x \<in> dom b \<and> balance_uref_of P e purse s = Some (Ok (Inr u), s'))"
proof -
  obtain s' where s': "mp_read_local P (addr purse) s = Some (Ok (Inr (p (addr purse))), s')" "rep U s' p b h n"
    using local_read [OF assms] by blast
  show ?thesis
  proof (cases "p (addr purse)")
    case None
    then show ?thesis using s' by (auto simp: balance_uref_of_def seq_ok_step(1) balance_at_def)
  next
    case (Some k)
    then obtain u where u: "k = Key_URef u" "u \<in> h" "addr u \<in> dom b" using purse_known [OF assms(1)] by blast
    have "balance_uref_of P e purse s = Some (Ok (Inr u), s')"
      using s'(1) Some u(1) by (simp add: balance_uref_of_def seq_ok_step(1) as_value_def)
    then show ?thesis using s'(2) Some u by (auto simp: balance_at_def)
  qed
qed

lemma balance_correct:
  assumes "rep U s p b h n" "addr purse \<in> U"
  shows "\<exists>s'. balance P purse s = Some (Ok (Inr (Option.bind (balance_at p (addr purse)) b)), s') \<and> rep U s' p b h n"
proof -
  obtain s1 where s1: "mp_read_local P (addr purse) s = Some (Ok (Inr (p (addr purse))), s1)" "rep U s1 p b h n"
    using local_read [OF assms] by blast
  show ?thesis
  proof (cases "p (addr purse)")
    case None
    then show ?thesis using s1 by (simp add: balance_def seq_ok_step(1) balance_at_def)
  next
    case (Some k)
    then obtain u v where u: "k = Key_URef u" "u \<in> h" "b (addr u) = Some v"
      using purse_known [OF assms(1)] by blast
    obtain s2 where s2: "mp_read P u s1 = Some (Ok (Inr (b (addr u))), s2)" "rep U s2 p b h n"
      using balance_read [OF s1(2) u(2)] u(3) by blast
    have "balance P purse s = Some (Ok (Inr (Some v)), s2)"
      using s1(1) Some u s2(1) by (simp add: balance_def seq_ok_step(1))
    then show ?thesis using s2(2) Some u by (auto simp: balance_at_def)
  qed
qed

lemma transfer_refines:
  assumes "rep U s p b h n" "addr source \<in> U" "addr dest \<in> U"
  shows "\<exists>s'. transfer P source dest amount s =
      Some (Ok (case spec_transfer p b source dest amount of Inl e \<Rightarrow> Inl e | Inr _ \<Rightarrow> Inr ()), s')
    \<and> rep U s' p (case spec_transfer p b source dest amount of Inl _ \<Rightarrow> b | Inr b' \<Rightarrow> b') h n"
proof (cases "\<not> uref_is_writeable source \<or> \<not> uref_is_addable dest")
  case True
  then show ?thesis using assms(1) by (auto simp: transfer_def spec_transfer_def)
next
  case False
  obtain s1 where s1: "rep U s1 p b h n"
    "case balance_at p (addr source) of
       None \<Rightarrow> balance_uref_of P Mint_SourceNotFound source s = Some (Ok (Inl Mint_SourceNotFound), s1)
     | Some x \<Rightarrow> \<exists>u \<in> h. addr u = x \<and> x \<in> dom b
         \<and> balance_uref_of P Mint_SourceNotFound source s = Some (Ok (Inr u), s1)"
    using lookup_balance [OF assms(1,2)] by blast
  show ?thesis
  proof (cases "balance_at p (addr source)")
    case None
    then show ?thesis using False s1 by (auto simp: transfer_def spec_transfer_def seq_ok_step(2))
  next
    case (Some x)
    then obtain u v where u: "u \<in> h" "addr u = x" "b x = Some v"
        "balance_uref_of P Mint_SourceNotFound source s = Some (Ok (Inr u), s1)"
      using s1(2) by auto
    obtain s2 where s2: "mp_read P u s1 = Some (Ok (Inr (Some v)), s2)" "rep U s2 p b h n"
      using balance_read [OF s1(1) u(1)] u(2,3) by fastforce
    have run: "transfer P source dest amount s =
        (if v < amount then return (Inl Mint_InsufficientFunds)
         else
           seq_ok (balance_uref_of P Mint_DestNotFound dest) (\<lambda>dest_bal.
           seq_ok (as_value (uint_sub v amount)) (\<lambda>rest.
           seq_ok (mp_write P u rest) (\<lambda>_.
           seq_ok (mp_add P dest_bal amount) (\<lambda>_.
             return (Inr ())))))) s2"
      using False u(4) s2(1) by (simp add: transfer_def seq_ok_step(1))
    show ?thesis
    proof (cases "v < amount")
      case True
      then show ?thesis using False Some u s2(2) by (auto simp: run spec_transfer_def)
    next
      case enough: False
      obtain s3 where s3: "rep U s3 p b h n"
        "case balance_at p (addr dest) of
           None \<Rightarrow> balance_uref_of P Mint_DestNotFound dest s2 = Some (Ok (Inl Mint_DestNotFound), s3)
         | Some y \<Rightarrow> \<exists>w \<in> h. addr w = y \<and> y \<in> dom b
             \<and> balance_uref_of P Mint_DestNotFound dest s2 = Some (Ok (Inr w), s3)"
        using lookup_balance [OF s2(2) assms(3)] by blast
      show ?thesis
      proof (cases "balance_at p (addr dest)")
        case None
        then show ?thesis using False Some u enough s3 by (auto simp: run spec_transfer_def seq_ok_step(2))
      next
        case some_dest: (Some y)
        then obtain w where w: "w \<in> h" "addr w = y" "y \<in> dom b"
            "balance_uref_of P Mint_DestNotFound dest s2 = Some (Ok (Inr w), s3)"
          using s3(2) by auto
        obtain s4 where s4: "mp_write P u (v - amount) s3 = Some (Ok (Inr ()), s4)"
            "rep U s4 p (b(x \<mapsto> v - amount)) h n"
          using balance_write [OF s3(1) u(1)] u(2,3) by blast
        obtain s5 where s5: "mp_add P w amount s4 = Some (Ok (Inr ()), s5)"
            "rep U s5 p ((b(x \<mapsto> v - amount))(y \<mapsto> the ((b(x \<mapsto> v - amount)) y) + amount)) h n"
          using balance_add [OF s4(2) w(1)] w(2,3) by fastforce
        have sub: "uint_sub v amount = (Ok (v - amount) :: (U512, mint_error) result)" using enough by (simp add: uint_sub_def checked_sub_def)
        have "transfer P source dest amount s = Some (Ok (Inr ()), s5)"
          using enough sub w(4) s4(1) s5(1) by (simp add: run seq_ok_step(1))
        then show ?thesis
          using False Some u enough some_dest s5(2) by (auto simp: spec_transfer_def move_def)
      qed
    qed
  qed
qed

lemma mint_refused:
  "initial \<noteq> 0 \<Longrightarrow> caller s \<noteq> SYSTEM_ACCOUNT \<Longrightarrow>
   mint encode_lower P initial s = Some (Ok (Inl Mint_InvalidNonEmptyPurseCreation), s)"
  by (simp add: mint_def seq_step(1) [where m = "mp_get_caller P", OF caller_read])

lemma mint_correct:
  assumes "rep U s p b h (Suc (Suc n))" "initial = 0 \<or> caller s = SYSTEM_ACCOUNT" "hex_length encode_lower"
  shows "\<exists>purse u s'. mint encode_lower P initial s = Some (Ok (Inr purse), s')
    \<and> addr purse \<in> U \<and> addr purse \<notin> dom p \<and> addr u \<notin> dom b \<and> access_rights purse = Some READ_ADD_WRITE
    \<and> rep U s' (p(addr purse \<mapsto> Key_URef u)) (b(addr u \<mapsto> initial)) (insert u h) n"
proof -
  obtain u s1 where s1: "mp_new_balance P initial s = Some (Ok u, s1)" "addr u \<notin> dom b"
      "rep U s1 p (b(addr u \<mapsto> initial)) (insert u h) (Suc n)"
    using balance_new [OF assms(1)] by blast
  obtain purse s2 where s2: "mp_new_unit P s1 = Some (Ok purse, s2)" "addr purse \<notin> dom p" "addr purse \<in> U"
      "access_rights purse = Some READ_ADD_WRITE" "rep U s2 p (b(addr u \<mapsto> initial)) (insert u h) n"
      "addr purse \<notin> undrawn s2 n"
    using unit_new [OF s1(3)] by blast
  let ?name = "uref_as_string encode_lower (remove_access_rights purse)"
  obtain s3 where s3: "mp_put_key P ?name (Key_URef u) s2 = Some (Ok (), s3)"
      "rep U s3 p (b(addr u \<mapsto> initial)) (insert u h) n" "undrawn s3 n = undrawn s2 n"
    using key_put [OF s2(5) insertI1 purse_name_length [OF assms(3)]] by blast
  obtain s4 where s4: "mp_write_local P (addr purse) (Key_URef u) s3 = Some (Ok (), s4)"
      "rep U s4 (p(addr purse \<mapsto> Key_URef u)) (b(addr u \<mapsto> initial)) (insert u h) n"
    using local_write [OF s3(2) s2(3), of u] s2(6) s3(3) by fastforce
  have "mint encode_lower P initial s = Some (Ok (Inr purse), s4)"
    using assms(2) s1(1) s2(1) s3(1) s4(1)
    by (auto simp: mint_def Let_def seq_step(1) [where m = "mp_get_caller P", OF caller_read] seq_step(1))
  then show ?thesis using s1(2) s2 s4(2) by blast
qed

end

end
