(* ===== verification/Mint_Contract.thy ===== *)
theory Mint_Contract
  imports Mint Context_Safety
begin

text \<open>
  \<^verbatim>\<open>contracts/system/mint-token/src\<close>: the providers with which the mint contract runs, on the runtime
  context of the contract. \<open>mint_at\<close> says what the context holds: the purses in the local state, the
  balances under references that the contract may use, the contract itself under its base key, and
  \<open>n\<close> addresses of the generator that are not used yet. The addresses of \<open>U\<close> are those whose local
  keys do not collide. On such contexts the providers fulfil \<open>mint_store\<close>.
\<close>

section \<open>The providers\<close>

definition contract_storage_read ::
    "('m, 'g, 'z) runtime_externals_scheme \<Rightarrow> uref \<Rightarrow> ('m, 'g, mint_error + U512 option) ctx_exec" where
  "contract_storage_read X uref =
     seq_ok (as_value (map_err (\<lambda>_. Mint_InvalidAccessRights) (turef_from_uref uref))) (\<lambda>turef.
       map_inl (\<lambda>_. Mint_StorageError) (storage_read X u512_from_bytes turef))"

definition contract_storage_write :: "uref \<Rightarrow> U512 \<Rightarrow> ('m, 'g, mint_error + unit) ctx_exec" where
  "contract_storage_write uref value =
     seq_ok (as_value (map_err (\<lambda>_. Mint_InvalidAccessRights) (turef_from_uref uref))) (\<lambda>turef.
     seq (storage_write u512_to_bytes CL_U512 turef value) (\<lambda>_. return (Inr ())))"

definition contract_storage_add ::
    "('m, 'g, 'z) runtime_externals_scheme \<Rightarrow> uref \<Rightarrow> U512 \<Rightarrow> ('m, 'g, mint_error + unit) ctx_exec" where
  "contract_storage_add X uref value =
     seq_ok (as_value (map_err (\<lambda>_. Mint_InvalidAccessRights) (turef_from_uref uref))) (\<lambda>turef.
     seq (storage_add X u512_to_bytes CL_U512 turef value) (\<lambda>_. return (Inr ())))"

definition mint_contract ::
    "('m, 'g, 'z) runtime_externals_scheme \<Rightarrow> (('m, 'g) runtime_context, exec_error) mint_provider" where
  "mint_contract X =
     \<lparr>mp_get_caller = gets get_caller,
      mp_put_key = put_key X,
      mp_new_balance = new_turef X u512_to_bytes CL_U512,
      mp_new_unit = new_turef X unit_to_bytes CL_Unit (),
      mp_write_local = storage_write_local X array32_to_bytes key_to_bytes CL_Key,
      mp_read_local = (\<lambda>a. map_inl (\<lambda>_. Mint_StorageError)
        (storage_read_local X array32_to_bytes key_from_bytes a)),
      mp_read = contract_storage_read X,
      mp_write = contract_storage_write,
      mp_add = contract_storage_add X\<rparr>"

section \<open>What the context holds\<close>

fun draw :: "('m, 'g, 'z) runtime_externals_scheme \<Rightarrow> 'g \<Rightarrow> nat \<Rightarrow> array32" where
  "draw X g 0 = fst (rng_fill_bytes X g)"
| "draw X g (Suc n) = draw X (snd (rng_fill_bytes X g)) n"

definition key_stored :: "key \<Rightarrow> stored_value" where
  "key_stored k = SV_CLValue (CLValue CL_Key (key_bytes k))"

definition usable :: "('m, 'g) runtime_context \<Rightarrow> uref \<Rightarrow> bool" where
  "usable c u \<longleftrightarrow> access_rights u = Some READ_ADD_WRITE \<and> validate_uref c u = Ok ()"

text \<open>The contract is stored under its base key, at none of the addresses of \<open>A\<close>.\<close>

definition base_stored ::
    "(key \<rightharpoonup> stored_value) \<Rightarrow> array32 set \<Rightarrow> ('m, 'g) runtime_context \<Rightarrow> bool" where
  "base_stored view A c \<longleftrightarrow>
     (\<exists>con. view (key_normalize (ctx_base_key c)) = Some (SV_Contract con)) \<and>
     (case ctx_base_key c of Key_URef u \<Rightarrow> addr u \<notin> A | Key_Local _ \<Rightarrow> False | _ \<Rightarrow> True)"

definition mint_view ::
    "('m, 'g, 'z) runtime_externals_scheme \<Rightarrow> array32 set \<Rightarrow> ('m, 'g) runtime_context \<Rightarrow> purses \<Rightarrow> balances \<Rightarrow> nat \<Rightarrow>
     (key \<rightharpoonup> stored_value) \<Rightarrow> bool" where
  "mint_view X U c p b n view \<longleftrightarrow>
     (\<forall>a \<in> U. view (local_key X c (array_bytes a)) = map_option key_stored (p a)) \<and>
     (\<forall>a v. b a = Some v \<longrightarrow> view (Key_URef (URef a None)) = Some (u512_stored v)) \<and>
     base_stored view (dom b \<union> draw X (ctx_address_generator c) ` {..<n}) c"

definition mint_known ::
    "('m, 'g, 'z) runtime_externals_scheme \<Rightarrow> array32 set \<Rightarrow> ('m, 'g) runtime_context \<Rightarrow> purses \<Rightarrow> balances \<Rightarrow>
     uref set \<Rightarrow> nat \<Rightarrow> bool" where
  "mint_known X U c p b h n \<longleftrightarrow>
     (\<forall>u \<in> h. usable c u) \<and>
     (\<forall>a k. p a = Some k \<longrightarrow> (\<exists>u. k = Key_URef u \<and> u \<in> h \<and> addr u \<in> dom b)) \<and>
     inj_on (\<lambda>a. local_key X c (array_bytes a)) U \<and>
     inj_on (draw X (ctx_address_generator c)) {..<n} \<and>
     draw X (ctx_address_generator c) ` {..<n} \<subseteq> U - (dom b \<union> dom p)"

definition mint_at ::
    "('m, 'g, 'z) runtime_externals_scheme \<Rightarrow> ('m \<Rightarrow> (key \<times> stored_value) list) \<Rightarrow> (key \<rightharpoonup> stored_value) \<Rightarrow>
     array32 set \<Rightarrow> ('m, 'g) runtime_context \<Rightarrow> purses \<Rightarrow> balances \<Rightarrow> uref set \<Rightarrow> nat \<Rightarrow> bool" where
  "mint_at X ents m U c p b h n \<longleftrightarrow>
     (\<exists>view. at_view X ents m view c \<and> mint_view X U c p b n view) \<and> mint_known X U c p b h n"

section \<open>The storage functions on a view\<close>

lemma turef_from_usable: "usable c u \<Longrightarrow> turef_from_uref u = Ok u"
  by (cases u) (simp add: usable_def turef_from_uref_def uref_new_def)

lemma usable_rights: "usable c u \<Longrightarrow> uref_is_readable u \<and> uref_is_writeable u \<and> uref_is_addable u"
  by (simp add: usable_def uref_is_readable_def uref_is_writeable_def uref_is_addable_def
      rights_is_readable_def rights_is_writeable_def rights_is_addable_def rights_inter_def)

lemma u512_stored_cl: "\<exists>b. u512_to_bytes v = Ok b \<and> u512_stored v = SV_CLValue (CLValue CL_U512 b)"
  using u512_to_bytes_Ok [of v] by (auto simp: u512_stored_def)

lemma storage_read_step:
  assumes "at_view X ents m view c" "usable c u" "view (Key_URef (URef (addr u) None)) = Some (u512_stored v)"
  shows "\<exists>tc. contract_storage_read X u c = Some (Ok (Inr (Some v)), c\<lparr>ctx_state := tc\<rparr>)
    \<and> at_view X ents m view (c\<lparr>ctx_state := tc\<rparr>)"
proof -
  obtain b where b: "u512_to_bytes v = Ok b" "u512_stored v = SV_CLValue (CLValue CL_U512 b)"
    using u512_stored_cl by blast
  obtain tc where tc: "on_state (tc_read X (Key_URef u)) c = Some (Ok (Some (u512_stored v)), c\<lparr>ctx_state := tc\<rparr>)"
      "at_view X ents m view (c\<lparr>ctx_state := tc\<rparr>)"
    using read_step [OF assms(1), of "Key_URef u"] assms(3) by (auto simp: remove_access_rights_def)
  have "read_gs X (Key_URef u) c = Some (Ok (Some (u512_stored v)), c\<lparr>ctx_state := tc\<rparr>)"
    using tc(1) assms(2) usable_rights [OF assms(2)]
    by (simp add: read_gs_def seq_def check_def validate_readable_def is_readable_def validate_key_def usable_def)
  then have "contract_storage_read X u c = Some (Ok (Inr (Some v)), c\<lparr>ctx_state := tc\<rparr>)"
    using u512c.deserialize_ser [OF _ b(1)]
    by (simp add: contract_storage_read_def turef_from_usable [OF assms(2)] map_inl_def storage_read_def
        read_value_def seq_step(1) b(2) seq_assoc)
  then show ?thesis using tc(2) by blast
qed

lemma storage_write_step:
  assumes "at_view X ents m view c" "usable c u"
  shows "\<exists>tc. contract_storage_write u v c = Some (Ok (Inr ()), c\<lparr>ctx_state := tc\<rparr>)
    \<and> at_view X ents m (view(Key_URef (URef (addr u) None) \<mapsto> u512_stored v)) (c\<lparr>ctx_state := tc\<rparr>)"
proof -
  obtain b where b: "u512_to_bytes v = Ok b" "u512_stored v = SV_CLValue (CLValue CL_U512 b)"
    using u512_stored_cl by blast
  obtain tc where tc: "on_state (tc_write (Key_URef u) (u512_stored v)) c = Some (Ok (), c\<lparr>ctx_state := tc\<rparr>)"
      "at_view X ents m (view(Key_URef (URef (addr u) None) \<mapsto> u512_stored v)) (c\<lparr>ctx_state := tc\<rparr>)"
    using write_step [OF assms(1), of "Key_URef u"] by (auto simp: remove_access_rights_def)
  have "contract_storage_write u v c = Some (Ok (Inr ()), c\<lparr>ctx_state := tc\<rparr>)"
    using tc(1) assms(2) usable_rights [OF assms(2)]
    by (simp add: contract_storage_write_def turef_from_usable [OF assms(2)] storage_write_def write_gs_def
        from_t_def b seq_def check_def validate_writeable_def is_writeable_def validate_key_def
        validate_value_def usable_def)
  then show ?thesis using tc(2) by blast
qed

lemma storage_add_step:
  assumes "at_view X ents m view c" "usable c u" "view (Key_URef (URef (addr u) None)) = Some (u512_stored w)"
  shows "\<exists>tc. contract_storage_add X u v c = Some (Ok (Inr ()), c\<lparr>ctx_state := tc\<rparr>)
    \<and> at_view X ents m (view(Key_URef (URef (addr u) None) \<mapsto> u512_stored (w + v))) (c\<lparr>ctx_state := tc\<rparr>)"
proof -
  obtain b where b: "u512_to_bytes v = Ok b" "u512_stored v = SV_CLValue (CLValue CL_U512 b)"
    using u512_stored_cl by blast
  let ?k = "Key_URef (URef (addr u) None)"
  have t: "add_transform (u512_stored v) = Ok (AddUInt512 v)"
    using u512c.deserialize_ser [OF _ b(1)] by (simp add: add_transform_def b(2) into_t_def)
  have "transform_apply (AddUInt512 v) (u512_stored w) = Ok (u512_stored (w + v))"
    using transform_apply_u512 [of "AddUInt512 v" _ w] by simp
  then have spec: "spec_add view ?k (u512_stored v) = (Add_Success, view(?k \<mapsto> u512_stored (w + v)))"
    using assms(3) t by (simp add: spec_add_def)
  obtain tc where tc: "on_state (tc_add X (Key_URef u) (u512_stored v)) c = Some (Ok Add_Success, c\<lparr>ctx_state := tc\<rparr>)"
      "at_view X ents m (view(?k \<mapsto> u512_stored (w + v))) (c\<lparr>ctx_state := tc\<rparr>)"
    using add_step [OF assms(1), of "Key_URef u" "u512_stored v"] spec by (auto simp: remove_access_rights_def)
  have "contract_storage_add X u v c = Some (Ok (Inr ()), c\<lparr>ctx_state := tc\<rparr>)"
    using tc(1) assms(2) usable_rights [OF assms(2)]
    by (simp add: contract_storage_add_def turef_from_usable [OF assms(2)] storage_add_def add_gs_def
        from_t_def b add_unsafe_def seq_def check_def validate_addable_def is_addable_def validate_key_def
        validate_value_def usable_def)
  then show ?thesis using tc(2) by blast
qed

lemma array32_to_bytes_eq: "array32_to_bytes a = Ok (array_bytes a)"
  by (simp add: array32_to_bytes_def)

lemma local_read_step:
  assumes "at_view X ents m view c" "view (local_key X c (array_bytes a)) = map_option key_stored k"
  shows "\<exists>tc. mp_read_local (mint_contract X) a c = Some (Ok (Inr k), c\<lparr>ctx_state := tc\<rparr>)
    \<and> at_view X ents m view (c\<lparr>ctx_state := tc\<rparr>)"
proof -
  obtain tc where tc: "on_state (tc_read X (local_key X c (array_bytes a))) c =
        Some (Ok (map_option key_stored k), c\<lparr>ctx_state := tc\<rparr>)"
      "at_view X ents m view (c\<lparr>ctx_state := tc\<rparr>)"
    using read_step [OF assms(1), of "local_key X c (array_bytes a)"] assms(2) by (auto simp: key_local_def)
  have "deserialize key_from_bytes (key_bytes k') = Ok k'" for k'
    using keyc.deserialize_ser [OF _ key_to_bytes_eq] by simp
  then have "mp_read_local (mint_contract X) a c = Some (Ok (Inr k), c\<lparr>ctx_state := tc\<rparr>)"
    using tc(1) by (cases k)
      (simp_all add: mint_contract_def map_inl_def storage_read_local_def array32_to_bytes_eq read_ls_def
        read_ls_with_seed_def seq_def key_stored_def read_value_def seq_ok_def as_value_def)
  then show ?thesis using tc(2) by blast
qed

lemma local_write_step:
  assumes "at_view X ents m view c"
  shows "\<exists>tc. mp_write_local (mint_contract X) a k c = Some (Ok (), c\<lparr>ctx_state := tc\<rparr>)
    \<and> at_view X ents m (view(local_key X c (array_bytes a) \<mapsto> key_stored k)) (c\<lparr>ctx_state := tc\<rparr>)"
proof -
  obtain tc where tc: "on_state (tc_write (local_key X c (array_bytes a)) (key_stored k)) c =
        Some (Ok (), c\<lparr>ctx_state := tc\<rparr>)"
      "at_view X ents m (view(local_key X c (array_bytes a) \<mapsto> key_stored k)) (c\<lparr>ctx_state := tc\<rparr>)"
    using write_step [OF assms, of "local_key X c (array_bytes a)"] by (auto simp: key_local_def)
  have "mp_write_local (mint_contract X) a k c = Some (Ok (), c\<lparr>ctx_state := tc\<rparr>)"
    using tc(1) by (simp add: mint_contract_def storage_write_local_def array32_to_bytes_eq from_t_def
        key_to_bytes_eq write_ls_def key_stored_def)
  then show ?thesis using tc(2) by blast
qed

text \<open>A new reference gives the rights to itself and takes none.\<close>

lemma validate_insert_uref_mono:
  assumes "access_rights u = Some r" "validate_uref c u = Ok ()"
  shows "validate_uref (insert_uref v c) u = Ok ()"
  using assms by (auto simp: validate_uref_Ok_iff covered_by_purse_def insert_uref_def split: option.splits)

lemma validate_insert_self: "access_rights u = Some r \<Longrightarrow> validate_uref (insert_uref u c) u = Ok ()"
  by (auto simp: validate_uref_Ok_iff insert_uref_def rights_inter_eq_iff)

definition after_new ::
    "('m, 'g, 'z) runtime_externals_scheme \<Rightarrow> ('m, 'g) runtime_context \<Rightarrow> ('m, 'g) runtime_context" where
  "after_new X c = (let (a, gen) = rng_fill_bytes X (ctx_address_generator c) in
     insert_uref (uref_new a READ_ADD_WRITE) (c\<lparr>ctx_address_generator := gen\<rparr>))"

lemma after_new_fields:
  "ctx_base_key (after_new X c) = ctx_base_key c" "ctx_account (after_new X c) = ctx_account c"
  "ctx_state (after_new X c) = ctx_state c"
  "ctx_address_generator (after_new X c) = snd (rng_fill_bytes X (ctx_address_generator c))"
  by (simp_all add: after_new_def insert_uref_def uref_new_def split_beta)

lemma usable_after_new:
  "usable c u \<Longrightarrow> usable (after_new X c) u"
  "usable (after_new X c) (uref_new (draw X (ctx_address_generator c) 0) READ_ADD_WRITE)"
proof -
  let ?c = "c\<lparr>ctx_address_generator := snd (rng_fill_bytes X (ctx_address_generator c))\<rparr>"
  let ?v = "uref_new (draw X (ctx_address_generator c) 0) READ_ADD_WRITE"
  have a: "after_new X c = insert_uref ?v ?c" by (simp add: after_new_def split_beta)
  show "usable (after_new X c) ?v"
    unfolding usable_def a using validate_insert_self [of ?v READ_ADD_WRITE ?c] by (simp add: uref_new_def)
  show "usable (after_new X c) u" if "usable c u"
    using that validate_insert_uref_mono [of u READ_ADD_WRITE ?c ?v] validate_uref_cong [of ?c c u]
    unfolding usable_def a by simp
qed

lemma new_turef_step:
  assumes "at_view X ents m view c" "ser v = Ok bs" "ty \<noteq> CL_Key" "ty \<noteq> CL_URef" "\<And>t1 t2. ty \<noteq> CL_Tuple2 t1 t2"
  shows "\<exists>tc. new_turef X ser ty v c =
      Some (Ok (uref_new (draw X (ctx_address_generator c) 0) READ_ADD_WRITE), (after_new X c)\<lparr>ctx_state := tc\<rparr>)
    \<and> at_view X ents m (view(Key_URef (URef (draw X (ctx_address_generator c) 0) None) \<mapsto> SV_CLValue (CLValue ty bs)))
        ((after_new X c)\<lparr>ctx_state := tc\<rparr>)"
proof -
  let ?u = "uref_new (draw X (ctx_address_generator c) 0) READ_ADD_WRITE"
  let ?v = "SV_CLValue (CLValue ty bs)"
  have at: "at_view X ents m view (after_new X c)" using assms(1) by (simp add: at_view_def after_new_fields)
  obtain tc where tc: "on_state (tc_write (Key_URef ?u) ?v) (after_new X c) = Some (Ok (), (after_new X c)\<lparr>ctx_state := tc\<rparr>)"
      "at_view X ents m (view(key_normalize (Key_URef ?u) \<mapsto> ?v)) ((after_new X c)\<lparr>ctx_state := tc\<rparr>)"
    using write_step [OF at, of "Key_URef ?u" ?v] by blast
  note us = usable_after_new(2) [of X c]
  have val: "validate_value (after_new X c) ?v = Ok ()"
    using assms(3-5) by (cases ty) (auto simp: validate_value_def)
  have "write_gs (Key_URef ?u) ?v (after_new X c) = Some (Ok (), (after_new X c)\<lparr>ctx_state := tc\<rparr>)"
    using tc(1) us usable_rights [OF us] val
    by (simp add: write_gs_def seq_def check_def validate_writeable_def is_writeable_def validate_key_def usable_def)
  then have "new_uref X ?v c = Some (Ok (Key_URef ?u), (after_new X c)\<lparr>ctx_state := tc\<rparr>)"
    by (simp add: new_uref_def after_new_def create_address_def split_beta Let_def seq_step(1))
  then have "new_turef X ser ty v c = Some (Ok ?u, (after_new X c)\<lparr>ctx_state := tc\<rparr>)"
    using turef_from_usable [OF us] by (simp add: new_turef_def from_t_def assms(2) seq_step(1))
  then show ?thesis using tc(2) by (auto simp: uref_new_def remove_access_rights_def)
qed

section \<open>The laws of the mint\<close>

lemma mint_view_base:
  assumes "mint_view X U c p b n view"
  shows "\<exists>con. view (key_normalize (ctx_base_key c)) = Some (SV_Contract con)"
    "key_normalize (ctx_base_key c) \<noteq> local_key X c bs"
    "a \<in> dom b \<union> draw X (ctx_address_generator c) ` {..<n} \<Longrightarrow>
       key_normalize (ctx_base_key c) \<noteq> Key_URef (URef a None)"
proof -
  have base: "base_stored view (dom b \<union> draw X (ctx_address_generator c) ` {..<n}) c"
    using assms by (simp add: mint_view_def)
  then show "\<exists>con. view (key_normalize (ctx_base_key c)) = Some (SV_Contract con)"
    by (simp add: base_stored_def)
  show "key_normalize (ctx_base_key c) \<noteq> local_key X c bs"
    using base by (cases "ctx_base_key c") (simp_all add: base_stored_def key_local_def)
  show "key_normalize (ctx_base_key c) \<noteq> Key_URef (URef a None)"
    if "a \<in> dom b \<union> draw X (ctx_address_generator c) ` {..<n}"
    using base that by (cases "ctx_base_key c") (auto simp: base_stored_def remove_access_rights_def)
qed

text \<open>A step to a context with the same references, generator and base key, and another view.\<close>

lemma mint_at_step:
  assumes "mint_view X U c p b n view" "mint_known X U c p b h n" "at_view X ents m view' c'"
    "ctx_base_key c' = ctx_base_key c" "ctx_address_generator c' = ctx_address_generator c"
    "\<forall>u \<in> h. usable c' u"
    "\<forall>a \<in> U. view' (local_key X c (array_bytes a)) = map_option key_stored (p a)"
    "\<forall>a v. b' a = Some v \<longrightarrow> view' (Key_URef (URef a None)) = Some (u512_stored v)" "dom b' = dom b"
    "\<exists>con. view' (key_normalize (ctx_base_key c)) = Some (SV_Contract con)"
  shows "mint_at X ents m U c' p b' h n"
proof -
  have seed: "ctx_seed c' = ctx_seed c" using assms(4) by (simp add: ctx_seed_def)
  have "base_stored view' (dom b' \<union> draw X (ctx_address_generator c') ` {..<n}) c'"
    using assms(1,10) by (simp add: assms(4,5,9) mint_view_def base_stored_def)
  then have "mint_view X U c' p b' n view'" using assms(7,8) by (simp add: mint_view_def seed)
  moreover have "mint_known X U c' p b' h n"
    using assms(2,6) by (simp add: mint_known_def assms(5,9) seed)
  ultimately show ?thesis using assms(3) unfolding mint_at_def by blast
qed

lemma usable_state: "usable (c\<lparr>ctx_state := tc\<rparr>) u = usable c u"
  using validate_uref_cong [of "c\<lparr>ctx_state := tc\<rparr>" c u] by (simp add: usable_def)

lemma mint_at_usable: "mint_at X ents m U c p b h n \<Longrightarrow> u \<in> h \<Longrightarrow> usable c u"
  by (simp add: mint_at_def mint_known_def)

text \<open>A step that changes the view at most at one balance.\<close>

lemma mint_at_state:
  assumes "mint_view X U c p b n view" "mint_known X U c p b h n" "at_view X ents m view (c\<lparr>ctx_state := tc\<rparr>)"
  shows "mint_at X ents m U (c\<lparr>ctx_state := tc\<rparr>) p b h n"
  by (rule mint_at_step [OF assms _ _ _ _ _ _ mint_view_base(1) [OF assms(1)]])
    (use assms(1,2) in \<open>simp_all add: usable_state mint_known_def mint_view_def\<close>)

lemma mint_at_balance:
  assumes "mint_view X U c p b n view" "mint_known X U c p b h n" "a \<in> dom b"
    "at_view X ents m (view(Key_URef (URef a None) \<mapsto> u512_stored v)) (c\<lparr>ctx_state := tc\<rparr>)"
  shows "mint_at X ents m U (c\<lparr>ctx_state := tc\<rparr>) p (b(a \<mapsto> v)) h n"
proof (rule mint_at_step [OF assms(1,2,4)])
  show "\<exists>con. (view(Key_URef (URef a None) \<mapsto> u512_stored v)) (key_normalize (ctx_base_key c)) = Some (SV_Contract con)"
    using mint_view_base(1) [OF assms(1)] mint_view_base(3) [OF assms(1), of a] assms(3) by simp
  show "\<forall>x \<in> U. (view(Key_URef (URef a None) \<mapsto> u512_stored v)) (local_key X c (array_bytes x)) =
      map_option key_stored (p x)"
    using assms(1) by (simp add: mint_view_def key_local_def)
qed (use assms in \<open>auto simp: usable_state mint_known_def mint_view_def\<close>)

lemma mint_local_read:
  assumes "mint_at X ents m U c p b h n" "a \<in> U"
  shows "\<exists>c'. mp_read_local (mint_contract X) a c = Some (Ok (Inr (p a)), c') \<and> mint_at X ents m U c' p b h n"
proof -
  obtain view where v: "at_view X ents m view c" "mint_view X U c p b n view" "mint_known X U c p b h n"
    using assms(1) unfolding mint_at_def by blast
  have "view (local_key X c (array_bytes a)) = map_option key_stored (p a)"
    using v(2) assms(2) by (simp add: mint_view_def)
  then show ?thesis using local_read_step [OF v(1)] mint_at_state [OF v(2,3)] by blast
qed

lemma mint_view_balance:
  "mint_view X U c p b n view \<Longrightarrow> b a = Some v \<Longrightarrow> view (Key_URef (URef a None)) = Some (u512_stored v)"
  by (simp add: mint_view_def)

lemma mint_balance_read:
  assumes "mint_at X ents m U c p b h n" "u \<in> h" "addr u \<in> dom b"
  shows "\<exists>c'. mp_read (mint_contract X) u c = Some (Ok (Inr (b (addr u))), c') \<and> mint_at X ents m U c' p b h n"
proof -
  obtain view where v: "at_view X ents m view c" "mint_view X U c p b n view" "mint_known X U c p b h n"
    using assms(1) unfolding mint_at_def by blast
  obtain w where w: "b (addr u) = Some w" using assms(3) by blast
  obtain tc where "contract_storage_read X u c = Some (Ok (Inr (Some w)), c\<lparr>ctx_state := tc\<rparr>)"
      "at_view X ents m view (c\<lparr>ctx_state := tc\<rparr>)"
    using storage_read_step [OF v(1) mint_at_usable [OF assms(1,2)] mint_view_balance [OF v(2) w]] by blast
  then show ?thesis using mint_at_state [OF v(2,3)] w by (simp add: mint_contract_def)
qed

lemma mint_balance_write:
  assumes "mint_at X ents m U c p b h n" "u \<in> h" "addr u \<in> dom b"
  shows "\<exists>c'. mp_write (mint_contract X) u v c = Some (Ok (Inr ()), c') \<and> mint_at X ents m U c' p (b(addr u \<mapsto> v)) h n"
proof -
  obtain view where w: "at_view X ents m view c" "mint_view X U c p b n view" "mint_known X U c p b h n"
    using assms(1) unfolding mint_at_def by blast
  show ?thesis
    using storage_write_step [OF w(1) mint_at_usable [OF assms(1,2)], of v] mint_at_balance [OF w(2,3) assms(3)]
    by (simp add: mint_contract_def) blast
qed

lemma mint_balance_add:
  assumes "mint_at X ents m U c p b h n" "u \<in> h" "addr u \<in> dom b"
  shows "\<exists>c'. mp_add (mint_contract X) u v c = Some (Ok (Inr ()), c') \<and>
    mint_at X ents m U c' p (b(addr u \<mapsto> the (b (addr u)) + v)) h n"
proof -
  obtain view where w: "at_view X ents m view c" "mint_view X U c p b n view" "mint_known X U c p b h n"
    using assms(1) unfolding mint_at_def by blast
  obtain x where x: "b (addr u) = Some x" using assms(3) by blast
  show ?thesis
    using storage_add_step [OF w(1) mint_at_usable [OF assms(1,2)] mint_view_balance [OF w(2) x], of v]
      mint_at_balance [OF w(2,3) assms(3)] x
    by (simp add: mint_contract_def) blast
qed

lemma mint_local_write:
  assumes "mint_at X ents m U c p b h n" "a \<in> U" "u \<in> h" "addr u \<in> dom b"
    "a \<notin> draw X (ctx_address_generator c) ` {..<n}"
  shows "\<exists>c'. mp_write_local (mint_contract X) a (Key_URef u) c = Some (Ok (), c') \<and>
    mint_at X ents m U c' (p(a \<mapsto> Key_URef u)) b h n"
proof -
  obtain view where v: "at_view X ents m view c" "mint_view X U c p b n view" "mint_known X U c p b h n"
    using assms(1) unfolding mint_at_def by blast
  let ?view = "view(local_key X c (array_bytes a) \<mapsto> key_stored (Key_URef u))"
  obtain tc where tc: "mp_write_local (mint_contract X) a (Key_URef u) c = Some (Ok (), c\<lparr>ctx_state := tc\<rparr>)"
      "at_view X ents m ?view (c\<lparr>ctx_state := tc\<rparr>)"
    using local_write_step [OF v(1)] by blast
  have inj: "inj_on (\<lambda>a. local_key X c (array_bytes a)) U" using v(3) by (simp add: mint_known_def)
  have "\<forall>x \<in> U. ?view (local_key X c (array_bytes x)) = map_option key_stored ((p(a \<mapsto> Key_URef u)) x)"
    using inj_on_eq_iff [OF inj _ assms(2)] v(2) by (simp add: mint_view_def)
  moreover have "\<forall>x y. b x = Some y \<longrightarrow> ?view (Key_URef (URef x None)) = Some (u512_stored y)"
    using v(2) by (simp add: mint_view_def key_local_def)
  moreover have "base_stored ?view (dom b \<union> draw X (ctx_address_generator c) ` {..<n}) c"
    using v(2) mint_view_base(2) [OF v(2)] by (simp add: mint_view_def base_stored_def)
  ultimately have "mint_view X U (c\<lparr>ctx_state := tc\<rparr>) (p(a \<mapsto> Key_URef u)) b n ?view"
    by (simp add: mint_view_def base_stored_def ctx_seed_def)
  moreover have "mint_known X U (c\<lparr>ctx_state := tc\<rparr>) (p(a \<mapsto> Key_URef u)) b h n"
    using v(3) assms(3-5) by (auto simp: mint_known_def usable_state ctx_seed_def)
  ultimately show ?thesis using tc unfolding mint_at_def by blast
qed

lemma mint_key_put:
  assumes "mint_at X ents m U c p b h n" "u \<in> h" "length (str_bytes name) \<le> 1000"
  shows "\<exists>c'. mp_put_key (mint_contract X) name (Key_URef u) c = Some (Ok (), c') \<and> mint_at X ents m U c' p b h n
    \<and> ctx_address_generator c' = ctx_address_generator c"
proof -
  obtain view where v: "at_view X ents m view c" "mint_view X U c p b n view" "mint_known X U c p b h n"
    using assms(1) unfolding mint_at_def by blast
  obtain con where con: "view (key_normalize (ctx_base_key c)) = Some (SV_Contract con)"
    using mint_view_base(1) [OF v(2)] by blast
  have u: "usable c u" using assms(1,2) by (rule mint_at_usable)
  then have valid: "validate_key c (Key_URef u) = Ok ()" by (simp add: validate_key_def usable_def)
  let ?view = "view(key_normalize (ctx_base_key c) \<mapsto>
    SV_Contract (contract_named_keys_append con (fmap_of_list [(name, Key_URef u)])))"
  obtain tc where tc: "put_key X name (Key_URef u) c = Some (Ok (), insert_key name (Key_URef u) (c\<lparr>ctx_state := tc\<rparr>))"
      "at_view X ents m ?view (c\<lparr>ctx_state := tc\<rparr>)"
    using put_key_step [OF v(1) assms(3) valid con] by blast
  let ?c = "insert_key name (Key_URef u) (c\<lparr>ctx_state := tc\<rparr>)"
  have fields: "ctx_state ?c = tc" "ctx_base_key ?c = ctx_base_key c"
      "ctx_address_generator ?c = ctx_address_generator c"
      "validate_uref ?c w = validate_uref (insert_uref u (c\<lparr>ctx_state := tc\<rparr>)) w" for w
    by (auto simp: insert_key_def insert_uref_def Let_def validate_uref_def covered_by_purse_def split: option.splits)
  have usable: "usable ?c w" if "w \<in> h" for w
    using validate_insert_uref_mono [of w READ_ADD_WRITE "c\<lparr>ctx_state := tc\<rparr>" u] mint_at_usable [OF assms(1) that]
      usable_state [of tc c w] by (simp add: usable_def fields)
  have "mint_at X ents m U ?c p b h n"
  proof (rule mint_at_step [OF v(2,3)])
    show "at_view X ents m ?view ?c" using tc(2) fields(1) by (simp add: at_view_def)
    show "\<forall>a \<in> U. ?view (local_key X c (array_bytes a)) = map_option key_stored (p a)"
      using v(2) mint_view_base(2) [OF v(2), THEN not_sym] by (simp add: mint_view_def)
    show "\<forall>a v. b a = Some v \<longrightarrow> ?view (Key_URef (URef a None)) = Some (u512_stored v)"
      using mint_view_balance [OF v(2)] mint_view_base(3) [OF v(2)] by fastforce
  qed (use usable fields in simp_all)
  then show ?thesis using tc(1) fields(3) by (simp add: mint_contract_def)
qed

lemma draw_Suc_image: "draw X g ` {..<Suc n} = insert (draw X g 0) (draw X (snd (rng_fill_bytes X g)) ` {..<n})"
  by (simp add: lessThan_Suc_eq_insert_0 image_image)

lemma draw_inj:
  assumes "inj_on (draw X g) {..<Suc n}"
  shows "inj_on (draw X (snd (rng_fill_bytes X g))) {..<n}" "draw X g 0 \<notin> draw X (snd (rng_fill_bytes X g)) ` {..<n}"
proof -
  have eq: "draw X (snd (rng_fill_bytes X g)) i = draw X g (Suc i)" for i by simp
  show "inj_on (draw X (snd (rng_fill_bytes X g))) {..<n}"
    unfolding inj_on_def eq using assms by (auto simp: inj_on_def simp del: draw.simps)
  show "draw X g 0 \<notin> draw X (snd (rng_fill_bytes X g)) ` {..<n}"
    unfolding image_iff eq using inj_onD [OF assms, of 0] by (auto simp del: draw.simps)
qed

text \<open>Drawing an address and writing a value under it.\<close>

lemma mint_at_new:
  assumes "mint_view X U c p b (Suc n) view" "mint_known X U c p b h (Suc n)"
    "at_view X ents m (view(Key_URef (URef (draw X (ctx_address_generator c) 0) None) \<mapsto> w)) ((after_new X c)\<lparr>ctx_state := tc\<rparr>)"
  shows "mint_at X ents m U ((after_new X c)\<lparr>ctx_state := tc\<rparr>) p b h n"
    "w = u512_stored v \<Longrightarrow>
     mint_at X ents m U ((after_new X c)\<lparr>ctx_state := tc\<rparr>) p (b(draw X (ctx_address_generator c) 0 \<mapsto> v))
       (insert (uref_new (draw X (ctx_address_generator c) 0) READ_ADD_WRITE) h) n"
proof -
  define a where "a = draw X (ctx_address_generator c) 0"
  define g where "g = snd (rng_fill_bytes X (ctx_address_generator c))"
  define c' where "c' = (after_new X c)\<lparr>ctx_state := tc\<rparr>"
  define view' where "view' = view(Key_URef (URef a None) \<mapsto> w)"
  have c': "ctx_base_key c' = ctx_base_key c" "ctx_address_generator c' = g" "ctx_seed c' = ctx_seed c"
    by (simp_all add: c'_def g_def after_new_fields ctx_seed_def)
  have img: "draw X (ctx_address_generator c) ` {..<Suc n} = insert a (draw X g ` {..<n})"
    by (simp add: draw_Suc_image a_def g_def)
  have inj: "inj_on (draw X g) {..<n}" "a \<notin> draw X g ` {..<n}"
    using draw_inj [of X "ctx_address_generator c" n] assms(2) by (simp_all add: mint_known_def a_def g_def)
  have new: "insert a (draw X g ` {..<n}) \<subseteq> U - (dom b \<union> dom p)"
    using assms(2) unfolding mint_known_def img by blast
  have us: "\<forall>u \<in> h. usable c' u" "usable c' (uref_new a READ_ADD_WRITE)"
    using assms(2) usable_after_new(1) [of c _ X] usable_after_new(2) [of X c]
    by (simp_all add: mint_known_def c'_def usable_state a_def)
  have loc: "\<forall>x \<in> U. view' (local_key X c' (array_bytes x)) = map_option key_stored (p x)"
    using assms(1) by (simp add: mint_view_def view'_def key_local_def c')
  have base: "base_stored view' (dom b \<union> insert a (draw X g ` {..<n})) c'"
    using assms(1) mint_view_base(3) [OF assms(1), of a] unfolding mint_view_def img
    by (simp add: base_stored_def view'_def c' a_def img)
  have bal: "\<forall>x y. b x = Some y \<longrightarrow> view' (Key_URef (URef x None)) = Some (u512_stored y)"
    using mint_view_balance [OF assms(1)] new by (auto simp: view'_def)
  have at: "at_view X ents m view' c'" using assms(3) by (simp add: view'_def c'_def a_def)
  have mono: "base_stored view' B c'" if "B \<subseteq> dom b \<union> insert a (draw X g ` {..<n})" for B
    using base that by (auto simp: base_stored_def split: key.splits)
  have known: "\<forall>x k. p x = Some k \<longrightarrow> (\<exists>u. k = Key_URef u \<and> u \<in> h \<and> addr u \<in> dom b)"
      "inj_on (\<lambda>x. local_key X c' (array_bytes x)) U"
    using assms(2) by (simp_all add: mint_known_def c')
  have "mint_view X U c' p b n view'"
    using loc bal mono [of "dom b \<union> draw X g ` {..<n}"] by (auto simp: mint_view_def c')
  moreover have "mint_known X U c' p b h n" using us known inj new by (auto simp: mint_known_def c')
  ultimately show "mint_at X ents m U ((after_new X c)\<lparr>ctx_state := tc\<rparr>) p b h n"
    using at unfolding mint_at_def c'_def [symmetric] by blast
  show "mint_at X ents m U ((after_new X c)\<lparr>ctx_state := tc\<rparr>) p (b(draw X (ctx_address_generator c) 0 \<mapsto> v))
       (insert (uref_new (draw X (ctx_address_generator c) 0) READ_ADD_WRITE) h) n" if w: "w = u512_stored v"
  proof -
    have "mint_view X U c' p (b(a \<mapsto> v)) n view'"
      unfolding mint_view_def c'
    proof (intro conjI)
      show "\<forall>x y. (b(a \<mapsto> v)) x = Some y \<longrightarrow> view' (Key_URef (URef x None)) = Some (u512_stored y)"
        using mint_view_balance [OF assms(1)] w by (simp add: view'_def)
      show "base_stored view' (dom (b(a \<mapsto> v)) \<union> draw X g ` {..<n}) c'" by (rule mono) auto
    qed (use loc c' in simp)
    moreover have "mint_known X U c' p (b(a \<mapsto> v)) (insert (uref_new a READ_ADD_WRITE) h) n"
      unfolding mint_known_def c'
    proof (intro conjI)
      show "\<forall>x k. p x = Some k \<longrightarrow>
          (\<exists>u. k = Key_URef u \<and> u \<in> insert (uref_new a READ_ADD_WRITE) h \<and> addr u \<in> dom (b(a \<mapsto> v)))"
        using known(1) by fastforce
    qed (use us known(2) c' inj new in auto)
    ultimately show ?thesis using at unfolding mint_at_def c'_def [symmetric] a_def [symmetric] by blast
  qed
qed

lemma mint_balance_new:
  assumes "mint_at X ents m U c p b h (Suc n)"
  shows "\<exists>u c'. mp_new_balance (mint_contract X) v c = Some (Ok u, c') \<and> addr u \<notin> dom b
    \<and> mint_at X ents m U c' p (b(addr u \<mapsto> v)) (insert u h) n"
proof -
  obtain view where w: "at_view X ents m view c" "mint_view X U c p b (Suc n) view" "mint_known X U c p b h (Suc n)"
    using assms(1) unfolding mint_at_def by blast
  obtain bs where bs: "u512_to_bytes v = Ok bs" "u512_stored v = SV_CLValue (CLValue CL_U512 bs)"
    using u512_stored_cl by blast
  let ?a = "draw X (ctx_address_generator c) 0"
  let ?u = "uref_new ?a READ_ADD_WRITE"
  obtain tc where tc: "new_turef X u512_to_bytes CL_U512 v c = Some (Ok ?u, (after_new X c)\<lparr>ctx_state := tc\<rparr>)"
      "at_view X ents m (view(Key_URef (URef ?a None) \<mapsto> u512_stored v)) ((after_new X c)\<lparr>ctx_state := tc\<rparr>)"
    using new_turef_step [OF w(1), of u512_to_bytes v bs CL_U512] bs by auto
  have "?a \<notin> dom b" using w(3) by (auto simp: mint_known_def draw_Suc_image)
  moreover have "addr ?u = ?a" by (simp add: uref_new_def)
  ultimately show ?thesis
    using tc(1) mint_at_new(2) [OF w(2,3) tc(2) refl] by (auto simp: mint_contract_def)
qed

lemma mint_unit_new:
  assumes "mint_at X ents m U c p b h (Suc n)"
  shows "\<exists>u c'. mp_new_unit (mint_contract X) c = Some (Ok u, c') \<and> addr u \<notin> dom p \<and> addr u \<in> U
    \<and> access_rights u = Some READ_ADD_WRITE \<and> mint_at X ents m U c' p b h n
    \<and> addr u \<notin> draw X (ctx_address_generator c') ` {..<n}"
proof -
  obtain view where w: "at_view X ents m view c" "mint_view X U c p b (Suc n) view" "mint_known X U c p b h (Suc n)"
    using assms(1) unfolding mint_at_def by blast
  let ?a = "draw X (ctx_address_generator c) 0"
  let ?u = "uref_new ?a READ_ADD_WRITE"
  obtain tc where tc: "new_turef X unit_to_bytes CL_Unit () c = Some (Ok ?u, (after_new X c)\<lparr>ctx_state := tc\<rparr>)"
      "at_view X ents m (view(Key_URef (URef ?a None) \<mapsto> SV_CLValue (CLValue CL_Unit []))) ((after_new X c)\<lparr>ctx_state := tc\<rparr>)"
    using new_turef_step [OF w(1), of unit_to_bytes "()" "[]" CL_Unit] by (auto simp: unit_to_bytes_def)
  have "?a \<notin> dom p" "?a \<in> U" using w(3) by (auto simp: mint_known_def draw_Suc_image)
  moreover have "?a \<notin> draw X (ctx_address_generator (after_new X c)) ` {..<n}"
    using draw_inj(2) [of X "ctx_address_generator c" n] w(3) by (simp add: mint_known_def after_new_fields)
  ultimately show ?thesis
    using tc(1) mint_at_new(1) [OF w(2,3) tc(2)]
    by (intro exI [of _ ?u] exI [of _ "(after_new X c)\<lparr>ctx_state := tc\<rparr>"])
      (simp add: mint_contract_def uref_new_def)
qed

lemma mint_purse_known:
  "mint_at X ents m U c p b h n \<Longrightarrow> p a = Some k \<Longrightarrow> \<exists>u. k = Key_URef u \<and> u \<in> h \<and> addr u \<in> dom b"
  by (simp add: mint_at_def mint_known_def)

lemma mint_caller: "mp_get_caller (mint_contract X) c = Some (Ok (get_caller c), c)"
  by (simp add: mint_contract_def)

lemma mint_key_put_undrawn:
  assumes "mint_at X ents m U c p b h n" "u \<in> h" "length (str_bytes name) \<le> 1000"
  shows "\<exists>c'. mp_put_key (mint_contract X) name (Key_URef u) c = Some (Ok (), c') \<and> mint_at X ents m U c' p b h n
    \<and> draw X (ctx_address_generator c') ` {..<n} = draw X (ctx_address_generator c) ` {..<n}"
  using mint_key_put [OF assms] by auto

interpretation cmint: mint_store "mint_contract X" get_caller "mint_at X ents m"
    "\<lambda>c n. draw X (ctx_address_generator c) ` {..<n}" for X ents m
  by unfold_locales
    (fact mint_purse_known mint_caller mint_local_read mint_balance_read mint_balance_write mint_balance_add
      mint_balance_new mint_unit_new mint_key_put_undrawn mint_local_write)+

end
