(* ===== verification/Stakes.thy ===== *)
theory Stakes
  imports System_Errors
begin

text \<open>
  \<^verbatim>\<open>proof-of-stake/src/stakes.rs\<close> and \<^verbatim>\<open>proof-of-stake/src/queue.rs\<close>: the stakes of the bonded validators and
  the queues of bonding and unbonding requests. Arithmetic on \<^verbatim>\<open>U512\<close> panics when it overflows, as the
  operators of the \<^verbatim>\<open>uint\<close> crate do.

  The lemmas account for the motes: what unbonding pays out is what the stakes lose, bonding adds what
  it is given, the last validator is never removed, and a request takes at most nine tenths of the total
  stakes. A queue has one entry per validator, in the order of the timestamps; taking the due entries
  splits it in two.
\<close>

section \<open>Stakes\<close>

definition MAX_SPREAD :: U512 where "MAX_SPREAD = - 1"
definition MAX_INCREASE :: U512 where "MAX_INCREASE = - 1"
definition MAX_DECREASE :: U512 where "MAX_DECREASE = - 1"
definition MAX_REL_INCREASE :: U512 where "MAX_REL_INCREASE = 1000000000"
definition MAX_REL_DECREASE :: U512 where "MAX_REL_DECREASE = 900000"

type_synonym stakes = "(public_key, U512) fmap"

definition others :: "stakes \<Rightarrow> public_key \<Rightarrow> U512 list" where
  "others s validator = map snd (filter (\<lambda>(v, _). v \<noteq> validator) (entries s))"

definition min_without :: "stakes \<Rightarrow> public_key \<Rightarrow> U512 option" where
  "min_without s validator = (case others s validator of [] \<Rightarrow> None | x # xs \<Rightarrow> Some (fold min xs x))"

definition max_without :: "stakes \<Rightarrow> public_key \<Rightarrow> U512 option" where
  "max_without s validator = (case others s validator of [] \<Rightarrow> None | x # xs \<Rightarrow> Some (fold max xs x))"

definition stakes_sum :: "stakes \<Rightarrow> U512" where
  "stakes_sum s = foldl saturating_add 0 (map snd (entries s))"

text \<open>The part of the total stakes, in millionths, that a single request may move.\<close>

definition relative_limit :: "U512 \<Rightarrow> U512 \<Rightarrow> stakes \<Rightarrow> (U512, pos_error) result" where
  "relative_limit bound millionths s =
     and_then (uint_mul (stakes_sum s) millionths) (\<lambda>p.
     and_then (uint_div p 1000000) (\<lambda>q. Ok (min bound q)))"

text \<open>The end of \<^verbatim>\<open>unbond\<close>: the whole stake is removed. The map is changed before the last checks.\<close>

definition unbond_all ::
    "U512 \<Rightarrow> U512 \<Rightarrow> public_key \<Rightarrow> U512 option \<Rightarrow> stakes \<Rightarrow> (U512, pos_error) result \<times> stakes" where
  "unbond_all least max_decrease validator maybe_amount s =
     (if fm_len s = 1 then (Err Pos_CannotUnbondLastValidator, s)
      else case fmlookup s validator of
        None \<Rightarrow> (Err Pos_NotBonded, s)
      | Some stake \<Rightarrow>
          let s' = fmdrop validator s in
          if (case maybe_amount of Some amount \<Rightarrow> stake < amount | None \<Rightarrow> False)
          then (Err Pos_UnbondTooLarge, s')
          else if saturating_add least max_decrease < stake \<and> max_decrease < stake
          then (Err Pos_UnbondTooLarge, s')
          else (Ok stake, s'))"

definition stakes_unbond ::
    "public_key \<Rightarrow> U512 option \<Rightarrow> stakes \<Rightarrow> (U512, pos_error) result \<times> stakes" where
  "stakes_unbond validator maybe_amount s =
     (let least = saturating_sub (case max_without s validator of Some m \<Rightarrow> m | None \<Rightarrow> 0) MAX_SPREAD
      in case relative_limit MAX_DECREASE MAX_REL_DECREASE s of
        Ok max_decrease \<Rightarrow>
          (case maybe_amount of
             None \<Rightarrow> unbond_all least max_decrease validator None s
           | Some amount \<Rightarrow>
               (case fmlookup s validator of
                  None \<Rightarrow> (Err Pos_NotBonded, s)
                | Some stake \<Rightarrow>
                    if amount < stake then
                      if stake - amount < least then (Err Pos_SpreadTooHigh, s)
                      else if max_decrease < amount then (Err Pos_UnbondTooLarge, s)
                      else (Ok amount, fmupd validator (stake - amount) s)
                    else unbond_all least max_decrease validator (Some amount) s))
      | Err e \<Rightarrow> (Err e, s)
      | Panic \<Rightarrow> (Panic, s))"

definition stakes_bond :: "public_key \<Rightarrow> U512 \<Rightarrow> stakes \<Rightarrow> (stakes, pos_error) result" where
  "stakes_bond validator amount s =
     (case fmlookup s validator of
        Some x \<Rightarrow> and_then (uint_add x amount) (\<lambda>y. Ok (fmupd validator y s))
      | None \<Rightarrow> Ok (fmupd validator amount s))"

definition validate_bonding :: "public_key \<Rightarrow> U512 \<Rightarrow> stakes \<Rightarrow> (unit, pos_error) result" where
  "validate_bonding validator amount s =
     (let most = saturating_add (case min_without s validator of Some m \<Rightarrow> m | None \<Rightarrow> - 1) MAX_SPREAD;
          least = saturating_sub (case max_without s validator of Some m \<Rightarrow> m | None \<Rightarrow> 0) MAX_SPREAD
      in and_then (case fmlookup s validator of Some x \<Rightarrow> uint_add x amount | None \<Rightarrow> Ok amount) (\<lambda>stake.
         if most < stake \<or> stake < least then Err Pos_SpreadTooHigh
         else and_then (relative_limit MAX_INCREASE MAX_REL_INCREASE s) (\<lambda>max_increase.
           if (stake = 0 \<and> saturating_add least max_increase < amount)
              \<or> (stake \<noteq> 0 \<and> max_increase < amount)
           then Err Pos_BondTooLarge
           else Ok ())))"

section \<open>Queues\<close>

record queue_entry =
  q_validator :: public_key
  q_amount :: U512
  q_timestamp :: block_time

type_synonym queue = "queue_entry list"

definition queue_entry_from_bytes :: "queue_entry de" where
  "queue_entry_from_bytes bs =
     and_then (public_key_from_bytes bs) (\<lambda>(validator, bs).
     and_then (u512_from_bytes bs) (\<lambda>(amount, bs).
     and_then (block_time_from_bytes bs) (\<lambda>(timestamp, bs).
       Ok (\<lparr>q_validator = validator, q_amount = amount, q_timestamp = timestamp\<rparr>, bs))))"

definition queue_entry_to_bytes :: "queue_entry ser" where
  "queue_entry_to_bytes e =
     and_then (public_key_to_bytes (q_validator e)) (\<lambda>b1.
     and_then (u512_to_bytes (q_amount e)) (\<lambda>b2.
     and_then (block_time_to_bytes (q_timestamp e)) (\<lambda>b3.
       Ok (b1 @ b2 @ b3))))"

definition queue_push :: "public_key \<Rightarrow> U512 \<Rightarrow> block_time \<Rightarrow> queue \<Rightarrow> (queue, pos_error) result" where
  "queue_push validator amount timestamp q =
     (if \<exists>entry \<in> set q. q_validator entry = validator then Err Pos_MultipleRequests
      else if q \<noteq> [] \<and> time timestamp < time (q_timestamp (last q)) then Err Pos_TimeWentBackwards
      else Ok (q @ [\<lparr>q_validator = validator, q_amount = amount, q_timestamp = timestamp\<rparr>]))"

definition pop_due :: "block_time \<Rightarrow> queue \<Rightarrow> queue_entry list \<times> queue" where
  "pop_due timestamp q = partition (\<lambda>entry. time (q_timestamp entry) \<le> time timestamp) q"

definition queue_from_bytes :: "queue de" where
  "queue_from_bytes bs = and_then (u64_from_bytes bs) (\<lambda>(len, bs). de_n queue_entry_from_bytes (unat len) bs)"

definition queue_to_bytes :: "queue ser" where
  "queue_to_bytes q =
     and_then (u64_to_bytes (word_of_nat (length q))) (\<lambda>bs.
     and_then (ser_concat queue_entry_to_bytes q) (\<lambda>cs. Ok (bs @ cs)))"

section \<open>Accounting\<close>

definition stake_of :: "stakes \<Rightarrow> public_key \<Rightarrow> nat" where
  "stake_of s v = (case fmlookup s v of Some x \<Rightarrow> unat x | None \<Rightarrow> 0)"

definition total_stakes :: "stakes \<Rightarrow> nat" where
  "total_stakes s = (\<Sum>v \<in> fset (fmdom s). stake_of s v)"

definition queue_total :: "queue \<Rightarrow> nat" where
  "queue_total q = sum_list (map (\<lambda>e. unat (q_amount e)) q)"

definition queue_ok :: "queue \<Rightarrow> bool" where
  "queue_ok q \<longleftrightarrow> distinct (map q_validator q) \<and> sorted (map (\<lambda>e. time (q_timestamp e)) q)"

lemma queue_total_simps [simp]:
  "queue_total [] = 0"
  "queue_total (e # q) = unat (q_amount e) + queue_total q"
  "queue_total (p @ q) = queue_total p + queue_total q"
  by (simp_all add: queue_total_def)

lemma total_stakes_split:
  "total_stakes s = stake_of s v + (\<Sum>w \<in> fset (fmdom s) - {v}. stake_of s w)"
proof (cases "v |\<in>| fmdom s")
  case True
  then show ?thesis by (simp add: total_stakes_def sum.remove)
next
  case False
  then show ?thesis by (simp add: total_stakes_def stake_of_def fmdom_notD)
qed

lemma total_stakes_fmupd: "total_stakes (fmupd v x s) + stake_of s v = total_stakes s + unat x"
proof -
  have "(\<Sum>w \<in> fset (fmdom (fmupd v x s)) - {v}. stake_of (fmupd v x s) w) =
        (\<Sum>w \<in> fset (fmdom s) - {v}. stake_of s w)"
    by (rule sum.cong) (auto simp: stake_of_def)
  then show ?thesis
    using total_stakes_split [of s v] total_stakes_split [of "fmupd v x s" v] by (simp add: stake_of_def)
qed

lemma total_stakes_fmdrop: "total_stakes (fmdrop v s) + stake_of s v = total_stakes s"
proof -
  have "(\<Sum>w \<in> fset (fmdom (fmdrop v s)) - {v}. stake_of (fmdrop v s) w) =
        (\<Sum>w \<in> fset (fmdom s) - {v}. stake_of s w)"
    by (rule sum.cong) (auto simp: stake_of_def)
  then show ?thesis
    using total_stakes_split [of s v] total_stakes_split [of "fmdrop v s" v] by (simp add: stake_of_def)
qed

lemma uint_add_Ok: "uint_add a b = Ok c \<longleftrightarrow> c = a + b \<and> unat c = unat a + unat b"
  for a b :: U512
  using unat_lt_pow [of "a + b"] unat_add_lem [of a b]
  by (auto simp: uint_add_def checked_add_def split: if_splits)

lemma stakes_bond_Ok:
  assumes "stakes_bond v a s = Ok s'"
  shows "total_stakes s' = total_stakes s + unat a" "s' \<noteq> fmempty"
    "fmlookup s' w = (if w = v then Some (case fmlookup s v of Some x \<Rightarrow> x + a | None \<Rightarrow> a) else fmlookup s w)"
proof -
  obtain y where y: "s' = fmupd v y s" "unat y = stake_of s v + unat a"
      "y = (case fmlookup s v of Some x \<Rightarrow> x + a | None \<Rightarrow> a)"
    using assms by (auto simp: stakes_bond_def result_simps uint_add_Ok stake_of_def split: option.splits)
  show "total_stakes s' = total_stakes s + unat a" using total_stakes_fmupd [of v y s] y by simp
  show "s' \<noteq> fmempty" using y(1) by (metis fmdom_empty fmdom_fmupd finsert_not_fempty)
  show "fmlookup s' w = (if w = v then Some (case fmlookup s v of Some x \<Rightarrow> x + a | None \<Rightarrow> a) else fmlookup s w)"
    using y by simp
qed

lemma saturating_sub_max [simp]: "saturating_sub a MAX_SPREAD = (0 :: U512)"
proof -
  have "a = - 1" if "- 1 \<le> a" using that word_order.extremum [of a] by (auto intro: antisym)
  then show ?thesis by (auto simp: saturating_sub_def MAX_SPREAD_def)
qed

lemma unat_foldl_saturating_add:
  "unat (foldl saturating_add a ws) = min (unat a + sum_list (map unat ws)) (2 ^ 512 - 1)" for a :: U512
proof (induction ws arbitrary: a)
  case Nil
  then show ?case using unat_lt_pow [of a] by (simp add: min_def)
next
  case (Cons w ws)
  then show ?case by (auto simp: unat_saturating_add min_def)
qed

lemma unat_stakes_sum: "unat (stakes_sum s) = min (total_stakes s) (2 ^ 512 - 1)"
proof -
  have "sum_list (map unat (map snd (entries s))) = sum_list (map (stake_of s) (map fst (entries s)))"
    by (rule arg_cong [where f = sum_list]) (auto simp: stake_of_def set_entries)
  also have "\<dots> = (\<Sum>v \<in> set (map fst (entries s)). stake_of s v)"
    by (rule sum_list_distinct_conv_sum_set) simp
  finally have "sum_list (map unat (map snd (entries s))) = total_stakes s"
    by (simp add: total_stakes_def map_fst_entries)
  then show ?thesis by (simp add: stakes_sum_def unat_foldl_saturating_add)
qed

lemma relative_limit_decrease:
  assumes "relative_limit MAX_DECREASE MAX_REL_DECREASE s = Ok q"
  shows "unat q = total_stakes s * 900000 div 1000000"
proof -
  have m: "unat (MAX_REL_DECREASE) = 900000" by (simp add: MAX_REL_DECREASE_def)
  have lt: "unat (stakes_sum s) * 900000 < 2 ^ 512" and q: "q = min MAX_DECREASE (stakes_sum s * 900000 div 1000000)"
    using assms m by (auto simp: relative_limit_def result_simps uint_mul_def uint_div_def checked_mul_def
        checked_div_def MAX_REL_DECREASE_def split: if_splits)
  have "q = stakes_sum s * 900000 div 1000000"
    using q word_order.extremum [of "stakes_sum s * 900000 div 1000000"]
    by (auto simp: MAX_DECREASE_def min_def intro: antisym)
  moreover have "unat (stakes_sum s * 900000) = unat (stakes_sum s) * 900000"
    using lt by (simp add: unat_word_ariths)
  moreover have "unat (stakes_sum s) = total_stakes s"
    using lt by (simp add: unat_stakes_sum min_def split: if_splits)
  ultimately show ?thesis by (simp add: unat_div)
qed

lemma unbond_all_Ok:
  assumes "unbond_all 0 d v maybe s = (Ok paid, s')"
  shows "s' = fmdrop v s" "fmlookup s v = Some paid" "s' \<noteq> fmempty" "paid \<le> d"
proof -
  have *: "fm_len s \<noteq> 1" "s' = fmdrop v s" "fmlookup s v = Some paid"
      "\<not> (saturating_add 0 d < paid \<and> d < paid)"
    using assms by (auto simp: unbond_all_def Let_def split: if_splits option.splits)
  then show "s' = fmdrop v s" "fmlookup s v = Some paid" by simp_all
  show "paid \<le> d" using *(4) unat_lt_pow [of d] by (auto simp: saturating_add_def)
  have v: "v |\<in>| fmdom s" using *(3) by (rule fmdomI)
  have "fmdom s \<noteq> {|v|}" using *(1) by (auto simp: fcard.rep_eq)
  then show "s' \<noteq> fmempty" using v *(2) by (metis fmdom_drop fmdom_empty finsert_fminus finsert_fminus_single)
qed

lemma stakes_unbond_Ok:
  assumes "stakes_unbond v maybe s = (Ok paid, s')"
  shows "total_stakes s = total_stakes s' + unat paid" "s' \<noteq> fmempty"
    "w \<noteq> v \<Longrightarrow> fmlookup s' w = fmlookup s w"
    "unat paid * 1000000 \<le> total_stakes s * 900000"
    "maybe = Some a \<Longrightarrow> paid = a"
    "maybe = None \<Longrightarrow> fmlookup s v = Some paid \<and> fmlookup s' v = None"
proof -
  obtain d where d: "relative_limit MAX_DECREASE MAX_REL_DECREASE s = Ok d"
    using assms by (auto simp: stakes_unbond_def Let_def split: result.splits)
  consider (part) stake where "fmlookup s v = Some stake" "maybe = Some paid" "paid < stake" "paid \<le> d"
      "s' = fmupd v (stake - paid) s"
    | (whole) "unbond_all 0 d v maybe s = (Ok paid, s')"
        "\<And>a. maybe = Some a \<Longrightarrow> \<exists>stake. fmlookup s v = Some stake \<and> stake \<le> a"
    using assms d by (auto simp: stakes_unbond_def not_less split: option.splits if_splits)
  then have *: "total_stakes s = total_stakes s' + unat paid \<and> s' \<noteq> fmempty \<and> paid \<le> d
      \<and> (w \<noteq> v \<longrightarrow> fmlookup s' w = fmlookup s w) \<and> (maybe = Some a \<longrightarrow> paid = a)
      \<and> (maybe = None \<longrightarrow> fmlookup s v = Some paid \<and> fmlookup s' v = None)"
  proof cases
    case part
    have "s' \<noteq> fmempty" using part(5) by (metis fmdom_empty fmdom_fmupd finsert_not_fempty)
    moreover have "unat (stake - paid) = unat stake - unat paid" "unat paid \<le> unat stake"
      using part(3) by (simp_all add: unat_sub word_le_nat_alt word_less_nat_alt)
    ultimately show ?thesis
      using part total_stakes_fmupd [of v "stake - paid" s] by (simp add: stake_of_def)
  next
    case whole
    note w = unbond_all_Ok [OF whole(1)]
    have "paid = a" if "maybe = Some a"
      using whole that w(2) by (auto simp: unbond_all_def Let_def split: if_splits)
    then show ?thesis using w total_stakes_fmdrop [of v s] by (simp add: stake_of_def)
  qed
  then show "total_stakes s = total_stakes s' + unat paid" "s' \<noteq> fmempty"
    "w \<noteq> v \<Longrightarrow> fmlookup s' w = fmlookup s w" "maybe = Some a \<Longrightarrow> paid = a"
    "maybe = None \<Longrightarrow> fmlookup s v = Some paid \<and> fmlookup s' v = None" by simp_all
  have "unat paid \<le> unat d" using * by (simp only: word_le_nat_alt)
  then have "unat paid \<le> total_stakes s * 900000 div 1000000" by (simp only: relative_limit_decrease [OF d])
  then show "unat paid * 1000000 \<le> total_stakes s * 900000" by linarith
qed

section \<open>The order of the queue\<close>

lemma queue_push_Ok:
  assumes "queue_push v a t q = Ok q'"
  shows "queue_total q' = queue_total q + unat a" "length q' = Suc (length q)" "queue_ok q \<Longrightarrow> queue_ok q'"
proof -
  let ?e = "\<lparr>q_validator = v, q_amount = a, q_timestamp = t\<rparr>"
  have q': "q' = q @ [?e]" "v \<notin> q_validator ` set q" "q \<noteq> [] \<Longrightarrow> time (q_timestamp (last q)) \<le> time t"
    using assms by (auto simp: queue_push_def split: if_splits)
  then show "queue_total q' = queue_total q + unat a" "length q' = Suc (length q)" by simp_all
  show "queue_ok q'" if "queue_ok q"
  proof -
    have "\<forall>e \<in> set q. time (q_timestamp e) \<le> time t"
    proof (cases q rule: rev_cases)
      case (snoc p l)
      then show ?thesis using q'(3) that by (force simp: queue_ok_def sorted_append)
    qed simp
    then show ?thesis using that q' by (auto simp: queue_ok_def sorted_append)
  qed
qed

lemma queue_total_partition:
  "queue_total q = queue_total (filter P q) + queue_total (filter (\<lambda>e. \<not> P e) q)"
  by (induction q) auto

lemma pop_due_total: "pop_due t q = (due, rest) \<Longrightarrow> queue_total q = queue_total due + queue_total rest"
  using queue_total_partition [of q "\<lambda>e. time (q_timestamp e) \<le> time t"]
  by (auto simp: pop_due_def partition_filter_conv comp_def)

lemma filter_sorted_split:
  "sorted (map f xs) \<Longrightarrow> filter (\<lambda>x. f x \<le> c) xs = takeWhile (\<lambda>x. f x \<le> c) xs
     \<and> filter (\<lambda>x. \<not> f x \<le> c) xs = dropWhile (\<lambda>x. f x \<le> c) xs" for f :: "'a \<Rightarrow> 'b::linorder"
proof (induction xs)
  case (Cons x xs)
  show ?case
  proof (cases "f x \<le> c")
    case False
    then have "\<forall>y \<in> set xs. \<not> f y \<le> c" using Cons.prems by auto
    then show ?thesis using False by (simp add: filter_empty_conv filter_id_conv)
  qed (use Cons in simp)
qed simp

lemma pop_due_split:
  assumes "queue_ok q" "pop_due t q = (due, rest)"
  shows "q = due @ rest" "queue_ok due" "queue_ok rest"
    "\<forall>e \<in> set due. time (q_timestamp e) \<le> time t" "\<forall>e \<in> set rest. time t < time (q_timestamp e)"
proof -
  have due: "due = filter (\<lambda>e. time (q_timestamp e) \<le> time t) q"
    and rest: "rest = filter (\<lambda>e. \<not> time (q_timestamp e) \<le> time t) q"
    using assms(2) by (auto simp: pop_due_def partition_filter_conv comp_def)
  then show q: "q = due @ rest"
    using filter_sorted_split [of "\<lambda>e. time (q_timestamp e)" q "time t"] assms(1) by (simp add: queue_ok_def)
  show "queue_ok due" "queue_ok rest" using assms(1) unfolding queue_ok_def by (subst (asm) (1 2) q; auto simp: sorted_append)+
  show "\<forall>e \<in> set due. time (q_timestamp e) \<le> time t" "\<forall>e \<in> set rest. time t < time (q_timestamp e)"
    using due rest by auto
qed

section \<open>Codecs\<close>

interpretation queue_entryc: codec queue_entry_to_bytes queue_entry_from_bytes "\<lambda>_. True"
  by unfold_locales
    (auto simp: queue_entry_to_bytes_def queue_entry_from_bytes_def result_simps public_key_to_bytes_def public_key_from_bytes_def array32c.roundtrip
      u512c.roundtrip block_timec.roundtrip)

interpretation queuec: codec queue_to_bytes queue_from_bytes "\<lambda>q. length q < 2 ^ 64"
  by unfold_locales
    (auto simp: queue_to_bytes_def queue_from_bytes_def result_simps u64c.roundtrip unat_of_nat
      queue_entryc.de_n_ser_concat)

end
