(* ===== verification/Proof_Of_Stake.thy ===== *)
theory Proof_Of_Stake
  imports Stakes Contract_Api
begin

text \<open>
  \<^verbatim>\<open>proof-of-stake/src/lib.rs\<close>: bonding, unbonding and the payment for deploys. The functions of the trait
  \<^verbatim>\<open>ProofOfStake\<close> and of the module \<^verbatim>\<open>internal\<close> are written over the methods of the four provider traits,
  the fields of \<open>pos_provider\<close>. A failed transfer is an \<open>Inl\<close>.

  The locale \<open>pos_store\<close> states what the queues and the stakes of the providers promise. Its lemmas
  account for the motes of the contract: requests to bond add their amount, requests to unbond move it,
  and a step takes out exactly what it hands to be paid.
\<close>

section \<open>The providers\<close>

record ('s, 'x) pos_provider =
  pp_transfer_to_account :: "purse_id \<Rightarrow> public_key \<Rightarrow> U512 \<Rightarrow> ('s, transfer_result, 'x) exec"
  pp_transfer_to_purse :: "purse_id \<Rightarrow> purse_id \<Rightarrow> U512 \<Rightarrow> ('s, unit + unit, 'x) exec"
  pp_get_balance :: "purse_id \<Rightarrow> ('s, U512 option, 'x) exec"
  pp_read_bonding :: "('s, queue, 'x) exec"
  pp_read_unbonding :: "('s, queue, 'x) exec"
  pp_write_bonding :: "queue \<Rightarrow> ('s, unit, 'x) exec"
  pp_write_unbonding :: "queue \<Rightarrow> ('s, unit, 'x) exec"
  pp_get_key :: "rstring \<Rightarrow> ('s, key option, 'x) exec"
  pp_put_key :: "rstring \<Rightarrow> key \<Rightarrow> ('s, unit, 'x) exec"
  pp_remove_key :: "rstring \<Rightarrow> ('s, unit, 'x) exec"
  pp_get_phase :: "('s, phase, 'x) exec"
  pp_get_block_time :: "('s, block_time, 'x) exec"
  pp_get_caller :: "('s, public_key, 'x) exec"
  pp_read_stakes :: "('s, pos_error + stakes, 'x) exec"
  pp_write_stakes :: "stakes \<Rightarrow> ('s, unit, 'x) exec"

type_synonym ('s, 'x, 'a) pos_exec = "('s, pos_error + 'a, 'x) exec"

section \<open>The internal functions\<close>

definition BONDING_PURSE_KEY :: rstring where "BONDING_PURSE_KEY = str_lit ''pos_bonding_purse''"
definition PAYMENT_PURSE_KEY :: rstring where "PAYMENT_PURSE_KEY = str_lit ''pos_payment_purse''"
definition REWARDS_PURSE_KEY :: rstring where "REWARDS_PURSE_KEY = str_lit ''pos_rewards_purse''"
definition REFUND_PURSE_KEY :: rstring where "REFUND_PURSE_KEY = str_lit ''pos_refund_purse''"
definition BOND_DELAY :: block_time where "BOND_DELAY = BlockTime 0"
definition UNBOND_DELAY :: block_time where "UNBOND_DELAY = BlockTime 0"
definition MAX_BOND_LEN :: nat where "MAX_BOND_LEN = 100"
definition MAX_UNBOND_LEN :: nat where "MAX_UNBOND_LEN = 1000"

text \<open>The loop that applies bonding requests to the stakes.\<close>

fun bond_entries :: "queue_entry list \<Rightarrow> stakes \<Rightarrow> (stakes, pos_error) result" where
  "bond_entries [] stakes = Ok stakes"
| "bond_entries (e # es) stakes =
     and_then (stakes_bond (q_validator e) (q_amount e) stakes) (bond_entries es)"

definition internal_bond ::
    "('s, 'x) pos_provider \<Rightarrow> U512 \<Rightarrow> public_key \<Rightarrow> block_time \<Rightarrow> ('s, 'x, unit) pos_exec" where
  "internal_bond P amount validator timestamp =
     seq (pp_read_bonding P) (\<lambda>queue.
     if MAX_BOND_LEN \<le> length queue then return (Inl Pos_TooManyEventsInQueue)
     else
       seq_ok (pp_read_stakes P) (\<lambda>stakes.
       seq_ok (as_value (bond_entries queue stakes)) (\<lambda>stakes'.
       seq_ok (as_value (validate_bonding validator amount stakes')) (\<lambda>_.
       seq_ok (as_value (queue_push validator amount timestamp queue)) (\<lambda>queue'.
       seq (pp_write_bonding P queue') (\<lambda>_.
         return (Inr ())))))))"

definition internal_unbond ::
    "('s, 'x) pos_provider \<Rightarrow> U512 option \<Rightarrow> public_key \<Rightarrow> block_time \<Rightarrow> ('s, 'x, unit) pos_exec" where
  "internal_unbond P maybe_amount validator timestamp =
     seq (pp_read_unbonding P) (\<lambda>queue.
     if MAX_UNBOND_LEN \<le> length queue then return (Inl Pos_TooManyEventsInQueue)
     else
       seq_ok (pp_read_stakes P) (\<lambda>stakes.
       let (result, stakes') = stakes_unbond validator maybe_amount stakes in
       seq_ok (as_value result) (\<lambda>payout.
       seq (pp_write_stakes P stakes') (\<lambda>_.
       seq_ok (as_value (queue_push validator payout timestamp queue)) (\<lambda>queue'.
       seq (pp_write_unbonding P queue') (\<lambda>_.
         return (Inr ())))))))"

definition internal_step :: "('s, 'x) pos_provider \<Rightarrow> block_time \<Rightarrow> ('s, 'x, queue_entry list) pos_exec" where
  "internal_step P timestamp =
     seq (pp_read_bonding P) (\<lambda>bonding_queue.
     seq (pp_read_unbonding P) (\<lambda>unbonding_queue.
     let (bonds, bonding_queue') = pop_due (block_time_saturating_sub timestamp BOND_DELAY) bonding_queue;
         (unbonds, unbonding_queue') = pop_due (block_time_saturating_sub timestamp UNBOND_DELAY) unbonding_queue
     in
       seq (if unbonds \<noteq> [] then pp_write_unbonding P unbonding_queue' else return ()) (\<lambda>_.
       seq_ok
         (if bonds \<noteq> [] then
            seq (pp_write_bonding P bonding_queue') (\<lambda>_.
            seq_ok (pp_read_stakes P) (\<lambda>stakes.
            seq_ok (as_value (bond_entries bonds stakes)) (\<lambda>stakes'.
            seq (pp_write_stakes P stakes') (\<lambda>_. return (Inr ())))))
          else return (Inr ())) (\<lambda>_.
       return (Inr unbonds)))))"

definition get_purse_id ::
    "('s, 'x) pos_provider \<Rightarrow> rstring \<Rightarrow> ('s, purse_lookup_error + purse_id, 'x) exec" where
  "get_purse_id P name =
     seq (pp_get_key P name) (\<lambda>key.
       as_value (and_then (ok_or key Lookup_KeyNotFound) (\<lambda>key.
         case key of Key_URef uref \<Rightarrow> Ok uref | _ \<Rightarrow> Err Lookup_KeyUnexpectedType)))"

definition internal_get_payment_purse :: "('s, 'x) pos_provider \<Rightarrow> ('s, 'x, purse_id) pos_exec" where
  "internal_get_payment_purse P = map_inl lookup_payment (get_purse_id P PAYMENT_PURSE_KEY)"

definition get_bonding_purse :: "('s, 'x) pos_provider \<Rightarrow> ('s, 'x, purse_id) pos_exec" where
  "get_bonding_purse P = map_inl lookup_bonding (get_purse_id P BONDING_PURSE_KEY)"

definition get_rewards_purse :: "('s, 'x) pos_provider \<Rightarrow> ('s, 'x, purse_id) pos_exec" where
  "get_rewards_purse P = map_inl lookup_rewards (get_purse_id P REWARDS_PURSE_KEY)"

definition set_refund :: "('s, 'x) pos_provider \<Rightarrow> uref \<Rightarrow> ('s, 'x, unit) pos_exec" where
  "set_refund P purse_id =
     seq (pp_get_phase P) (\<lambda>phase.
       case phase of
         Payment \<Rightarrow> seq (pp_put_key P REFUND_PURSE_KEY (Key_URef purse_id)) (\<lambda>_. return (Inr ()))
       | _ \<Rightarrow> return (Inl Pos_SetRefundPurseCalledOutsidePayment))"

definition internal_get_refund_purse :: "('s, 'x) pos_provider \<Rightarrow> ('s, 'x, purse_id option) pos_exec" where
  "internal_get_refund_purse P =
     seq (get_purse_id P REFUND_PURSE_KEY) (\<lambda>r.
       case r of
         Inr purse_id \<Rightarrow> return (Inr (Some purse_id))
       | Inl Lookup_KeyNotFound \<Rightarrow> return (Inr None)
       | Inl Lookup_KeyUnexpectedType \<Rightarrow> return (Inl Pos_RefundPurseKeyUnexpectedType))"

definition refund_to_account ::
    "('s, 'x) pos_provider \<Rightarrow> purse_id \<Rightarrow> public_key \<Rightarrow> U512 \<Rightarrow> ('s, 'x, unit) pos_exec" where
  "refund_to_account P payment_purse account amount =
     seq (pp_transfer_to_account P payment_purse account amount) (\<lambda>r.
       case r of Inr _ \<Rightarrow> return (Inr ()) | Inl _ \<Rightarrow> return (Inl Pos_FailedTransferToAccountPurse))"

definition internal_finalize_payment ::
    "('s, 'x) pos_provider \<Rightarrow> U512 \<Rightarrow> public_key \<Rightarrow> ('s, 'x, unit) pos_exec" where
  "internal_finalize_payment P amount_spent account =
     seq (pp_get_caller P) (\<lambda>caller.
     if caller \<noteq> array32_fill 0 then return (Inl Pos_SystemFunctionCalledByUserAccount)
     else
       seq_ok (internal_get_payment_purse P) (\<lambda>payment_purse.
       seq (pp_get_balance P payment_purse) (\<lambda>balance.
       seq_ok (as_value (ok_or balance Pos_PaymentPurseBalanceNotFound)) (\<lambda>total.
       if total < amount_spent then return (Inl Pos_InsufficientPaymentForAmountSpent)
       else
         seq_ok (as_value (uint_sub total amount_spent)) (\<lambda>refund_amount.
         seq_ok (get_rewards_purse P) (\<lambda>rewards_purse.
         seq_ok (internal_get_refund_purse P) (\<lambda>refund_purse.
         seq (pp_remove_key P REFUND_PURSE_KEY) (\<lambda>_.
         seq_ok (map_inl (\<lambda>_. Pos_FailedTransferToRewardsPurse)
             (pp_transfer_to_purse P payment_purse rewards_purse amount_spent)) (\<lambda>_.
         if refund_amount = 0 then return (Inr ())
         else
           case refund_purse of
             None \<Rightarrow> refund_to_account P payment_purse account refund_amount
           | Some refund_purse \<Rightarrow>
               seq (pp_transfer_to_purse P payment_purse refund_purse refund_amount) (\<lambda>r.
                 case r of
                   Inl _ \<Rightarrow> refund_to_account P payment_purse account refund_amount
                 | Inr _ \<Rightarrow> return (Inr ())))))))))))"

section \<open>The contract\<close>

text \<open>The loops that pay the entries that a step returns, with the error of a failed transfer.\<close>

fun pay_entries ::
    "('s, 'x) pos_provider \<Rightarrow> purse_id \<Rightarrow> pos_error \<Rightarrow> queue_entry list \<Rightarrow> ('s, 'x, unit) pos_exec" where
  "pay_entries P pos_purse err [] = return (Inr ())"
| "pay_entries P pos_purse err (e # es) =
     seq_ok (map_inl (\<lambda>_. err) (pp_transfer_to_account P pos_purse (q_validator e) (q_amount e))) (\<lambda>_.
       pay_entries P pos_purse err es)"

definition pos_bond ::
    "('s, 'x) pos_provider \<Rightarrow> public_key \<Rightarrow> U512 \<Rightarrow> uref \<Rightarrow> ('s, 'x, unit) pos_exec" where
  "pos_bond P validator amount source_uref =
     (if amount = 0 then return (Inl Pos_BondTooSmall)
      else
        seq_ok (get_bonding_purse P) (\<lambda>pos_purse.
        seq (pp_get_block_time P) (\<lambda>timestamp.
        seq_ok (map_inl (\<lambda>_. Pos_BondTransferFailed) (pp_transfer_to_purse P source_uref pos_purse amount)) (\<lambda>_.
        seq_ok (internal_bond P amount validator timestamp) (\<lambda>_.
        seq_ok (internal_step P timestamp) (\<lambda>unbonds.
          pay_entries P pos_purse Pos_BondTransferFailed unbonds))))))"

definition pos_unbond ::
    "('s, 'x) pos_provider \<Rightarrow> public_key \<Rightarrow> U512 option \<Rightarrow> ('s, 'x, unit) pos_exec" where
  "pos_unbond P validator maybe_amount =
     seq_ok (get_bonding_purse P) (\<lambda>pos_purse.
     seq (pp_get_block_time P) (\<lambda>timestamp.
     seq_ok (internal_unbond P maybe_amount validator timestamp) (\<lambda>_.
     seq_ok (internal_step P timestamp) (\<lambda>unbonds.
       pay_entries P pos_purse Pos_UnbondTransferFailed unbonds))))"

text \<open>A step ignores failed transfers.\<close>

definition pos_step :: "('s, 'x) pos_provider \<Rightarrow> ('s, 'x, unit) pos_exec" where
  "pos_step P =
     seq_ok (get_bonding_purse P) (\<lambda>pos_purse.
     seq (pp_get_block_time P) (\<lambda>timestamp.
     seq_ok (internal_step P timestamp) (\<lambda>unbonds.
     seq (for_each (\<lambda>e. seq (pp_transfer_to_account P pos_purse (q_validator e) (q_amount e)) (\<lambda>_. return ())) unbonds) (\<lambda>_.
       return (Inr ())))))"

definition get_payment_purse :: "('s, 'x) pos_provider \<Rightarrow> ('s, 'x, purse_id) pos_exec" where
  "get_payment_purse P =
     seq_ok (internal_get_payment_purse P) (\<lambda>purse. return (Inr (uref_new (addr purse) READ_ADD)))"

definition set_refund_purse :: "('s, 'x) pos_provider \<Rightarrow> purse_id \<Rightarrow> ('s, 'x, unit) pos_exec" where
  "set_refund_purse P purse_id = set_refund P purse_id"

definition get_refund_purse :: "('s, 'x) pos_provider \<Rightarrow> ('s, 'x, purse_id option) pos_exec" where
  "get_refund_purse P =
     seq_ok (internal_get_refund_purse P) (\<lambda>maybe_purse. return (Inr (map_option remove_access_rights maybe_purse)))"

definition finalize_payment ::
    "('s, 'x) pos_provider \<Rightarrow> U512 \<Rightarrow> public_key \<Rightarrow> ('s, 'x, unit) pos_exec" where
  "finalize_payment P amount_spent account = internal_finalize_payment P amount_spent account"

section \<open>The motes of the contract\<close>

lemma seq_ok_and_then:
  "seq_ok (as_value (and_then r f)) g = seq_ok (as_value r) (\<lambda>x. seq_ok (as_value (f x)) g)"
  by (rule ext) (cases r; simp)

definition pos_total :: "queue \<Rightarrow> queue \<Rightarrow> stakes \<Rightarrow> nat" where
  "pos_total b u st = queue_total b + queue_total u + total_stakes st"

definition pos_ok :: "queue \<Rightarrow> queue \<Rightarrow> stakes \<Rightarrow> bool" where
  "pos_ok b u st \<longleftrightarrow>
     queue_ok b \<and> queue_ok u \<and> length b \<le> MAX_BOND_LEN \<and> length u \<le> MAX_UNBOND_LEN \<and> st \<noteq> fmempty"

lemma bond_entries_Ok:
  "bond_entries es st = Ok st' \<Longrightarrow>
   total_stakes st' = total_stakes st + queue_total es \<and> (st \<noteq> fmempty \<longrightarrow> st' \<noteq> fmempty)"
proof (induction es arbitrary: st)
  case (Cons e es)
  then obtain st1 where st1: "stakes_bond (q_validator e) (q_amount e) st = Ok st1" "bond_entries es st1 = Ok st'"
    by (auto simp: result_simps)
  then show ?case using Cons.IH [OF st1(2)] stakes_bond_Ok(1,2) [OF st1(1)] by simp
qed simp

lemma bond_entries_no_Err: "bond_entries es st \<noteq> Err e"
proof (induction es arbitrary: st)
  case (Cons x es)
  have "stakes_bond v a st \<noteq> Err e" for v a
    by (auto simp: stakes_bond_def uint_add_def checked_add_def split: option.splits)
  then show ?case using Cons by (auto simp: result_simps)
qed simp

text \<open>Requests one after the other, with the motes bonded and the motes handed out to be paid.\<close>

inductive pos_runs :: "('s, 'x) pos_provider \<Rightarrow> 's \<Rightarrow> nat \<Rightarrow> nat \<Rightarrow> 's \<Rightarrow> bool" for P where
  start: "pos_runs P s 0 0 s"
| bond: "pos_runs P s i n s' \<Longrightarrow> internal_bond P a v t s' = Some (Ok (Inr ()), s'') \<Longrightarrow>
    pos_runs P s (i + unat a) n s''"
| unbond: "pos_runs P s i n s' \<Longrightarrow> internal_unbond P maybe v t s' = Some (Ok (Inr ()), s'') \<Longrightarrow>
    pos_runs P s i n s''"
| step: "pos_runs P s i n s' \<Longrightarrow> internal_step P t s' = Some (Ok (Inr paid), s'') \<Longrightarrow>
    pos_runs P s i (n + queue_total paid) s''"

locale pos_store =
  fixes P :: "('s, 'x) pos_provider"
    and rep :: "'s \<Rightarrow> queue \<Rightarrow> queue \<Rightarrow> stakes \<Rightarrow> bool"
  assumes bonding_read: "rep s b u st \<Longrightarrow> \<exists>s'. pp_read_bonding P s = Some (Ok b, s') \<and> rep s' b u st"
    and unbonding_read: "rep s b u st \<Longrightarrow> \<exists>s'. pp_read_unbonding P s = Some (Ok u, s') \<and> rep s' b u st"
    and bonding_write: "rep s b u st \<Longrightarrow> length q \<le> MAX_BOND_LEN \<Longrightarrow>
      \<exists>s'. pp_write_bonding P q s = Some (Ok (), s') \<and> rep s' q u st"
    and unbonding_write: "rep s b u st \<Longrightarrow> length q \<le> MAX_UNBOND_LEN \<Longrightarrow>
      \<exists>s'. pp_write_unbonding P q s = Some (Ok (), s') \<and> rep s' b q st"
    and stakes_read: "rep s b u st \<Longrightarrow>
      \<exists>s'. pp_read_stakes P s = Some (Ok (if st = fmempty then Inl Pos_StakesNotFound else Inr st), s') \<and> rep s' b u st"
    and stakes_write: "rep s b u st \<Longrightarrow> \<exists>s'. pp_write_stakes P t s = Some (Ok (), s') \<and> rep s' b u t"
begin

lemma bond_step:
  assumes "rep s b u st" "pos_ok b u st"
  shows "\<exists>r s' b'. internal_bond P a v t s = Some (r, s') \<and> rep s' b' u st \<and>
    (case r of
       Ok (Inr _) \<Rightarrow> pos_ok b' u st \<and> pos_total b' u st = pos_total b u st + unat a
     | Ok (Inl e) \<Rightarrow> b' = b
     | Err x \<Rightarrow> False
     | Panic \<Rightarrow> b' = b)"
proof -
  obtain s1 where s1: "pp_read_bonding P s = Some (Ok b, s1)" "rep s1 b u st"
    using bonding_read [OF assms(1)] by blast
  obtain s2 where s2: "pp_read_stakes P s1 = Some (Ok (Inr st), s2)" "rep s2 b u st"
    using stakes_read [OF s1(2)] assms(2) by (auto simp: pos_ok_def)
  let ?check = "and_then (bond_entries b st) (\<lambda>st'. and_then (validate_bonding v a st') (\<lambda>_. queue_push v a t b))"
  show ?thesis
  proof (cases "MAX_BOND_LEN \<le> length b")
    case True
    then have "internal_bond P a v t s = Some (Ok (Inl Pos_TooManyEventsInQueue), s1)"
      using s1(1) by (simp add: internal_bond_def seq_step(1))
    then show ?thesis using s1(2) by (intro exI [of _ "Ok (Inl Pos_TooManyEventsInQueue)"] exI [of _ s1] exI [of _ b]) simp
  next
    case False
    have run: "internal_bond P a v t s =
        seq_ok (as_value ?check) (\<lambda>q'. seq (pp_write_bonding P q') (\<lambda>_. return (Inr ()))) s2"
      using False s1(1) s2(1) by (simp add: internal_bond_def seq_step(1) seq_ok_step(1) seq_ok_and_then)
    show ?thesis
    proof (cases ?check)
      case (Ok q')
      then have push: "queue_push v a t b = Ok q'" by (auto simp: result_simps)
      have "length q' \<le> MAX_BOND_LEN" using queue_push_Ok(2) [OF push] False by simp
      then obtain s3 where s3: "pp_write_bonding P q' s2 = Some (Ok (), s3)" "rep s3 q' u st"
        using bonding_write [OF s2(2)] by blast
      have "internal_bond P a v t s = Some (Ok (Inr ()), s3)"
        using s3(1) by (simp add: run Ok seq_step(1))
      moreover have "pos_ok q' u st" "pos_total q' u st = pos_total b u st + unat a"
        using queue_push_Ok [OF push] assms(2) False by (auto simp: pos_ok_def pos_total_def)
      ultimately show ?thesis using s3(2) by (intro exI [of _ "Ok (Inr ())"] exI [of _ s3] exI [of _ q']) simp
    next
      case (Err e)
      then have "internal_bond P a v t s = Some (Ok (Inl e), s2)" by (simp add: run)
      then show ?thesis using s2(2) by (intro exI [of _ "Ok (Inl e)"] exI [of _ s2] exI [of _ b]) simp
    next
      case Panic
      then have "internal_bond P a v t s = Some (Panic, s2)" by (simp add: run)
      then show ?thesis using s2(2) by (intro exI [of _ "Panic"] exI [of _ s2] exI [of _ b]) simp
    qed
  qed
qed

lemma bond_accepted:
  assumes "rep s b u st" "st \<noteq> fmempty" "length b < MAX_BOND_LEN" "bond_entries b st = Ok st'"
    "validate_bonding v a st' = Ok ()" "queue_push v a t b = Ok q"
  shows "\<exists>s'. internal_bond P a v t s = Some (Ok (Inr ()), s') \<and> rep s' q u st"
proof -
  obtain s1 where s1: "pp_read_bonding P s = Some (Ok b, s1)" "rep s1 b u st"
    using bonding_read [OF assms(1)] by blast
  obtain s2 where s2: "pp_read_stakes P s1 = Some (Ok (Inr st), s2)" "rep s2 b u st"
    using stakes_read [OF s1(2)] assms(2) by auto
  have "length q \<le> MAX_BOND_LEN" using queue_push_Ok(2) [OF assms(6)] assms(3) by simp
  then obtain s3 where s3: "pp_write_bonding P q s2 = Some (Ok (), s3)" "rep s3 q u st"
    using bonding_write [OF s2(2)] by blast
  have "internal_bond P a v t s = Some (Ok (Inr ()), s3)"
    using assms(3-6) s1(1) s2(1) s3(1) by (simp add: internal_bond_def seq_step(1) seq_ok_step(1))
  then show ?thesis using s3(2) by blast
qed

lemma unbond_step:
  assumes "rep s b u st" "pos_ok b u st"
  shows "\<exists>r s' u' st'. internal_unbond P maybe v t s = Some (r, s') \<and> rep s' b u' st' \<and>
    (case r of
       Ok (Inr _) \<Rightarrow> pos_ok b u' st' \<and> pos_total b u' st' = pos_total b u st
     | Ok (Inl e) \<Rightarrow> u' = u
     | Err x \<Rightarrow> False
     | Panic \<Rightarrow> u' = u)"
proof -
  obtain s1 where s1: "pp_read_unbonding P s = Some (Ok u, s1)" "rep s1 b u st"
    using unbonding_read [OF assms(1)] by blast
  obtain s2 where s2: "pp_read_stakes P s1 = Some (Ok (Inr st), s2)" "rep s2 b u st"
    using stakes_read [OF s1(2)] assms(2) by (auto simp: pos_ok_def)
  show ?thesis
  proof (cases "MAX_UNBOND_LEN \<le> length u")
    case True
    then have "internal_unbond P maybe v t s = Some (Ok (Inl Pos_TooManyEventsInQueue), s1)"
      using s1(1) by (simp add: internal_unbond_def seq_step(1))
    then show ?thesis using s1(2) by (intro exI [of _ "Ok (Inl Pos_TooManyEventsInQueue)"] exI [of _ s1] exI [of _ u] exI [of _ st]) simp
  next
    case False
    obtain r st' where r: "stakes_unbond v maybe st = (r, st')" by fastforce
    have run: "internal_unbond P maybe v t s =
        seq_ok (as_value r) (\<lambda>payout.
        seq (pp_write_stakes P st') (\<lambda>_.
        seq_ok (as_value (queue_push v payout t u)) (\<lambda>queue'.
        seq (pp_write_unbonding P queue') (\<lambda>_. return (Inr ()))))) s2"
      using False s1(1) s2(1) by (simp add: internal_unbond_def seq_step(1) seq_ok_step(1) r)
    show ?thesis
    proof (cases r)
      case (Ok paid)
      note unbonded = stakes_unbond_Ok(1,2) [OF r [unfolded Ok]]
      obtain s3 where s3: "pp_write_stakes P st' s2 = Some (Ok (), s3)" "rep s3 b u st'"
        using stakes_write [OF s2(2)] by blast
      show ?thesis
      proof (cases "queue_push v paid t u")
        case push: (Ok q')
        have "length q' \<le> MAX_UNBOND_LEN" using queue_push_Ok(2) [OF push] False by simp
        then obtain s4 where s4: "pp_write_unbonding P q' s3 = Some (Ok (), s4)" "rep s4 b q' st'"
          using unbonding_write [OF s3(2)] by blast
        have "internal_unbond P maybe v t s = Some (Ok (Inr ()), s4)"
          using s3(1) s4(1) by (simp add: run Ok seq_step(1) push)
        moreover have "pos_ok b q' st'" "pos_total b q' st' = pos_total b u st"
          using queue_push_Ok [OF push] unbonded assms(2) False by (auto simp: pos_ok_def pos_total_def)
        ultimately show ?thesis using s4(2) by (intro exI [of _ "Ok (Inr ())"] exI [of _ s4] exI [of _ q'] exI [of _ st']) simp
      next
        case (Err e)
        then have "internal_unbond P maybe v t s = Some (Ok (Inl e), s3)"
          using s3(1) by (simp add: run Ok seq_step(1))
        then show ?thesis using s3(2) by (intro exI [of _ "Ok (Inl e)"] exI [of _ s3] exI [of _ u] exI [of _ st']) simp
      next
        case Panic
        then have "internal_unbond P maybe v t s = Some (Panic, s3)"
          using s3(1) by (simp add: run Ok seq_step(1))
        then show ?thesis using s3(2) by (intro exI [of _ "Panic"] exI [of _ s3] exI [of _ u] exI [of _ st']) simp
      qed
    next
      case (Err e)
      then have "internal_unbond P maybe v t s = Some (Ok (Inl e), s2)" by (simp add: run)
      then show ?thesis using s2(2) by (intro exI [of _ "Ok (Inl e)"] exI [of _ s2] exI [of _ u] exI [of _ st]) simp
    next
      case Panic
      then have "internal_unbond P maybe v t s = Some (Panic, s2)" by (simp add: run)
      then show ?thesis using s2(2) by (intro exI [of _ "Panic"] exI [of _ s2] exI [of _ u] exI [of _ st]) simp
    qed
  qed
qed

lemma internal_step_correct:
  assumes "rep s b u st" "pos_ok b u st"
  shows "\<exists>r s' b' u' st'. internal_step P t s = Some (r, s') \<and> rep s' b' u' st' \<and>
    (case r of
       Ok (Inr paid) \<Rightarrow> pos_ok b' u' st' \<and> pos_total b' u' st' + queue_total paid = pos_total b u st
         \<and> u = paid @ u' \<and> (\<forall>e \<in> set paid. time (q_timestamp e) \<le> time t)
         \<and> (\<forall>e \<in> set u' \<union> set b'. time t < time (q_timestamp e))
     | Ok (Inl e) \<Rightarrow> False
     | Err x \<Rightarrow> False
     | Panic \<Rightarrow> True)"
proof -
  obtain s1 where s1: "pp_read_bonding P s = Some (Ok b, s1)" "rep s1 b u st"
    using bonding_read [OF assms(1)] by blast
  obtain s2 where s2: "pp_read_unbonding P s1 = Some (Ok u, s2)" "rep s2 b u st"
    using unbonding_read [OF s1(2)] by blast
  have delay: "block_time_saturating_sub t BOND_DELAY = t" "block_time_saturating_sub t UNBOND_DELAY = t"
    by (simp_all add: block_time_saturating_sub_def BOND_DELAY_def UNBOND_DELAY_def saturating_sub_def)
  obtain bonds b' where bonds: "pop_due t b = (bonds, b')" by fastforce
  obtain paid u' where paid: "pop_due t u = (paid, u')" by fastforce
  have ok: "queue_ok b" "queue_ok u" "length b \<le> MAX_BOND_LEN" "length u \<le> MAX_UNBOND_LEN" "st \<noteq> fmempty"
    using assms(2) by (simp_all add: pos_ok_def)
  note db = pop_due_split [OF ok(1) bonds] and du = pop_due_split [OF ok(2) paid]
  obtain s3 where s3: "(if paid \<noteq> [] then pp_write_unbonding P u' else return ()) s2 = Some (Ok (), s3)" "rep s3 b u' st"
  proof (cases "paid = []")
    case True
    then show ?thesis using that s2(2) du(1) by simp
  next
    case False
    have "length u' \<le> MAX_UNBOND_LEN" using ok(4) du(1) by simp
    then show ?thesis using False that unbonding_write [OF s2(2), of u'] by auto
  qed
  have run: "internal_step P t s =
      seq_ok
        (if bonds \<noteq> [] then
           seq (pp_write_bonding P b') (\<lambda>_.
           seq_ok (pp_read_stakes P) (\<lambda>stakes.
           seq_ok (as_value (bond_entries bonds stakes)) (\<lambda>stakes'.
           seq (pp_write_stakes P stakes') (\<lambda>_. return (Inr ())))))
         else return (Inr ())) (\<lambda>_. return (Inr paid)) s3"
    using s1(1) s2(1) s3(1) by (simp add: internal_step_def delay bonds paid seq_step(1))
  show ?thesis
  proof (cases "bonds = []")
    case True
    have "internal_step P t s = Some (Ok (Inr paid), s3)" using True by (simp add: run)
    moreover have "pos_ok b u' st" "pos_total b u' st + queue_total paid = pos_total b u st"
      using ok du db True by (auto simp: pos_ok_def pos_total_def)
    ultimately show ?thesis using s3(2) du(1,4,5) db(1,5) True
      by (intro exI [of _ "Ok (Inr paid)"] exI [of _ s3] exI [of _ b] exI [of _ u'] exI [of _ st]) auto
  next
    case False
    have "length b' \<le> MAX_BOND_LEN" using ok(3) db(1) by simp
    then obtain s4 where s4: "pp_write_bonding P b' s3 = Some (Ok (), s4)" "rep s4 b' u' st"
      using bonding_write [OF s3(2)] by blast
    obtain s5 where s5: "pp_read_stakes P s4 = Some (Ok (Inr st), s5)" "rep s5 b' u' st"
      using stakes_read [OF s4(2)] ok(5) by auto
    show ?thesis
    proof (cases "bond_entries bonds st")
      case (Ok st')
      obtain s6 where s6: "pp_write_stakes P st' s5 = Some (Ok (), s6)" "rep s6 b' u' st'"
        using stakes_write [OF s5(2)] by blast
      have "internal_step P t s = Some (Ok (Inr paid), s6)"
        using False s4(1) s5(1) s6(1) by (simp add: run seq_ok_def seq_step(1) as_value_def Ok)
      moreover have "pos_ok b' u' st'" "pos_total b' u' st' + queue_total paid = pos_total b u st"
        using ok db du bond_entries_Ok [OF Ok] by (auto simp: pos_ok_def pos_total_def)
      ultimately show ?thesis using s6(2) du(1,4,5) db(5)
        by (intro exI [of _ "Ok (Inr paid)"] exI [of _ s6] exI [of _ b'] exI [of _ u'] exI [of _ st']) auto
    next
      case (Err e)
      then show ?thesis using bond_entries_no_Err by blast
    next
      case Panic
      then have "internal_step P t s = Some (Panic, s5)"
        using False s4(1) s5(1) by (simp add: run seq_ok_def seq_step as_value_def)
      then show ?thesis
        using s5(2) by (intro exI [of _ Panic] exI [of _ s5] exI [of _ b'] exI [of _ u'] exI [of _ st]) simp
    qed
  qed
qed

text \<open>The effect of requests that are accepted.\<close>

lemma bond_ok:
  assumes "rep s b u st" "pos_ok b u st" "internal_bond P a v t s = Some (Ok (Inr ()), s')"
  shows "\<exists>b'. rep s' b' u st \<and> pos_ok b' u st \<and> pos_total b' u st = pos_total b u st + unat a"
  using bond_step [OF assms(1,2), of a v t] unfolding assms(3) by force

lemma unbond_ok:
  assumes "rep s b u st" "pos_ok b u st" "internal_unbond P maybe v t s = Some (Ok (Inr ()), s')"
  shows "\<exists>u' st'. rep s' b u' st' \<and> pos_ok b u' st' \<and> pos_total b u' st' = pos_total b u st"
  using unbond_step [OF assms(1,2), of maybe v t] unfolding assms(3) by force

lemma step_ok:
  assumes "rep s b u st" "pos_ok b u st" "internal_step P t s = Some (Ok (Inr paid), s')"
  shows "\<exists>b' u' st'. rep s' b' u' st' \<and> pos_ok b' u' st' \<and> pos_total b' u' st' + queue_total paid = pos_total b u st"
  using internal_step_correct [OF assms(1,2), of t] unfolding assms(3) by force

lemma runs_accounted:
  assumes "pos_runs P s i n s'" "rep s b u st" "pos_ok b u st"
  shows "\<exists>b' u' st'. rep s' b' u' st' \<and> pos_ok b' u' st' \<and> pos_total b' u' st' + n = pos_total b u st + i"
  using assms
proof (induction rule: pos_runs.induct)
  case (start s)
  then show ?case by (intro exI [of _ b] exI [of _ u] exI [of _ st]) simp
next
  case (bond s i n s' a v t s'')
  obtain b' u' st' where r: "rep s' b' u' st'" "pos_ok b' u' st'" "pos_total b' u' st' + n = pos_total b u st + i"
    using bond.IH [OF bond.prems] by blast
  from bond_ok [OF r(1,2) bond.hyps(2)] obtain b'' where
    "rep s'' b'' u' st'" "pos_ok b'' u' st'" "pos_total b'' u' st' = pos_total b' u' st' + unat a" by blast
  then show ?case using r(3) by (intro exI [of _ b''] exI [of _ u'] exI [of _ st']) simp
next
  case (unbond s i n s' maybe v t s'')
  obtain b' u' st' where r: "rep s' b' u' st'" "pos_ok b' u' st'" "pos_total b' u' st' + n = pos_total b u st + i"
    using unbond.IH [OF unbond.prems] by blast
  from unbond_ok [OF r(1,2) unbond.hyps(2)] obtain u'' st'' where
    "rep s'' b' u'' st''" "pos_ok b' u'' st''" "pos_total b' u'' st'' = pos_total b' u' st'" by blast
  then show ?case using r(3) by (intro exI [of _ b'] exI [of _ u''] exI [of _ st'']) simp
next
  case (step s i n s' t paid s'')
  obtain b' u' st' where r: "rep s' b' u' st'" "pos_ok b' u' st'" "pos_total b' u' st' + n = pos_total b u st + i"
    using step.IH [OF step.prems] by blast
  from step_ok [OF r(1,2) step.hyps(2)] obtain b'' u'' st'' where
    "rep s'' b'' u'' st''" "pos_ok b'' u'' st''" "pos_total b'' u'' st'' + queue_total paid = pos_total b' u' st'"
    by blast
  then show ?case using r(3) by (intro exI [of _ b''] exI [of _ u''] exI [of _ st'']) simp
qed

end

end
