(* ===== verification/Pos_Contract.thy ===== *)
theory Pos_Contract
  imports Proof_Of_Stake
begin

text \<open>
  \<^verbatim>\<open>contracts/system/pos/src\<close>: the providers with which the proof-of-stake contract runs. The queues are in
  the local state of the contract; the stakes are encoded in the names of its keys, \<^verbatim>\<open>v_<key>_<amount>\<close>
  with the key in hexadecimal and the amount in decimal digits.

  The parsing and printing of decimal numbers of the \<^verbatim>\<open>uint\<close> crate and the decoder of \<^verbatim>\<open>base16\<close> are the
  fields of \<open>stake_externals\<close>; \<open>stake_laws\<close> is their documented behaviour. The transfers, which run the
  mint contract in an instance of its own, are parameters. \<open>pos_at\<close> says what the context holds; on such
  contexts the providers fulfil \<open>pos_store\<close>.
\<close>

section \<open>Queues\<close>

definition BONDING_KEY :: u8 where "BONDING_KEY = 1"
definition UNBONDING_KEY :: u8 where "UNBONDING_KEY = 2"

definition queue_cl_type :: cl_type where "queue_cl_type = CL_List CL_Any"

definition contract_read_queue ::
    "('m, 'g, 'z) runtime_externals_scheme \<Rightarrow> u8 \<Rightarrow> ('m, 'g, queue) ctx_exec" where
  "contract_read_queue X key =
     seq (storage_read_local X u8_to_bytes queue_from_bytes key) (\<lambda>r.
       return (case r of Inr (Some q) \<Rightarrow> q | _ \<Rightarrow> []))"

definition contract_write_queue ::
    "('m, 'g, 'z) runtime_externals_scheme \<Rightarrow> u8 \<Rightarrow> queue \<Rightarrow> ('m, 'g, unit) ctx_exec" where
  "contract_write_queue X key q = storage_write_local X u8_to_bytes queue_to_bytes queue_cl_type key q"

section \<open>Stakes\<close>

record stake_externals =
  dec_display :: "U512 \<Rightarrow> rstring"
  from_dec_str :: "bytes \<Rightarrow> U512 option"
  hex_decode_slice :: "bytes \<Rightarrow> bytes option"

text \<open>\<^verbatim>\<open>str::split\<close> at a character of one byte.\<close>

fun split_at_char :: "u8 \<Rightarrow> bytes \<Rightarrow> bytes list" where
  "split_at_char c [] = [[]]"
| "split_at_char c (b # bs) =
     (if b = c then [] # split_at_char c bs
      else case split_at_char c bs of [] \<Rightarrow> [[b]] | seg # segs \<Rightarrow> (b # seg) # segs)"

definition UNDERSCORE :: u8 where "UNDERSCORE = 95"

definition parse_stake :: "stake_externals \<Rightarrow> bytes list \<Rightarrow> (public_key \<times> U512, pos_error) result" where
  "parse_stake E split_name =
     (case split_name of
        [] \<Rightarrow> Err Pos_StakesKeyDeserializationFailed
      | hex_key # rest \<Rightarrow>
          if length hex_key \<noteq> 64 then Err Pos_StakesKeyDeserializationFailed
          else
            and_then (ok_or (hex_decode_slice E hex_key) Pos_StakesKeyDeserializationFailed) (\<lambda>key_bytes.
            and_then (ok_or (case rest of [] \<Rightarrow> None | b # _ \<Rightarrow> from_dec_str E b) Pos_StakesDeserializationFailed)
              (\<lambda>balance. Ok (array32_copy key_bytes, balance))))"

fun read_names :: "stake_externals \<Rightarrow> rstring list \<Rightarrow> stakes \<Rightarrow> (stakes, pos_error) result" where
  "read_names E [] stakes = Ok stakes"
| "read_names E (name # names) stakes =
     (case split_at_char UNDERSCORE (str_bytes name) of
        [] \<Rightarrow> read_names E names stakes
      | v # split_name \<Rightarrow>
          if v \<noteq> ascii_bytes ''v'' then read_names E names stakes
          else and_then (parse_stake E split_name) (\<lambda>(pub_key, balance).
            read_names E names (fmupd pub_key balance stakes)))"

definition list_named_keys :: "('m, 'g, rstring list) ctx_exec" where
  "list_named_keys = gets (\<lambda>c. map fst (entries (ctx_named_keys c)))"

definition contract_read_stakes :: "stake_externals \<Rightarrow> ('m, 'g, pos_error + stakes) ctx_exec" where
  "contract_read_stakes E =
     seq list_named_keys (\<lambda>names.
     seq_ok (as_value (read_names E names fmempty)) (\<lambda>stakes.
       return (if stakes = fmempty then Inl Pos_StakesNotFound else Inr stakes)))"

definition hex_digit :: "nat \<Rightarrow> u8" where
  "hex_digit d = word_of_nat (if d < 10 then 48 + d else 87 + d)"

definition hex_bytes :: "bytes \<Rightarrow> bytes" where
  "hex_bytes bs = concat (map (\<lambda>b. [hex_digit (unat b div 16), hex_digit (unat b mod 16)]) bs)"

definition stake_name :: "stake_externals \<Rightarrow> public_key \<Rightarrow> U512 \<Rightarrow> rstring" where
  "stake_name E pub_key balance =
     str_append (str_lit ''v_'')
       (str_append (string_of_valid (hex_bytes (array_bytes pub_key)))
         (str_append (str_lit ''_'') (dec_display E balance)))"

definition stake_names :: "stake_externals \<Rightarrow> stakes \<Rightarrow> rstring fset" where
  "stake_names E stakes = fset_of_list (map (\<lambda>(k, v). stake_name E k v) (entries stakes))"

text \<open>The first loop of \<^verbatim>\<open>write\<close> removes the names that are not needed; what is left is added.\<close>

fun remove_names ::
    "('m, 'g, 'z) runtime_externals_scheme \<Rightarrow> rstring list \<Rightarrow> rstring fset \<Rightarrow> ('m, 'g, rstring fset) ctx_exec" where
  "remove_names X [] new_urefs = return new_urefs"
| "remove_names X (name # names) new_urefs =
     (if prefix (ascii_bytes ''v_'') (str_bytes name) then
        if name |\<in>| new_urefs then remove_names X names (new_urefs |-| {|name|})
        else seq (ctx_remove_key X name) (\<lambda>_. remove_names X names new_urefs)
      else remove_names X names new_urefs)"

definition contract_write_stakes ::
    "('m, 'g, 'z) runtime_externals_scheme \<Rightarrow> stake_externals \<Rightarrow> stakes \<Rightarrow> ('m, 'g, unit) ctx_exec" where
  "contract_write_stakes X E stakes =
     seq list_named_keys (\<lambda>names.
     seq (remove_names X names (stake_names E stakes)) (\<lambda>new_urefs.
       for_each (\<lambda>name. put_key X name (Key_Hash (array32_fill 0))) (sorted_list_of_fset new_urefs)))"

section \<open>The providers\<close>

definition pos_contract ::
    "('m, 'g, 'z) runtime_externals_scheme \<Rightarrow> stake_externals \<Rightarrow>
     (purse_id \<Rightarrow> public_key \<Rightarrow> U512 \<Rightarrow> ('m, 'g, transfer_result) ctx_exec) \<Rightarrow>
     (purse_id \<Rightarrow> purse_id \<Rightarrow> U512 \<Rightarrow> ('m, 'g, unit + unit) ctx_exec) \<Rightarrow>
     (purse_id \<Rightarrow> ('m, 'g, U512 option) ctx_exec) \<Rightarrow>
     (('m, 'g) runtime_context, exec_error) pos_provider" where
  "pos_contract X E transfer_to_account transfer_to_purse get_balance =
     \<lparr>pp_transfer_to_account = transfer_to_account,
      pp_transfer_to_purse = transfer_to_purse,
      pp_get_balance = get_balance,
      pp_read_bonding = contract_read_queue X BONDING_KEY,
      pp_read_unbonding = contract_read_queue X UNBONDING_KEY,
      pp_write_bonding = contract_write_queue X BONDING_KEY,
      pp_write_unbonding = contract_write_queue X UNBONDING_KEY,
      pp_get_key = (\<lambda>name. gets (\<lambda>c. named_keys_get c name)),
      pp_put_key = put_key X,
      pp_remove_key = ctx_remove_key X,
      pp_get_phase = gets ctx_phase,
      pp_get_block_time = gets ctx_blocktime,
      pp_get_caller = gets get_caller,
      pp_read_stakes = contract_read_stakes E,
      pp_write_stakes = contract_write_stakes X E\<rparr>"

section \<open>Names of stakes\<close>

definition stake_laws :: "stake_externals \<Rightarrow> bool" where
  "stake_laws E \<longleftrightarrow>
     (\<forall>x. from_dec_str E (str_bytes (dec_display E x)) = Some x) \<and>
     (\<forall>x. UNDERSCORE \<notin> set (str_bytes (dec_display E x))) \<and>
     (\<forall>x. length (str_bytes (dec_display E x)) \<le> 155) \<and>
     (\<forall>a. hex_decode_slice E (hex_bytes (array_bytes a)) = Some (array_bytes a))"

lemma split_at_char_ne: "split_at_char c bs \<noteq> []"
  by (induction bs) (auto split: list.splits)

lemma split_at_char_none: "c \<notin> set bs \<Longrightarrow> split_at_char c bs = [bs]"
  by (induction bs) auto

lemma split_at_char_append: "c \<notin> set bs \<Longrightarrow> split_at_char c (bs @ c # cs) = bs # split_at_char c cs"
  by (induction bs) auto

lemma hex_digit_bounds: "d < 16 \<Longrightarrow> 48 \<le> unat (hex_digit d) \<and> unat (hex_digit d) \<le> 102 \<and> unat (hex_digit d) \<noteq> 95"
  by (auto simp: hex_digit_def unat_of_nat)

lemma hex_bytes_bounds: "x \<in> set (hex_bytes bs) \<Longrightarrow> unat x \<le> 102 \<and> unat x \<noteq> 95"
  using hex_digit_bounds unat_lt_pow [where 'n = 8] by (fastforce simp: hex_bytes_def div_less_iff_less_mult)

lemma length_hex_bytes [simp]: "length (hex_bytes bs) = 2 * length bs"
  by (induction bs) (simp_all add: hex_bytes_def)

lemma hex_bytes_valid: "utf8_valid (hex_bytes bs)"
  by (rule utf8_valid_ascii) (use hex_bytes_bounds in fastforce)

lemma hex_bytes_no_underscore: "UNDERSCORE \<notin> set (hex_bytes bs)"
  using hex_bytes_bounds [of UNDERSCORE bs] by (auto simp: UNDERSCORE_def)

lemma stake_name_bytes:
  "str_bytes (stake_name E k v) =
     ascii_bytes ''v'' @ UNDERSCORE # hex_bytes (array_bytes k) @ UNDERSCORE # str_bytes (dec_display E v)"
  by (simp add: stake_name_def hex_bytes_valid ascii_bytes_def UNDERSCORE_def)

lemma stake_name_split:
  assumes "stake_laws E"
  shows "split_at_char UNDERSCORE (str_bytes (stake_name E k v)) =
     [ascii_bytes ''v'', hex_bytes (array_bytes k), str_bytes (dec_display E v)]"
proof -
  have "UNDERSCORE \<notin> set (ascii_bytes ''v'')" by (simp add: ascii_bytes_def UNDERSCORE_def)
  then show ?thesis
    using assms hex_bytes_no_underscore [of "array_bytes k"]
    by (simp add: stake_name_bytes split_at_char_append split_at_char_none stake_laws_def)
qed

lemma parse_stake_name:
  assumes "stake_laws E"
  shows "parse_stake E [hex_bytes (array_bytes k), str_bytes (dec_display E v)] = Ok (k, v)"
proof -
  have "array32_copy (array_bytes k) = k" by (simp flip: array_bytes_eq_iff)
  then show ?thesis using assms by (simp add: parse_stake_def stake_laws_def)
qed

lemma stake_name_inject:
  assumes "stake_laws E" "stake_name E k v = stake_name E k' v'"
  shows "k = k'" "v = v'"
proof -
  have "Ok (k, v) = (Ok (k', v') :: (public_key \<times> U512, pos_error) result)"
    using stake_name_split [OF assms(1), of k v] stake_name_split [OF assms(1), of k' v'] assms(2)
      parse_stake_name [OF assms(1), of k v] parse_stake_name [OF assms(1), of k' v'] by simp
  then show "k = k'" "v = v'" by simp_all
qed

section \<open>What the context holds\<close>

definition queue_held :: "(key \<rightharpoonup> stored_value) \<Rightarrow> key \<Rightarrow> queue \<Rightarrow> bool" where
  "queue_held view k q \<longleftrightarrow>
     view k = None \<and> q = [] \<or>
     (\<exists>bs. queue_to_bytes q = Ok bs \<and> length q < 2 ^ 64 \<and> view k = Some (SV_CLValue (CLValue queue_cl_type bs)))"

definition is_stake_name :: "rstring \<Rightarrow> bool" where
  "is_stake_name name \<longleftrightarrow> hd (split_at_char UNDERSCORE (str_bytes name)) = ascii_bytes ''v''"

definition stakes_named :: "stake_externals \<Rightarrow> named_keys \<Rightarrow> stakes \<Rightarrow> bool" where
  "stakes_named E keys st \<longleftrightarrow>
     (\<forall>name. name |\<in>| stake_names E st \<longrightarrow> name |\<in>| fmdom keys) \<and>
     (\<forall>name. name |\<in>| fmdom keys \<longrightarrow> is_stake_name name \<longrightarrow> name |\<in>| stake_names E st)"

text \<open>The contract is stored under its reference; everywhere else the state is \<open>view\<close>.\<close>

definition contract_view ::
    "('m, 'g, 'z) runtime_externals_scheme \<Rightarrow> ('m \<Rightarrow> (key \<times> stored_value) list) \<Rightarrow> (key \<rightharpoonup> stored_value) \<Rightarrow>
     uref \<Rightarrow> (key \<rightharpoonup> stored_value) \<Rightarrow> ('m, 'g) runtime_context \<Rightarrow> bool" where
  "contract_view X ents m base view c \<longleftrightarrow>
     ctx_base_key c = Key_URef base \<and>
     (\<exists>con. at_view X ents m (view(key_normalize (Key_URef base) \<mapsto> SV_Contract con)) c)"

definition pos_at ::
    "('m, 'g, 'z) runtime_externals_scheme \<Rightarrow> stake_externals \<Rightarrow> ('m \<Rightarrow> (key \<times> stored_value) list) \<Rightarrow>
     (key \<rightharpoonup> stored_value) \<Rightarrow> ('m, 'g) runtime_context \<Rightarrow> queue \<Rightarrow> queue \<Rightarrow> stakes \<Rightarrow> bool" where
  "pos_at X E ents m c b u st \<longleftrightarrow>
     (\<exists>base view. contract_view X ents m base view c \<and>
        queue_held view (local_key X c [BONDING_KEY]) b \<and> queue_held view (local_key X c [UNBONDING_KEY]) u) \<and>
     local_key X c [BONDING_KEY] \<noteq> local_key X c [UNBONDING_KEY] \<and>
     stakes_named E (ctx_named_keys c) st \<and> stake_laws E"

section \<open>Steps of the storage\<close>

lemma contract_view_seed: "contract_view X ents m base view c \<Longrightarrow> ctx_seed c = addr base"
  by (simp add: contract_view_def ctx_seed_def)

lemma view_state_step:
  assumes "contract_view X ents m base view c"
  obtains con where "at_view X ents m (view(key_normalize (Key_URef base) \<mapsto> SV_Contract con)) c"
    "ctx_base_key c = Key_URef base"
  using assms by (auto simp: contract_view_def)

lemma view_local_read:
  assumes "contract_view X ents m base view c"
  shows "\<exists>tc. on_state (tc_read X (Key_Local h)) c = Some (Ok (view (Key_Local h)), c\<lparr>ctx_state := tc\<rparr>)
    \<and> contract_view X ents m base view (c\<lparr>ctx_state := tc\<rparr>)"
proof (rule view_state_step [OF assms])
  fix con
  assume at: "at_view X ents m (view(key_normalize (Key_URef base) \<mapsto> SV_Contract con)) c"
    and base: "ctx_base_key c = Key_URef base"
  from read_step [OF at, of "Key_Local h"] base show ?thesis by (auto simp: contract_view_def)
qed

lemma view_local_write:
  assumes "contract_view X ents m base view c"
  shows "\<exists>tc. on_state (tc_write (Key_Local h) v) c = Some (Ok (), c\<lparr>ctx_state := tc\<rparr>)
    \<and> contract_view X ents m base (view(Key_Local h \<mapsto> v)) (c\<lparr>ctx_state := tc\<rparr>)"
proof (rule view_state_step [OF assms])
  fix con
  assume at: "at_view X ents m (view(key_normalize (Key_URef base) \<mapsto> SV_Contract con)) c"
    and base: "ctx_base_key c = Key_URef base"
  have "(view(key_normalize (Key_URef base) \<mapsto> SV_Contract con))(Key_Local h \<mapsto> v) =
      (view(Key_Local h \<mapsto> v))(key_normalize (Key_URef base) \<mapsto> SV_Contract con)"
    by (rule fun_upd_twist) simp
  then show ?thesis using write_step [OF at, of "Key_Local h" v] base by (auto simp: contract_view_def)
qed

lemma view_remove_key:
  assumes "contract_view X ents m base view c"
  shows "\<exists>tc. ctx_remove_key X name c = Some (Ok (), (forget_name name c)\<lparr>ctx_state := tc\<rparr>)
    \<and> contract_view X ents m base view ((forget_name name c)\<lparr>ctx_state := tc\<rparr>)"
proof (rule view_state_step [OF assms])
  fix con :: contract
  let ?k = "key_normalize (Key_URef base)"
  let ?con = "con\<lparr>con_named_keys := fmdrop name (con_named_keys con)\<rparr>"
  assume at: "at_view X ents m (view(?k \<mapsto> SV_Contract con)) c" and base: "ctx_base_key c = Key_URef base"
  obtain tc where tc: "on_state (tc_read X (Key_URef base)) c = Some (Ok (Some (SV_Contract con)), c\<lparr>ctx_state := tc\<rparr>)"
      "at_view X ents m (view(?k \<mapsto> SV_Contract con)) (c\<lparr>ctx_state := tc\<rparr>)"
    using read_step [OF at, of "Key_URef base"] by auto
  let ?c = "forget_name name (c\<lparr>ctx_state := tc\<rparr>)"
  have at': "at_view X ents m (view(?k \<mapsto> SV_Contract con)) ?c" using tc(2) by (simp add: at_view_def forget_name_def)
  obtain tc' where tc': "on_state (tc_write (Key_URef base) (SV_Contract ?con)) ?c = Some (Ok (), ?c\<lparr>ctx_state := tc'\<rparr>)"
      "at_view X ents m (view(?k \<mapsto> SV_Contract ?con)) (?c\<lparr>ctx_state := tc'\<rparr>)"
    using write_step [OF at', of "Key_URef base" "SV_Contract ?con"] by auto
  have eq: "?c\<lparr>ctx_state := tc'\<rparr> = (forget_name name c)\<lparr>ctx_state := tc'\<rparr>" by (simp add: forget_name_def)
  have "ctx_remove_key X name c = Some (Ok (), ?c\<lparr>ctx_state := tc'\<rparr>)"
    using tc(1) tc'(1) base
    by (simp add: ctx_remove_key_def seq_step(1) remove_key_from_contract_def)
  then show ?thesis
    unfolding eq using tc'(2) [unfolded eq] base by (auto simp: contract_view_def forget_name_def)
qed

lemma view_put_key:
  assumes "contract_view X ents m base view c" "length (str_bytes name) \<le> 1000"
  shows "\<exists>tc. put_key X name (Key_Hash h) c = Some (Ok (), insert_key name (Key_Hash h) (c\<lparr>ctx_state := tc\<rparr>))
    \<and> contract_view X ents m base view (insert_key name (Key_Hash h) (c\<lparr>ctx_state := tc\<rparr>))"
proof (rule view_state_step [OF assms(1)])
  fix con
  let ?k = "key_normalize (Key_URef base)"
  assume at: "at_view X ents m (view(?k \<mapsto> SV_Contract con)) c" and base: "ctx_base_key c = Key_URef base"
  have "validate_key c (Key_Hash h) = Ok ()" by (simp add: validate_key_def)
  from put_key_step [OF at assms(2) this, of con] base obtain tc where
    "put_key X name (Key_Hash h) c = Some (Ok (), insert_key name (Key_Hash h) (c\<lparr>ctx_state := tc\<rparr>))"
    "at_view X ents m (view(?k \<mapsto> SV_Contract (contract_named_keys_append con (fmap_of_list [(name, Key_Hash h)]))))
       (c\<lparr>ctx_state := tc\<rparr>)"
    by auto
  then show ?thesis using base by (auto simp: contract_view_def insert_key_def Let_def at_view_def)
qed

section \<open>The queues\<close>

lemma queue_to_bytes_Ok: "\<exists>bs. queue_to_bytes q = Ok bs"
proof -
  have "\<exists>bs. queue_entry_to_bytes e = Ok bs" for e
    using u512_to_bytes_Ok [of "q_amount e"]
    by (auto simp: queue_entry_to_bytes_def public_key_to_bytes_def array32_to_bytes_def block_time_to_bytes_def
        u64_to_bytes_def int_to_bytes_def)
  then have "\<exists>bs. ser_concat queue_entry_to_bytes q = Ok bs"
    by (induction q) (auto, metis and_then.simps(1))
  then show ?thesis by (auto simp: queue_to_bytes_def u64_to_bytes_def int_to_bytes_def)
qed

lemma queue_read_step:
  assumes "contract_view X ents m base view c" "queue_held view (local_key X c [k]) q"
  shows "\<exists>tc. contract_read_queue X k c = Some (Ok q, c\<lparr>ctx_state := tc\<rparr>)
    \<and> contract_view X ents m base view (c\<lparr>ctx_state := tc\<rparr>)"
proof -
  define h where "h = blake2b X (array_bytes (ctx_seed c) @ [k])"
  have key: "local_key X c [k] = Key_Local h" by (simp add: key_local_def h_def)
  obtain tc where tc: "on_state (tc_read X (Key_Local h)) c = Some (Ok (view (Key_Local h)), c\<lparr>ctx_state := tc\<rparr>)"
      "contract_view X ents m base view (c\<lparr>ctx_state := tc\<rparr>)"
    using view_local_read [OF assms(1)] by blast
  consider "view (Key_Local h) = None" "q = []"
    | bs where "queue_to_bytes q = Ok bs" "length q < 2 ^ 64" "view (Key_Local h) = Some (SV_CLValue (CLValue queue_cl_type bs))"
    using assms(2) by (auto simp: queue_held_def key)
  then have "contract_read_queue X k c = Some (Ok q, c\<lparr>ctx_state := tc\<rparr>)"
  proof cases
    case 1
    then show ?thesis using tc(1)
      by (simp add: contract_read_queue_def storage_read_local_def u8_to_bytes_def read_ls_def
          read_ls_with_seed_def key seq_assoc seq_step(1))
  next
    case 2
    have "deserialize queue_from_bytes bs = Ok q" by (rule queuec.deserialize_ser [OF 2(2,1)])
    then show ?thesis using tc(1) 2
      by (simp add: contract_read_queue_def storage_read_local_def u8_to_bytes_def read_ls_def
          read_ls_with_seed_def key seq_assoc seq_step(1) read_value_def)
  qed
  then show ?thesis using tc(2) by blast
qed

lemma queue_write_step:
  assumes "contract_view X ents m base view c" "length q < 2 ^ 64"
  shows "\<exists>tc v. contract_write_queue X k q c = Some (Ok (), c\<lparr>ctx_state := tc\<rparr>)
    \<and> contract_view X ents m base (view(local_key X c [k] \<mapsto> v)) (c\<lparr>ctx_state := tc\<rparr>)
    \<and> queue_held (view(local_key X c [k] \<mapsto> v)) (local_key X c [k]) q"
proof -
  define h where "h = blake2b X (array_bytes (ctx_seed c) @ [k])"
  have key: "local_key X c [k] = Key_Local h" by (simp add: key_local_def h_def)
  obtain bs where bs: "queue_to_bytes q = Ok bs" using queue_to_bytes_Ok by blast
  let ?v = "SV_CLValue (CLValue queue_cl_type bs)"
  obtain tc where tc: "on_state (tc_write (Key_Local h) ?v) c = Some (Ok (), c\<lparr>ctx_state := tc\<rparr>)"
      "contract_view X ents m base (view(Key_Local h \<mapsto> ?v)) (c\<lparr>ctx_state := tc\<rparr>)"
    using view_local_write [OF assms(1)] by blast
  have "contract_write_queue X k q c = Some (Ok (), c\<lparr>ctx_state := tc\<rparr>)"
    using tc(1) by (simp add: contract_write_queue_def storage_write_local_def u8_to_bytes_def from_t_def bs
        write_ls_def key)
  then show ?thesis using tc(2) bs assms(2) unfolding key
    by (intro exI [of _ tc] exI [of _ ?v]) (simp add: queue_held_def)
qed

section \<open>The stakes\<close>

lemma stake_names_iff: "name |\<in>| stake_names E st \<longleftrightarrow> (\<exists>k v. fmlookup st k = Some v \<and> name = stake_name E k v)"
  by (force simp: stake_names_def fset_of_list_elem set_entries)

lemma stake_name_facts:
  assumes "stake_laws E"
  shows "is_stake_name (stake_name E k v)" "prefix (ascii_bytes ''v_'') (str_bytes (stake_name E k v))"
    "length (str_bytes (stake_name E k v)) \<le> 1000"
proof -
  show "is_stake_name (stake_name E k v)" by (simp add: is_stake_name_def stake_name_split [OF assms])
  show "prefix (ascii_bytes ''v_'') (str_bytes (stake_name E k v))"
    by (simp add: stake_name_bytes ascii_bytes_def UNDERSCORE_def)
  have "length (str_bytes (dec_display E v)) \<le> 155" using assms by (simp add: stake_laws_def)
  then show "length (str_bytes (stake_name E k v)) \<le> 1000" by (simp add: stake_name_bytes ascii_bytes_def)
qed

lemma read_names_other: "\<not> is_stake_name name \<Longrightarrow> read_names E (name # names) acc = read_names E names acc"
  using split_at_char_ne [of UNDERSCORE "str_bytes name"]
  by (cases "split_at_char UNDERSCORE (str_bytes name)") (simp_all add: is_stake_name_def)

lemma read_names_stake:
  "stake_laws E \<Longrightarrow> read_names E (stake_name E k v # names) acc = read_names E names (fmupd k v acc)"
  by (simp add: stake_name_split parse_stake_name)

lemma read_names_correct:
  assumes "stake_laws E" "\<forall>name \<in> set names. is_stake_name name \<longrightarrow> name |\<in>| stake_names E st"
  shows "\<exists>acc'. read_names E names acc = Ok acc' \<and>
    (\<forall>k. fmlookup acc' k =
       (case fmlookup st k of
          Some v \<Rightarrow> if stake_name E k v \<in> set names then Some v else fmlookup acc k
        | None \<Rightarrow> fmlookup acc k))"
  using assms(2)
proof (induction names arbitrary: acc)
  case Nil
  then show ?case by (simp split: option.split)
next
  case (Cons name names)
  show ?case
  proof (cases "is_stake_name name")
    case False
    have other: "stake_name E k v \<noteq> name" for k v using False stake_name_facts(1) [OF assms(1), of k v] by auto
    obtain acc' where "read_names E names acc = Ok acc'"
      "\<forall>k. fmlookup acc' k = (case fmlookup st k of
         Some v \<Rightarrow> if stake_name E k v \<in> set names then Some v else fmlookup acc k | None \<Rightarrow> fmlookup acc k)"
      using Cons.IH [of acc] Cons.prems by auto
    then show ?thesis using other
      by (intro exI [of _ acc']) (simp add: read_names_other [OF False] del: read_names.simps split: option.split)
  next
    case True
    then obtain k v where kv: "fmlookup st k = Some v" "name = stake_name E k v"
      using Cons.prems by (auto simp: stake_names_iff)
    have same: "stake_name E k' v' = name \<longleftrightarrow> k' = k \<and> v' = v" for k' v'
      using stake_name_inject [OF assms(1)] kv(2) by blast
    obtain acc' where "read_names E names (fmupd k v acc) = Ok acc'"
      "\<forall>x. fmlookup acc' x = (case fmlookup st x of
         Some w \<Rightarrow> if stake_name E x w \<in> set names then Some w else fmlookup (fmupd k v acc) x
       | None \<Rightarrow> fmlookup (fmupd k v acc) x)"
      using Cons.IH [of "fmupd k v acc"] Cons.prems by auto
    then show ?thesis
      using same kv(1)
      by (intro exI [of _ acc'])
        (simp add: kv(2) read_names_stake [OF assms(1)] del: read_names.simps split: option.split)
  qed
qed

lemma read_stakes_step:
  assumes "stake_laws E" "stakes_named E (ctx_named_keys c) st"
  shows "contract_read_stakes E c = Some (Ok (if st = fmempty then Inl Pos_StakesNotFound else Inr st), c)"
proof -
  let ?names = "map fst (entries (ctx_named_keys c))"
  have set: "set ?names = fset (fmdom (ctx_named_keys c))" by (simp only: set_btree_keys)
  have "\<forall>name \<in> set ?names. is_stake_name name \<longrightarrow> name |\<in>| stake_names E st"
    using assms(2) unfolding set stakes_named_def by simp
  from read_names_correct [OF assms(1) this, of fmempty] obtain acc where
    acc: "read_names E ?names fmempty = Ok acc"
    "\<forall>k. fmlookup acc k = (case fmlookup st k of
       Some v \<Rightarrow> if stake_name E k v \<in> set ?names then Some v else fmlookup fmempty k | None \<Rightarrow> fmlookup fmempty k)"
    by blast
  have "stake_name E k v \<in> set ?names" if "fmlookup st k = Some v" for k v
    using assms(2) that unfolding set stakes_named_def stake_names_iff by blast
  then have "acc = st" using acc(2) by (intro fmap_ext) (simp split: option.split)
  then show ?thesis using acc(1) by (simp add: contract_read_stakes_def list_named_keys_def)
qed

lemma remove_names_step:
  assumes "contract_view X ents m base view c" "distinct names"
  shows "\<exists>c' new'. remove_names X names new c = Some (Ok new', c') \<and> contract_view X ents m base view c' \<and>
    (\<forall>n. n |\<in>| new' \<longleftrightarrow> n |\<in>| new \<and> \<not> (n \<in> set names \<and> prefix (ascii_bytes ''v_'') (str_bytes n))) \<and>
    (\<forall>n. n |\<in>| fmdom (ctx_named_keys c') \<longleftrightarrow>
       n |\<in>| fmdom (ctx_named_keys c) \<and> (n \<in> set names \<longrightarrow> prefix (ascii_bytes ''v_'') (str_bytes n) \<longrightarrow> n |\<in>| new))"
  using assms
proof (induction names arbitrary: c new)
  case (Cons name names)
  have names: "name \<notin> set names" "distinct names" using Cons.prems(2) by simp_all
  consider (other) "\<not> prefix (ascii_bytes ''v_'') (str_bytes name)"
    | (keep) "prefix (ascii_bytes ''v_'') (str_bytes name)" "name |\<in>| new"
    | (drop) "prefix (ascii_bytes ''v_'') (str_bytes name)" "name |\<notin>| new"
    by blast
  then show ?case
  proof cases
    case other
    then have run: "remove_names X (name # names) new c = remove_names X names new c" by simp
    show ?thesis unfolding run using Cons.IH [OF Cons.prems(1) names(2), of new] other by auto
  next
    case keep
    then have run: "remove_names X (name # names) new c = remove_names X names (new |-| {|name|}) c" by simp
    show ?thesis unfolding run using Cons.IH [OF Cons.prems(1) names(2), of "new |-| {|name|}"] keep names(1) by auto
  next
    case drop
    obtain tc where tc: "ctx_remove_key X name c = Some (Ok (), (forget_name name c)\<lparr>ctx_state := tc\<rparr>)"
        "contract_view X ents m base view ((forget_name name c)\<lparr>ctx_state := tc\<rparr>)"
      using view_remove_key [OF Cons.prems(1)] by blast
    let ?c = "(forget_name name c)\<lparr>ctx_state := tc\<rparr>"
    have run: "remove_names X (name # names) new c = remove_names X names new ?c"
      using drop tc(1) by (simp add: seq_step(1))
    have "ctx_named_keys ?c = fmdrop name (ctx_named_keys c)" by (simp add: forget_name_def)
    then show ?thesis unfolding run using Cons.IH [OF tc(2) names(2), of new] drop by auto
  qed
qed auto

lemma put_names_step:
  assumes "contract_view X ents m base view c" "\<forall>n \<in> set names. length (str_bytes n) \<le> 1000"
  shows "\<exists>c'. for_each (\<lambda>name. put_key X name (Key_Hash h)) names c = Some (Ok (), c')
    \<and> contract_view X ents m base view c'
    \<and> (\<forall>n. n |\<in>| fmdom (ctx_named_keys c') \<longleftrightarrow> n |\<in>| fmdom (ctx_named_keys c) \<or> n \<in> set names)"
  using assms
proof (induction names arbitrary: c)
  case (Cons name names)
  obtain tc where tc: "put_key X name (Key_Hash h) c = Some (Ok (), insert_key name (Key_Hash h) (c\<lparr>ctx_state := tc\<rparr>))"
      "contract_view X ents m base view (insert_key name (Key_Hash h) (c\<lparr>ctx_state := tc\<rparr>))"
    using view_put_key [OF Cons.prems(1), of name h] Cons.prems(2) by auto
  let ?c = "insert_key name (Key_Hash h) (c\<lparr>ctx_state := tc\<rparr>)"
  have "ctx_named_keys ?c = fmupd name (Key_Hash h) (ctx_named_keys c)" by (simp add: insert_key_def)
  moreover have "for_each (\<lambda>name. put_key X name (Key_Hash h)) (name # names) c =
      for_each (\<lambda>name. put_key X name (Key_Hash h)) names ?c"
    using tc(1) by (simp add: seq_step(1))
  ultimately show ?case using Cons.IH [OF tc(2)] Cons.prems(2) by auto
qed auto

lemma write_stakes_step:
  assumes "stake_laws E" "contract_view X ents m base view c" "stakes_named E (ctx_named_keys c) st"
  shows "\<exists>c'. contract_write_stakes X E t c = Some (Ok (), c') \<and> contract_view X ents m base view c'
    \<and> stakes_named E (ctx_named_keys c') t"
proof -
  let ?names = "map fst (entries (ctx_named_keys c))"
  have set: "set ?names = fset (fmdom (ctx_named_keys c))" by (simp only: set_btree_keys)
  obtain c1 new where c1: "remove_names X ?names (stake_names E t) c = Some (Ok new, c1)"
      "contract_view X ents m base view c1"
      "\<forall>n. n |\<in>| new \<longleftrightarrow> n |\<in>| stake_names E t \<and> \<not> (n \<in> set ?names \<and> prefix (ascii_bytes ''v_'') (str_bytes n))"
      "\<forall>n. n |\<in>| fmdom (ctx_named_keys c1) \<longleftrightarrow> n |\<in>| fmdom (ctx_named_keys c) \<and>
         (n \<in> set ?names \<longrightarrow> prefix (ascii_bytes ''v_'') (str_bytes n) \<longrightarrow> n |\<in>| stake_names E t)"
    using remove_names_step [OF assms(2) distinct_entries, where new = "stake_names E t"] by blast
  have len: "\<forall>n \<in> set (sorted_list_of_fset new). length (str_bytes n) \<le> 1000"
    using c1(3) stake_name_facts(3) [OF assms(1)] by (auto simp: stake_names_iff)
  obtain c2 where c2: "for_each (\<lambda>name. put_key X name (Key_Hash (array32_fill 0))) (sorted_list_of_fset new) c1 = Some (Ok (), c2)"
      "contract_view X ents m base view c2"
      "\<forall>n. n |\<in>| fmdom (ctx_named_keys c2) \<longleftrightarrow> n |\<in>| fmdom (ctx_named_keys c1) \<or> n \<in> set (sorted_list_of_fset new)"
    using put_names_step [OF c1(2) len] by blast
  have run: "contract_write_stakes X E t c = Some (Ok (), c2)"
    using c1(1) c2(1) by (simp add: contract_write_stakes_def list_named_keys_def seq_step(1))
  have v: "n |\<in>| stake_names E s \<Longrightarrow> prefix (ascii_bytes ''v_'') (str_bytes n)" for n s
    using stake_name_facts(2) [OF assms(1)] by (auto simp: stake_names_iff)
  have old: "n |\<in>| stake_names E st" if "n |\<in>| fmdom (ctx_named_keys c)" "is_stake_name n" for n
    using assms(3) that by (simp add: stakes_named_def)
  have dom: "n |\<in>| fmdom (ctx_named_keys c2) \<longleftrightarrow>
      n |\<in>| stake_names E t \<or> (n |\<in>| fmdom (ctx_named_keys c) \<and> \<not> prefix (ascii_bytes ''v_'') (str_bytes n))" for n
    using c2(3) c1(3,4) v [of n t] unfolding set by auto
  have "stakes_named E (ctx_named_keys c2) t"
    unfolding stakes_named_def dom using old v by blast
  then show ?thesis using run c2(2) by blast
qed

section \<open>The laws of the contract\<close>

lemma pos_at_view:
  assumes "pos_at X E ents m c b u st"
  obtains base view where "contract_view X ents m base view c"
    "queue_held view (local_key X c [BONDING_KEY]) b" "queue_held view (local_key X c [UNBONDING_KEY]) u"
    "local_key X c [BONDING_KEY] \<noteq> local_key X c [UNBONDING_KEY]" "stakes_named E (ctx_named_keys c) st" "stake_laws E"
  using assms unfolding pos_at_def by blast

lemma pos_atI:
  assumes "contract_view X ents m base view c"
    "queue_held view (local_key X c [BONDING_KEY]) b" "queue_held view (local_key X c [UNBONDING_KEY]) u"
    "local_key X c [BONDING_KEY] \<noteq> local_key X c [UNBONDING_KEY]" "stakes_named E (ctx_named_keys c) st" "stake_laws E"
  shows "pos_at X E ents m c b u st"
  using assms unfolding pos_at_def by blast

lemma queue_held_other: "k \<noteq> k' \<Longrightarrow> queue_held (view(k \<mapsto> v)) k' q = queue_held view k' q"
  by (simp add: queue_held_def)

lemma ctx_seed_state [simp]: "ctx_seed (c\<lparr>ctx_state := tc\<rparr>) = ctx_seed c"
  by (simp add: ctx_seed_def)

lemma pos_queue_reads:
  assumes "pos_at X E ents m c b u st"
  shows "\<exists>c'. contract_read_queue X BONDING_KEY c = Some (Ok b, c') \<and> pos_at X E ents m c' b u st"
    "\<exists>c'. contract_read_queue X UNBONDING_KEY c = Some (Ok u, c') \<and> pos_at X E ents m c' b u st"
proof -
  obtain base view where v: "contract_view X ents m base view c"
    "queue_held view (local_key X c [BONDING_KEY]) b" "queue_held view (local_key X c [UNBONDING_KEY]) u"
    "local_key X c [BONDING_KEY] \<noteq> local_key X c [UNBONDING_KEY]" "stakes_named E (ctx_named_keys c) st" "stake_laws E"
    using assms by (rule pos_at_view)
  have keep: "pos_at X E ents m (c\<lparr>ctx_state := tc\<rparr>) b u st"
    if "contract_view X ents m base view (c\<lparr>ctx_state := tc\<rparr>)" for tc
    by (rule pos_atI [OF that]) (use v(2-6) in simp_all)
  show "\<exists>c'. contract_read_queue X BONDING_KEY c = Some (Ok b, c') \<and> pos_at X E ents m c' b u st"
    using queue_read_step [OF v(1,2)] keep by blast
  show "\<exists>c'. contract_read_queue X UNBONDING_KEY c = Some (Ok u, c') \<and> pos_at X E ents m c' b u st"
    using queue_read_step [OF v(1,3)] keep by blast
qed

lemma pos_queue_writes:
  assumes "pos_at X E ents m c b u st" "length q < 2 ^ 64"
  shows "\<exists>c'. contract_write_queue X BONDING_KEY q c = Some (Ok (), c') \<and> pos_at X E ents m c' q u st"
    "\<exists>c'. contract_write_queue X UNBONDING_KEY q c = Some (Ok (), c') \<and> pos_at X E ents m c' b q st"
proof -
  obtain base view where v: "contract_view X ents m base view c"
    "queue_held view (local_key X c [BONDING_KEY]) b" "queue_held view (local_key X c [UNBONDING_KEY]) u"
    "local_key X c [BONDING_KEY] \<noteq> local_key X c [UNBONDING_KEY]" "stakes_named E (ctx_named_keys c) st" "stake_laws E"
    using assms(1) by (rule pos_at_view)
  obtain tc w where b: "contract_write_queue X BONDING_KEY q c = Some (Ok (), c\<lparr>ctx_state := tc\<rparr>)"
      "contract_view X ents m base (view(local_key X c [BONDING_KEY] \<mapsto> w)) (c\<lparr>ctx_state := tc\<rparr>)"
      "queue_held (view(local_key X c [BONDING_KEY] \<mapsto> w)) (local_key X c [BONDING_KEY]) q"
    using queue_write_step [OF v(1) assms(2)] by blast
  have "pos_at X E ents m (c\<lparr>ctx_state := tc\<rparr>) q u st"
    by (rule pos_atI [OF b(2)]) (use v(3-6) b(3) queue_held_other [OF v(4)] in simp_all)
  then show "\<exists>c'. contract_write_queue X BONDING_KEY q c = Some (Ok (), c') \<and> pos_at X E ents m c' q u st"
    using b(1) by blast
  obtain tc' w' where u: "contract_write_queue X UNBONDING_KEY q c = Some (Ok (), c\<lparr>ctx_state := tc'\<rparr>)"
      "contract_view X ents m base (view(local_key X c [UNBONDING_KEY] \<mapsto> w')) (c\<lparr>ctx_state := tc'\<rparr>)"
      "queue_held (view(local_key X c [UNBONDING_KEY] \<mapsto> w')) (local_key X c [UNBONDING_KEY]) q"
    using queue_write_step [OF v(1) assms(2)] by blast
  have "pos_at X E ents m (c\<lparr>ctx_state := tc'\<rparr>) b q st"
    by (rule pos_atI [OF u(2)]) (use v(2,4-6) u(3) queue_held_other [OF v(4) [symmetric]] in simp_all)
  then show "\<exists>c'. contract_write_queue X UNBONDING_KEY q c = Some (Ok (), c') \<and> pos_at X E ents m c' b q st"
    using u(1) by blast
qed

lemma pos_stakes_write:
  assumes "pos_at X E ents m c b u st"
  shows "\<exists>c'. contract_write_stakes X E t c = Some (Ok (), c') \<and> pos_at X E ents m c' b u t"
proof -
  obtain base view where v: "contract_view X ents m base view c"
    "queue_held view (local_key X c [BONDING_KEY]) b" "queue_held view (local_key X c [UNBONDING_KEY]) u"
    "local_key X c [BONDING_KEY] \<noteq> local_key X c [UNBONDING_KEY]" "stakes_named E (ctx_named_keys c) st" "stake_laws E"
    using assms by (rule pos_at_view)
  obtain c' where c': "contract_write_stakes X E t c = Some (Ok (), c')" "contract_view X ents m base view c'"
      "stakes_named E (ctx_named_keys c') t"
    using write_stakes_step [OF v(6,1,5)] by blast
  have "ctx_seed c' = ctx_seed c" using contract_view_seed c'(2) v(1) by metis
  then have "pos_at X E ents m c' b u t" by (intro pos_atI [OF c'(2)]) (use v c'(3) in simp_all)
  then show ?thesis using c'(1) by blast
qed

lemma pos_stakes_read:
  assumes "pos_at X E ents m c b u st"
  shows "\<exists>c'. contract_read_stakes E c = Some (Ok (if st = fmempty then Inl Pos_StakesNotFound else Inr st), c')
    \<and> pos_at X E ents m c' b u st"
proof -
  have "stakes_named E (ctx_named_keys c) st" "stake_laws E" using assms by (auto simp: pos_at_def)
  then show ?thesis using read_stakes_step assms by blast
qed

interpretation cpos: pos_store "pos_contract X E ta tp gb" "pos_at X E ents m" for X E ta tp gb ents m
  by unfold_locales
    (simp_all add: pos_contract_def pos_queue_reads pos_queue_writes pos_stakes_read pos_stakes_write
      MAX_BOND_LEN_def MAX_UNBOND_LEN_def)

end
