(* ===== verification/System_Props.thy ===== *)
theory System_Props
  imports Mint_Contract Pos_Contract Context_Props
begin

text \<open>
  The properties of the two system contracts on the runtime context: motes are neither created nor lost
  by transfers, by the requests of validators and by the payment of a deploy.
\<close>

section \<open>A concrete system contract\<close>

text \<open>The hash returns the key of a local value without the seed.\<close>

definition system_externals :: "((key \<times> stored_value) list, nat) runtime_externals" where
  "system_externals = list_runtime\<lparr>blake2b := (\<lambda>bs. array32_copy (drop 32 bs))\<rparr>"

definition system_context ::
    "(key \<rightharpoonup> stored_value) \<Rightarrow> known_rights \<Rightarrow> named_keys \<Rightarrow> ((key \<times> stored_value) list, nat) runtime_context" where
  "system_context m rights keys =
     example_context\<lparr>ctx_state := tracking_copy_new system_externals (\<lambda>k. Some (Ok (m k))),
       ctx_base_key := Key_URef (URef (array32_fill 5) (Some READ)),
       ctx_access_rights := rights, ctx_named_keys := keys, ctx_address_generator := 50\<rparr>"

definition system_contract :: contract where
  "system_contract = contract_new [] fmempty V1_0_0"

lemma system_externals_laws: "linked_map_laws system_externals (\<lambda>l. l)"
  using list_runtime_laws by (simp add: linked_map_laws_def system_externals_def list_runtime_def)

lemma system_context_view: "at_view system_externals (\<lambda>l. l) m m (system_context m rights keys)"
proof -
  have "tc_inv system_externals (\<lambda>l. l) m (tracking_copy_new system_externals (\<lambda>k. Some (Ok (m k))))"
    by (rule tc_inv_new [OF system_externals_laws]) (simp add: reads_as_def)
  moreover have "tc_view m (tracking_copy_new system_externals (\<lambda>k. Some (Ok (m k)))) = m"
    by (simp add: tc_view_def tracking_copy_new_def cache_new_def fun_eq_iff)
  ultimately show ?thesis using system_externals_laws by (simp add: at_view_def system_context_def)
qed

lemma system_local_key: "local_key system_externals (system_context m rights keys) bs = Key_Local (array32_copy bs)"
  by (simp add: key_local_def system_externals_def)

definition balance_uref :: "u8 \<Rightarrow> uref" where
  "balance_uref n = URef (array32_fill n) (Some READ_ADD_WRITE)"

definition mint_example_state :: "key \<rightharpoonup> stored_value" where
  "mint_example_state =
     [Key_URef (URef (array32_fill 5) None) \<mapsto> SV_Contract system_contract,
      Key_Local (array32_fill 1) \<mapsto> key_stored (Key_URef (balance_uref 3)),
      Key_Local (array32_fill 2) \<mapsto> key_stored (Key_URef (balance_uref 4)),
      Key_URef (URef (array32_fill 3) None) \<mapsto> u512_stored 10,
      Key_URef (URef (array32_fill 4) None) \<mapsto> u512_stored 5]"

definition mint_example_purses :: purses where
  "mint_example_purses =
     [array32_fill 1 \<mapsto> Key_URef (balance_uref 3), array32_fill 2 \<mapsto> Key_URef (balance_uref 4)]"

definition mint_example_balances :: balances where
  "mint_example_balances = [array32_fill 3 \<mapsto> 10, array32_fill 4 \<mapsto> 5]"

definition mint_example_addresses :: "array32 set" where
  "mint_example_addresses = array32_fill ` {1, 2, 50, 51}"

definition mint_example :: "((key \<times> stored_value) list, nat) runtime_context" where
  "mint_example = system_context mint_example_state
     (fmap_of_list [(array32_fill 3, {|READ_ADD_WRITE|}), (array32_fill 4, {|READ_ADD_WRITE|})]) fmempty"

lemma draw_example: "draw system_externals (ctx_address_generator mint_example) ` {..<2} = array32_fill ` {50, 51}"
proof -
  have "{..<2::nat} = {0, 1}" by auto
  then show ?thesis by (simp add: mint_example_def system_context_def system_externals_def list_runtime_def)
qed

lemma mint_example_at:
  "mint_at system_externals (\<lambda>l. l) mint_example_state mint_example_addresses mint_example
     mint_example_purses mint_example_balances {balance_uref 3, balance_uref 4} 2"
proof -
  have at: "at_view system_externals (\<lambda>l. l) mint_example_state mint_example_state mint_example"
    unfolding mint_example_def by (rule system_context_view)
  have copy: "array32_copy (array_bytes a) = a" for a by (simp flip: array_bytes_eq_iff)
  have loc: "local_key system_externals mint_example (array_bytes a) = Key_Local a" for a
    unfolding mint_example_def system_local_key copy ..
  have dom: "dom mint_example_balances = array32_fill ` {3, 4}" "dom mint_example_purses = array32_fill ` {1, 2}"
    by (auto simp: mint_example_balances_def mint_example_purses_def)
  have base: "ctx_base_key mint_example = Key_URef (URef (array32_fill 5) (Some READ))"
    by (simp add: mint_example_def system_context_def)
  have inj: "inj_on (draw system_externals (ctx_address_generator mint_example)) {..<2}"
    by (rule eq_card_imp_inj_on) (simp_all add: draw_example)
  have "mint_view system_externals mint_example_addresses mint_example mint_example_purses mint_example_balances 2
      mint_example_state"
    unfolding mint_view_def loc draw_example dom base_stored_def base
    by (auto simp: mint_example_addresses_def mint_example_state_def mint_example_purses_def
        mint_example_balances_def remove_access_rights_def)
  moreover have "usable mint_example (balance_uref n)" if "n \<in> {3, 4}" for n
    using that by (auto simp: usable_def balance_uref_def validate_uref_Ok_iff mint_example_def system_context_def
        rights_inter_eq_iff)
  then have "mint_known system_externals mint_example_addresses mint_example mint_example_purses
      mint_example_balances {balance_uref 3, balance_uref 4} 2"
    unfolding mint_known_def loc draw_example dom using inj
    by (auto simp: mint_example_purses_def balance_uref_def mint_example_addresses_def inj_on_def
        split: if_splits)
  ultimately show ?thesis using at unfolding mint_at_def by blast
qed

section \<open>The mint\<close>

text \<open>C12. Transfers conserve motes: the mint contract, given the references it was given and the purses it
  has stored, always returns; it moves exactly the amount between the two balances when the source purse
  may be written, the destination may be added to and the funds suffice, changes no balance when it
  returns an error, and keeps the sum of all balances, also for a transfer of a purse to itself.\<close>

theorem mint_transfer_conserves:
  assumes "mint_at X ents m U c p b h n" "addr source \<in> U" "addr dest \<in> U"
  shows "\<exists>r c' b'. transfer (mint_contract X) source dest amount c = Some (Ok r, c')
    \<and> mint_at X ents m U c' p b' h n
    \<and> (case r of
         Inl e \<Rightarrow> b' = b
       | Inr _ \<Rightarrow> uref_is_writeable source \<and> uref_is_addable dest
           \<and> (\<exists>x y. balance_at p (addr source) = Some x \<and> balance_at p (addr dest) = Some y
                 \<and> amount \<le> the (b x) \<and> b' = move x y amount b))
    \<and> (finite (dom b) \<and> total_balance b < 2 ^ 512 \<longrightarrow> total_balance b' = total_balance b)"
proof -
  obtain c' where c': "transfer (mint_contract X) source dest amount c =
        Some (Ok (case spec_transfer p b source dest amount of Inl e \<Rightarrow> Inl e | Inr _ \<Rightarrow> Inr ()), c')"
      "mint_at X ents m U c' p (case spec_transfer p b source dest amount of Inl _ \<Rightarrow> b | Inr b' \<Rightarrow> b') h n"
    using cmint.transfer_refines [OF assms] by blast
  show ?thesis
  proof (cases "spec_transfer p b source dest amount")
    case (Inl e)
    then show ?thesis using c' by (intro exI [of _ "Inl e"] exI [of _ c'] exI [of _ b]) simp
  next
    case (Inr b')
    then obtain x y where xy: "balance_at p (addr source) = Some x" "balance_at p (addr dest) = Some y"
        "amount \<le> the (b x)" "b' = move x y amount b" "uref_is_writeable source" "uref_is_addable dest"
      by (auto simp: spec_transfer_def not_less split: if_splits option.splits)
    have known: "z \<in> dom b" if "balance_at p a = Some z" for a z
      using that mint_purse_known [OF assms(1)] by (fastforce simp: balance_at_def split: option.splits)
    have "total_balance b' = total_balance b" if "finite (dom b) \<and> total_balance b < 2 ^ 512"
      using move_total(1) [of b x y amount] that known xy by simp
    then show ?thesis using c' Inr xy by (intro exI [of _ "Inr ()"] exI [of _ c'] exI [of _ b']) auto
  qed
qed

theorem mint_transfer_conserves_witness:
  "\<exists>c' b'. transfer (mint_contract system_externals) (URef (array32_fill 1) (Some READ_ADD_WRITE))
       (URef (array32_fill 2) (Some ADD)) 7 mint_example = Some (Ok (Inr ()), c')
     \<and> mint_at system_externals (\<lambda>l. l) mint_example_state mint_example_addresses c'
         mint_example_purses b' {balance_uref 3, balance_uref 4} 2
     \<and> b' (array32_fill 3) = Some 3 \<and> b' (array32_fill 4) = Some 12"
proof -
  let ?s = "URef (array32_fill 1) (Some READ_ADD_WRITE)" and ?d = "URef (array32_fill 2) (Some ADD)"
  have bal: "balance_at mint_example_purses (array32_fill 1) = Some (array32_fill 3)"
    "balance_at mint_example_purses (array32_fill 2) = Some (array32_fill 4)"
    by (simp_all add: balance_at_def mint_example_purses_def balance_uref_def)
  have in_U: "addr ?s \<in> mint_example_addresses" "addr ?d \<in> mint_example_addresses"
    by (simp_all add: mint_example_addresses_def)
  have ok: "spec_transfer mint_example_purses mint_example_balances ?s ?d 7 =
      Inr (move (array32_fill 3) (array32_fill 4) 7 mint_example_balances)"
    by (simp add: spec_transfer_def bal mint_example_balances_def uref_is_writeable_def uref_is_addable_def
        rights_is_writeable_def rights_is_addable_def rights_inter_def)
  obtain c0 where c0: "transfer (mint_contract system_externals) ?s ?d 7 mint_example = Some (Ok (Inr ()), c0)"
    using cmint.transfer_refines [OF mint_example_at in_U, of 7] ok by auto
  obtain b' where "mint_at system_externals (\<lambda>l. l) mint_example_state mint_example_addresses c0
       mint_example_purses b' {balance_uref 3, balance_uref 4} 2"
    "b' = move (array32_fill 3) (array32_fill 4) 7 mint_example_balances"
    using mint_transfer_conserves [OF mint_example_at in_U, of 7] unfolding c0
    by (auto simp: bal)
  then show ?thesis
    using c0 by (intro exI [of _ c0] exI [of _ b']) (simp add: move_def mint_example_balances_def)
qed

text \<open>C13. Only the system account creates motes: the mint refuses to create a purse with a balance for any
  other caller, without a change. Otherwise it creates a purse that did not exist, with full rights and
  exactly the given balance under a reference that had no balance, and leaves all other purses and
  balances as they are.\<close>

theorem mint_creates_purse:
  assumes "mint_at X ents m U c p b h (Suc (Suc n))" "hex_length encode_lower"
  shows "if initial \<noteq> 0 \<and> get_caller c \<noteq> SYSTEM_ACCOUNT
    then mint encode_lower (mint_contract X) initial c = Some (Ok (Inl Mint_InvalidNonEmptyPurseCreation), c)
    else \<exists>purse u c'. mint encode_lower (mint_contract X) initial c = Some (Ok (Inr purse), c')
      \<and> addr purse \<notin> dom p \<and> addr u \<notin> dom b \<and> access_rights purse = Some READ_ADD_WRITE
      \<and> mint_at X ents m U c' (p(addr purse \<mapsto> Key_URef u)) (b(addr u \<mapsto> initial)) (insert u h) n
      \<and> (\<exists>c''. balance (mint_contract X) purse c' = Some (Ok (Inr (Some initial)), c''))"
proof (cases "initial \<noteq> 0 \<and> get_caller c \<noteq> SYSTEM_ACCOUNT")
  case True
  then show ?thesis using cmint.mint_refused [of initial c encode_lower X] by simp
next
  case False
  then obtain purse u c' where c': "mint encode_lower (mint_contract X) initial c = Some (Ok (Inr purse), c')"
      "addr purse \<in> U" "addr purse \<notin> dom p" "addr u \<notin> dom b" "access_rights purse = Some READ_ADD_WRITE"
      "mint_at X ents m U c' (p(addr purse \<mapsto> Key_URef u)) (b(addr u \<mapsto> initial)) (insert u h) n"
    using cmint.mint_correct [OF assms(1) _ assms(2), of initial] by blast
  have "\<exists>c''. balance (mint_contract X) purse c' = Some (Ok (Inr (Some initial)), c'')"
    using cmint.balance_correct [OF c'(6,2)] by (auto simp: balance_at_def)
  then show ?thesis using False c' by auto
qed

theorem mint_creates_purse_witness:
  "get_caller mint_example = SYSTEM_ACCOUNT \<and>
   (\<exists>purse c' c''. mint (\<lambda>bs. string_of_valid (hex_bytes bs)) (mint_contract system_externals) 8 mint_example =
      Some (Ok (Inr purse), c')
    \<and> balance (mint_contract system_externals) purse c' = Some (Ok (Inr (Some 8)), c''))"
proof -
  have hex: "hex_length (\<lambda>bs. string_of_valid (hex_bytes bs))" by (simp add: hex_length_def hex_bytes_valid)
  have at: "mint_at system_externals (\<lambda>l. l) mint_example_state mint_example_addresses mint_example
     mint_example_purses mint_example_balances {balance_uref 3, balance_uref 4} (Suc (Suc 0))"
    using mint_example_at by (simp add: numeral_2_eq_2)
  have caller: "get_caller mint_example = SYSTEM_ACCOUNT"
    by (simp add: mint_example_def system_context_def get_caller_def example_context_def example_account_def
        account_create_def SYSTEM_ACCOUNT_def)
  show ?thesis using mint_creates_purse [OF at hex, of 8] caller by auto
qed

section \<open>Decimal and hexadecimal numbers\<close>

definition dec_digit :: "nat \<Rightarrow> u8" where
  "dec_digit d = word_of_nat (48 + d)"

fun dec_digits :: "nat \<Rightarrow> bytes" where
  "dec_digits n = (if n < 10 then [dec_digit n] else dec_digits (n div 10) @ [dec_digit (n mod 10)])"

declare dec_digits.simps [simp del]

definition dec_value :: "bytes \<Rightarrow> nat" where
  "dec_value bs = foldl (\<lambda>n d. 10 * n + (unat d - 48)) 0 bs"

definition hex_value :: "u8 \<Rightarrow> u8" where
  "hex_value d = (if unat d < 58 then d - 48 else d - 87)"

fun hex_decode :: "bytes \<Rightarrow> bytes option" where
  "hex_decode [] = Some []"
| "hex_decode [d] = None"
| "hex_decode (d # e # ds) = map_option (\<lambda>bs. (16 * hex_value d + hex_value e) # bs) (hex_decode ds)"

definition decimal_externals :: stake_externals where
  "decimal_externals =
     \<lparr>dec_display = (\<lambda>x. string_of_valid (dec_digits (unat x))),
      from_dec_str = (\<lambda>bs. Some (word_of_nat (dec_value bs))),
      hex_decode_slice = hex_decode\<rparr>"

lemma unat_dec_digit: "d < 10 \<Longrightarrow> unat (dec_digit d) = 48 + d"
  unfolding dec_digit_def by (subst unat_of_nat) simp

lemma dec_value_digits: "dec_value (dec_digits n) = n"
proof (induction n rule: dec_digits.induct)
  case (1 n)
  show ?case
  proof (cases "n < 10")
    case True
    then show ?thesis by (simp add: dec_digits.simps [of n] dec_value_def unat_dec_digit)
  next
    case False
    then have "dec_value (dec_digits (n div 10)) = n div 10" by (rule 1)
    then show ?thesis using False by (simp add: dec_digits.simps [of n] dec_value_def unat_dec_digit)
  qed
qed

lemma dec_digits_bounds: "d \<in> set (dec_digits n) \<Longrightarrow> 48 \<le> unat d \<and> unat d < 58"
proof (induction n rule: dec_digits.induct)
  case (1 n)
  then show ?case by (auto simp: dec_digits.simps [of n] unat_dec_digit split: if_splits)
qed

lemma length_dec_digits: "n < 10 ^ Suc k \<Longrightarrow> length (dec_digits n) \<le> Suc k"
proof (induction k arbitrary: n)
  case 0
  then show ?case by (simp add: dec_digits.simps [of n])
next
  case (Suc k)
  have "n div 10 < 10 ^ Suc k" using Suc.prems by (simp add: div_less_iff_less_mult mult.commute)
  then show ?case using Suc.IH [of "n div 10"] by (simp add: dec_digits.simps [of n])
qed

lemma dec_digits_valid: "utf8_valid (dec_digits n)"
  by (rule utf8_valid_ascii) (use dec_digits_bounds in fastforce)

lemma hex_value_digit: "d < 16 \<Longrightarrow> hex_value (hex_digit d) = word_of_nat d"
  by (simp add: hex_value_def hex_digit_def unat_of_nat)

lemma hex_decode_bytes: "hex_decode (hex_bytes bs) = Some bs"
proof (induction bs)
  case Nil
  then show ?case by (simp add: hex_bytes_def)
next
  case (Cons b bs)
  have lt: "unat b div 16 < 16" "unat b mod 16 < 16" using unat_lt_pow [of b] by auto
  have "16 * word_of_nat (unat b div 16) + word_of_nat (unat b mod 16) = (word_of_nat (16 * (unat b div 16) + unat b mod 16) :: u8)"
    by (simp only: of_nat_add of_nat_mult of_nat_numeral)
  also have "\<dots> = b" by simp
  finally have b: "16 * word_of_nat (unat b div 16) + word_of_nat (unat b mod 16) = b" .
  have "hex_bytes (b # bs) = hex_digit (unat b div 16) # hex_digit (unat b mod 16) # hex_bytes bs"
    by (simp add: hex_bytes_def)
  then show ?case by (simp add: Cons.IH hex_value_digit lt b)
qed

lemma decimal_laws: "stake_laws decimal_externals"
proof -
  have "length (dec_digits (unat x)) \<le> 155" for x :: U512
    using length_dec_digits [of "unat x" 154] unat_lt_pow [of x] by simp
  moreover have "UNDERSCORE \<notin> set (dec_digits n)" for n
    using dec_digits_bounds [of UNDERSCORE n] by (auto simp: UNDERSCORE_def)
  ultimately show ?thesis
    by (simp add: stake_laws_def decimal_externals_def dec_digits_valid dec_value_digits hex_decode_bytes)
qed

section \<open>Proof of stake\<close>

text \<open>One validator with a stake of 1000 motes and no requests.\<close>

definition pos_example_stakes :: stakes where
  "pos_example_stakes = fmap_of_list [(array32_fill 1, 1000)]"

definition pos_example_state :: "key \<rightharpoonup> stored_value" where
  "pos_example_state = [Key_URef (URef (array32_fill 5) None) \<mapsto> SV_Contract system_contract]"

definition pos_example :: "((key \<times> stored_value) list, nat) runtime_context" where
  "pos_example = system_context pos_example_state fmempty
     (fmap_of_list [(stake_name decimal_externals (array32_fill 1) 1000, Key_Hash (array32_fill 0))])"

lemma pos_example_at:
  "pos_at system_externals decimal_externals (\<lambda>l. l) pos_example_state pos_example [] [] pos_example_stakes"
proof -
  let ?base = "URef (array32_fill 5) (Some READ)"
  have at: "at_view system_externals (\<lambda>l. l) pos_example_state pos_example_state pos_example"
    unfolding pos_example_def by (rule system_context_view)
  have loc: "local_key system_externals pos_example bs = Key_Local (array32_copy bs)" for bs
    unfolding pos_example_def system_local_key ..
  have upd: "pos_example_state(key_normalize (Key_URef ?base) \<mapsto> SV_Contract system_contract) = pos_example_state"
    by (simp add: pos_example_state_def remove_access_rights_def)
  have "contract_view system_externals (\<lambda>l. l) pos_example_state ?base pos_example_state pos_example"
    using at upd unfolding contract_view_def
    by (intro conjI exI [of _ system_contract]) (simp_all add: pos_example_def system_context_def)
  moreover have "queue_held pos_example_state (local_key system_externals pos_example bs) []" for bs
    unfolding loc by (simp add: queue_held_def pos_example_state_def)
  moreover have "array32_copy [BONDING_KEY] \<noteq> array32_copy [UNBONDING_KEY]"
    by (simp add: BONDING_KEY_def UNBONDING_KEY_def flip: array_bytes_eq_iff)
  then have "local_key system_externals pos_example [BONDING_KEY] \<noteq> local_key system_externals pos_example [UNBONDING_KEY]"
    unfolding loc by simp
  moreover have "stakes_named decimal_externals (ctx_named_keys pos_example) pos_example_stakes"
    unfolding stakes_named_def stake_names_iff
    by (auto simp: pos_example_def system_context_def pos_example_stakes_def split: if_splits)
  ultimately show ?thesis using decimal_laws by (intro pos_atI)
qed

text \<open>C14. Bonded motes are accounted for: after any sequence of accepted requests to the proof-of-stake
  contract, the stakes and the two queues together hold what they held before, plus the motes bonded and
  minus the motes handed out to be paid; the queues stay ordered, within their limits and with one request
  per validator, and at least one validator stays bonded.\<close>

theorem pos_motes_accounted:
  assumes "pos_at X E ents m c b u st" "pos_ok b u st" "pos_runs (pos_contract X E ta tp gb) c bonded paid c'"
  shows "\<exists>b' u' st'. pos_at X E ents m c' b' u' st' \<and> pos_ok b' u' st'
    \<and> pos_total b' u' st' + paid = pos_total b u st + bonded"
  by (rule cpos.runs_accounted [OF assms(3,1,2)])

theorem pos_motes_accounted_witness:
  "\<exists>c' b' u' st'. pos_runs (pos_contract system_externals decimal_externals
       (\<lambda>_ _ _. return (Inr ExistingAccount)) (\<lambda>_ _ _. return (Inr ())) (\<lambda>_. return None)) pos_example 500 0 c'
     \<and> pos_at system_externals decimal_externals (\<lambda>l. l) pos_example_state c' b' u' st' \<and> pos_total b' u' st' = 1500"
proof -
  let ?P = "pos_contract system_externals decimal_externals
       (\<lambda>_ _ _. return (Inr ExistingAccount)) (\<lambda>_ _ _. return (Inr ())) (\<lambda>_. return None)"
  let ?v = "array32_fill 2"
  have ne: "pos_example_stakes \<noteq> fmempty"
    by (metis pos_example_stakes_def fmap_of_list_simps(2) fmdom_empty fmdom_fmupd finsert_not_fempty)
  have ok: "pos_ok [] [] pos_example_stakes" using ne by (simp add: pos_ok_def queue_ok_def)
  have ent: "entries pos_example_stakes = [(array32_fill 1, 1000)]"
    by (simp add: pos_example_stakes_def sorted_list_of_fmap_def sorted_list_of_fset.rep_eq)
  have sum: "stakes_sum pos_example_stakes = 1000"
    by (simp add: stakes_sum_def ent saturating_add_def)
  have none: "fmlookup pos_example_stakes ?v = None" by (simp add: pos_example_stakes_def)
  have top: "\<not> (-1 :: U512) \<le> 1000" by (simp add: word_le_nat_alt unsigned_minus_1_eq_mask mask_eq_exp_minus_1)
  have valid: "validate_bonding ?v 500 pos_example_stakes = Ok ()"
    by (simp add: top validate_bonding_def relative_limit_def sum uint_mul_def uint_div_def checked_mul_def
        checked_div_def none MAX_INCREASE_def MAX_REL_INCREASE_def MAX_SPREAD_def
        saturating_add_def saturating_sub_def min_without_def max_without_def others_def ent min_def)
  have push: "queue_push ?v 500 (BlockTime 1) [] =
      Ok [\<lparr>q_validator = ?v, q_amount = 500, q_timestamp = BlockTime 1\<rparr>]"
    by (simp add: queue_push_def)
  have "\<exists>c'. internal_bond ?P 500 ?v (BlockTime 1) pos_example = Some (Ok (Inr ()), c') \<and>
      pos_at system_externals decimal_externals (\<lambda>l. l) pos_example_state c'
        [\<lparr>q_validator = ?v, q_amount = 500, q_timestamp = BlockTime 1\<rparr>] [] pos_example_stakes"
    by (rule cpos.bond_accepted [OF pos_example_at ne _ _ valid push]) (simp_all add: MAX_BOND_LEN_def)
  then obtain c' where c': "internal_bond ?P 500 ?v (BlockTime 1) pos_example = Some (Ok (Inr ()), c')" by blast
  have run: "pos_runs ?P pos_example 500 0 c'"
    using pos_runs.bond [OF pos_runs.start c'] by simp
  have "total_stakes pos_example_stakes = 1000"
    by (simp add: total_stakes_def pos_example_stakes_def stake_of_def)
  then show ?thesis
    using pos_motes_accounted [OF pos_example_at ok run] run by (auto simp: pos_total_def)
qed

section \<open>The payment of a deploy\<close>

text \<open>What the payment relies on: named keys that are read and removed, and transfers that move the amount or
  change nothing. The purse of an account is not the purse that pays.\<close>

definition payment_laws ::
    "('s, 'x) pos_provider \<Rightarrow> ('s \<Rightarrow> balances) \<Rightarrow> ('s \<Rightarrow> rstring \<rightharpoonup> key) \<Rightarrow> bool" where
  "payment_laws P bal keys \<longleftrightarrow>
     (\<forall>s. \<exists>k. pp_get_caller P s = Some (Ok k, s)) \<and>
     (\<forall>s name. pp_get_key P name s = Some (Ok (keys s name), s)) \<and>
     (\<forall>s name. \<exists>s'. pp_remove_key P name s = Some (Ok (), s') \<and> keys s' = (keys s)(name := None) \<and> bal s' = bal s) \<and>
     (\<forall>s p. pp_get_balance P p s = Some (Ok (bal s (addr p)), s)) \<and>
     (\<forall>s p q a. \<exists>r s'. pp_transfer_to_purse P p q a s = Some (Ok r, s') \<and> keys s' = keys s \<and>
        (case r of
           Inl _ \<Rightarrow> bal s' = bal s
         | Inr _ \<Rightarrow> a \<le> the (bal s (addr p)) \<and> bal s' = move (addr p) (addr q) a (bal s))) \<and>
     (\<forall>s p k a. \<exists>r s'. pp_transfer_to_account P p k a s = Some (Ok r, s') \<and> keys s' = keys s \<and>
        (case r of
           Inl _ \<Rightarrow> bal s' = bal s
         | Inr _ \<Rightarrow> \<exists>y w. y \<noteq> addr p \<and> a \<le> the (bal s (addr p)) \<and> bal s' = move (addr p) y a ((bal s)(y \<mapsto> w))))"

lemma seq_ok_Inr_iff:
  "seq_ok m f s = Some (Ok (Inr y), t) \<longleftrightarrow> (\<exists>x s'. m s = Some (Ok (Inr x), s') \<and> f x s' = Some (Ok (Inr y), t))"
  by (auto simp: seq_ok_def seq_def split: option.splits result.splits sum.splits)

lemma move_source: "x \<noteq> y \<Longrightarrow> move x y a b x = Some (the (b x) - a)"
  by (simp add: move_def Let_def)

lemma move_self: "move x x a b x = Some (the (b x))"
  by (simp add: move_def Let_def)

lemma get_purse_id_Ok:
  assumes "payment_laws P bal keys"
  shows "get_purse_id P name s = Some (Ok (Inr u), s') \<longleftrightarrow> keys s name = Some (Key_URef u) \<and> s' = s"
proof -
  have get: "pp_get_key P name s = Some (Ok (keys s name), s)" using assms by (simp add: payment_laws_def)
  show ?thesis
  proof (cases "keys s name")
    case None
    then show ?thesis using get by (simp add: get_purse_id_def seq_step(1) as_value_def)
  next
    case (Some k)
    then show ?thesis using get by (cases k) (auto simp: get_purse_id_def seq_step(1) as_value_def)
  qed
qed

lemma map_inl_Inr_iff: "map_inl g m s = Some (Ok (Inr x), s') \<longleftrightarrow> m s = Some (Ok (Inr x), s')"
  by (auto simp: map_inl_def seq_def split: option.splits result.splits sum.splits)

lemma refund_to_account_Ok:
  assumes "payment_laws P bal keys" "refund_to_account P p k a s = Some (Ok (Inr ()), s')" "bal s (addr p) = Some a"
  shows "bal s' (addr p) = Some 0" "keys s' = keys s"
proof -
  obtain r s1 where r: "pp_transfer_to_account P p k a s = Some (Ok r, s1)" "keys s1 = keys s"
    "case r of Inl _ \<Rightarrow> bal s1 = bal s
     | Inr _ \<Rightarrow> \<exists>y w. y \<noteq> addr p \<and> a \<le> the (bal s (addr p)) \<and> bal s1 = move (addr p) y a ((bal s)(y \<mapsto> w))"
    using assms(1) unfolding payment_laws_def by meson
  have "s1 = s'" "\<exists>x. r = Inr x"
    using assms(2) r(1) by (auto simp: refund_to_account_def seq_step(1) split: sum.splits)
  then show "bal s' (addr p) = Some 0" "keys s' = keys s" using r(2,3) assms(3) by (auto simp: move_source)
qed

text \<open>The end of the payment: the remaining amount goes to the refund purse or to the account.\<close>

lemma refund_Ok:
  assumes "payment_laws P bal keys" "bal s (addr p) = Some rest"
    "(if rest = 0 then return (Inr ())
      else case refund_purse of
        None \<Rightarrow> refund_to_account P p account rest
      | Some q \<Rightarrow>
          seq (pp_transfer_to_purse P p q rest) (\<lambda>r.
            case r of Inl _ \<Rightarrow> refund_to_account P p account rest | Inr _ \<Rightarrow> return (Inr ()))) s = Some (Ok (Inr ()), s')"
  shows "keys s' = keys s"
    "bal s' (addr p) = Some 0 \<or> (\<exists>q. refund_purse = Some q \<and> addr q = addr p) \<and> bal s' (addr p) = Some rest"
proof -
  have "keys s' = keys s \<and>
    (bal s' (addr p) = Some 0 \<or> (\<exists>q. refund_purse = Some q \<and> addr q = addr p) \<and> bal s' (addr p) = Some rest)"
  proof (cases "rest = 0")
    case True
    then show ?thesis using assms(2,3) by simp
  next
    case False
    show ?thesis
    proof (cases refund_purse)
      case None
      then have "refund_to_account P p account rest s = Some (Ok (Inr ()), s')" using assms(3) False by simp
      then show ?thesis using refund_to_account_Ok [OF assms(1) _ assms(2)] by blast
    next
      case (Some q)
      obtain r s1 where r: "pp_transfer_to_purse P p q rest s = Some (Ok r, s1)" "keys s1 = keys s"
        "case r of Inl _ \<Rightarrow> bal s1 = bal s
         | Inr _ \<Rightarrow> rest \<le> the (bal s (addr p)) \<and> bal s1 = move (addr p) (addr q) rest (bal s)"
        using assms(1) unfolding payment_laws_def by meson
      have run: "(case r of Inl _ \<Rightarrow> refund_to_account P p account rest | Inr _ \<Rightarrow> return (Inr ())) s1 = Some (Ok (Inr ()), s')"
        using assms(3) False Some r(1) by (simp add: seq_step(1))
      show ?thesis
      proof (cases r)
        case (Inl e)
        then have "refund_to_account P p account rest s1 = Some (Ok (Inr ()), s')" "bal s1 (addr p) = Some rest"
          using run r(3) assms(2) by simp_all
        then show ?thesis using refund_to_account_Ok [OF assms(1)] r(2) by metis
      next
        case (Inr x)
        then have "s' = s1" "bal s1 = move (addr p) (addr q) rest (bal s)" using run r(3) by simp_all
        then show ?thesis using r(2) Some assms(2) move_source [of "addr p" "addr q"] move_self [of "addr p"]
          by (cases "addr q = addr p") auto
      qed
    qed
  qed
  then show "keys s' = keys s"
    "bal s' (addr p) = Some 0 \<or> (\<exists>q. refund_purse = Some q \<and> addr q = addr p) \<and> bal s' (addr p) = Some rest"
    by blast+
qed

lemma get_refund_purse_Ok:
  assumes "payment_laws P bal keys" "internal_get_refund_purse P s = Some (Ok (Inr r), s')"
  shows "s' = s" "r = (case keys s REFUND_PURSE_KEY of Some (Key_URef u) \<Rightarrow> Some u | _ \<Rightarrow> None)"
proof -
  have get: "pp_get_key P REFUND_PURSE_KEY s = Some (Ok (keys s REFUND_PURSE_KEY), s)"
    using assms(1) by (simp add: payment_laws_def)
  have "s' = s \<and> r = (case keys s REFUND_PURSE_KEY of Some (Key_URef u) \<Rightarrow> Some u | _ \<Rightarrow> None)"
  proof (cases "keys s REFUND_PURSE_KEY")
    case None
    then show ?thesis using get assms(2)
      by (simp add: internal_get_refund_purse_def get_purse_id_def seq_assoc seq_step(1) as_value_def)
  next
    case (Some k)
    then show ?thesis using get assms(2)
      by (cases k) (simp_all add: internal_get_refund_purse_def get_purse_id_def seq_assoc seq_step(1) as_value_def)
  qed
  then show "s' = s" "r = (case keys s REFUND_PURSE_KEY of Some (Key_URef u) \<Rightarrow> Some u | _ \<Rightarrow> None)" by simp_all
qed

text \<open>A payment that succeeds pays the validators first, and then refunds the rest.\<close>

lemma finalize_payment_run:
  assumes "payment_laws P bal keys" "finalize_payment P spent account s = Some (Ok (Inr ()), s')"
    "keys s PAYMENT_PURSE_KEY = Some (Key_URef payment)" "keys s REWARDS_PURSE_KEY = Some (Key_URef rewards)"
  obtains total refund_purse s1 s2 where
    "bal s (addr payment) = Some total" "spent \<le> total"
    "internal_get_refund_purse P s = Some (Ok (Inr refund_purse), s)"
    "keys s1 = (keys s)(REFUND_PURSE_KEY := None)" "bal s1 = bal s"
    "keys s2 = keys s1" "bal s2 = move (addr payment) (addr rewards) spent (bal s1)"
    "(if total - spent = 0 then return (Inr ())
      else case refund_purse of
        None \<Rightarrow> refund_to_account P payment account (total - spent)
      | Some q \<Rightarrow>
          seq (pp_transfer_to_purse P payment q (total - spent)) (\<lambda>r.
            case r of Inl _ \<Rightarrow> refund_to_account P payment account (total - spent) | Inr _ \<Rightarrow> return (Inr ()))) s2 =
      Some (Ok (Inr ()), s')"
proof -
  obtain k where caller: "pp_get_caller P s = Some (Ok k, s)"
    using assms(1) unfolding payment_laws_def by meson
  have pay: "internal_get_payment_purse P s = Some (Ok (Inr payment), s)"
    unfolding internal_get_payment_purse_def map_inl_Inr_iff get_purse_id_Ok [OF assms(1)] using assms(3) by simp
  have balance: "pp_get_balance P payment s = Some (Ok (bal s (addr payment)), s)"
    using assms(1) by (simp add: payment_laws_def)
  have rew: "get_rewards_purse P s = Some (Ok (Inr rewards), s)"
    unfolding get_rewards_purse_def map_inl_Inr_iff get_purse_id_Ok [OF assms(1)] using assms(4) by simp
  obtain total where total: "bal s (addr payment) = Some total" "spent \<le> total"
    using assms(2) caller pay balance
    by (cases "bal s (addr payment)")
      (auto simp: finalize_payment_def internal_finalize_payment_def seq_step(1) seq_ok_step(1) not_less split: if_splits)
  obtain s1 where s1: "pp_remove_key P REFUND_PURSE_KEY s = Some (Ok (), s1)"
      "keys s1 = (keys s)(REFUND_PURSE_KEY := None)" "bal s1 = bal s"
    using assms(1) unfolding payment_laws_def by meson
  obtain r s2 where r: "pp_transfer_to_purse P payment rewards spent s1 = Some (Ok r, s2)" "keys s2 = keys s1"
      "case r of Inl _ \<Rightarrow> bal s2 = bal s1
       | Inr _ \<Rightarrow> spent \<le> the (bal s1 (addr payment)) \<and> bal s2 = move (addr payment) (addr rewards) spent (bal s1)"
    using assms(1) unfolding payment_laws_def by meson
  have sub: "uint_sub total spent = (Ok (total - spent) :: (U512, pos_error) result)"
    using total(2) by (simp add: uint_sub_def checked_sub_def)
  obtain refund_purse where refund: "internal_get_refund_purse P s = Some (Ok (Inr refund_purse), s)"
    using assms(2) caller pay balance total sub rew get_refund_purse_Ok(1) [OF assms(1)]
    by (auto simp: finalize_payment_def internal_finalize_payment_def seq_step(1) seq_ok_step(1) not_less seq_ok_Inr_iff
        split: if_splits)
  obtain x where x: "r = Inr x"
    using assms(2) caller pay balance total sub rew refund s1(1) r(1)
    by (cases r) (auto simp: finalize_payment_def internal_finalize_payment_def seq_step(1) seq_ok_step(1) not_less
        seq_ok_Inr_iff map_inl_Inr_iff split: if_splits)
  have transfer: "map_inl (\<lambda>_. Pos_FailedTransferToRewardsPurse) (pp_transfer_to_purse P payment rewards spent) s1 =
      Some (Ok (Inr x), s2)"
    using r(1) x by (simp add: map_inl_Inr_iff)
  show thesis
  proof (rule that [OF total refund s1(2,3) r(2)])
    show "bal s2 = move (addr payment) (addr rewards) spent (bal s1)" using r(3) x by simp
    show "(if total - spent = 0 then return (Inr ())
      else case refund_purse of
        None \<Rightarrow> refund_to_account P payment account (total - spent)
      | Some q \<Rightarrow>
          seq (pp_transfer_to_purse P payment q (total - spent)) (\<lambda>r.
            case r of Inl _ \<Rightarrow> refund_to_account P payment account (total - spent) | Inr _ \<Rightarrow> return (Inr ()))) s2 =
      Some (Ok (Inr ()), s')"
    using assms(2) caller pay balance total sub rew refund s1(1) transfer
    by (simp add: finalize_payment_def internal_finalize_payment_def seq_step(1) seq_ok_step(1) not_less split: if_splits)
  qed
qed


text \<open>Providers that keep the balances and the named keys in a pair, for a deploy whose refund purse is its
  payment purse.\<close>

type_synonym payment_state = "balances \<times> (rstring \<rightharpoonup> key)"

definition pair_transfer :: "array32 \<Rightarrow> array32 \<Rightarrow> U512 \<Rightarrow> balances \<Rightarrow> balances option" where
  "pair_transfer x y a b =
     (case b x of Some v \<Rightarrow> if a \<le> v \<and> b y \<noteq> None then Some (move x y a b) else None | None \<Rightarrow> None)"

definition pair_provider :: "(payment_state, unit) pos_provider" where
  "pair_provider =
     \<lparr>pp_transfer_to_account = \<lambda>p k a (b, ks). Some (Ok (Inl Api_Transfer), b, ks),
      pp_transfer_to_purse = \<lambda>p q a (b, ks).
        case pair_transfer (addr p) (addr q) a b of
          Some b' \<Rightarrow> Some (Ok (Inr ()), b', ks)
        | None \<Rightarrow> Some (Ok (Inl ()), b, ks),
      pp_get_balance = \<lambda>p (b, ks). Some (Ok (b (addr p)), b, ks),
      pp_read_bonding = return [], pp_read_unbonding = return [],
      pp_write_bonding = \<lambda>_. return (), pp_write_unbonding = \<lambda>_. return (),
      pp_get_key = \<lambda>name (b, ks). Some (Ok (ks name), b, ks),
      pp_put_key = \<lambda>name k (b, ks). Some (Ok (), b, ks(name \<mapsto> k)),
      pp_remove_key = \<lambda>name (b, ks). Some (Ok (), b, ks(name := None)),
      pp_get_phase = return FinalizePayment, pp_get_block_time = return (BlockTime 0),
      pp_get_caller = return (array32_fill 0),
      pp_read_stakes = return (Inl Pos_NotBonded), pp_write_stakes = \<lambda>_. return ()\<rparr>"

lemma pair_laws: "payment_laws pair_provider fst snd"
  by (auto simp: payment_laws_def pair_provider_def pair_transfer_def split: option.splits)

definition payment_purse :: uref where "payment_purse = uref_new (array32_fill 1) READ_ADD_WRITE"
definition rewards_purse :: uref where "rewards_purse = uref_new (array32_fill 2) READ_ADD_WRITE"

definition payment_example :: payment_state where
  "payment_example =
     ([array32_fill 1 \<mapsto> 100, array32_fill 2 \<mapsto> 0],
      [PAYMENT_PURSE_KEY \<mapsto> Key_URef payment_purse,
       REWARDS_PURSE_KEY \<mapsto> Key_URef rewards_purse,
       REFUND_PURSE_KEY \<mapsto> Key_URef payment_purse])"


end
