(* ===== verification/Spec2Isabelle.thy ===== *)
theory Spec2Isabelle
  imports Host_Props Writers System_Props
begin

text \<open>
  A verification of the execution engine of CasperLabs, the Rust sources under
  \<^verbatim>\<open>src/execution-engine\<close>; the paths below are relative to that directory.

  \<^bold>\<open>The program.\<close> The engine keeps a global state that maps keys to stored values. The map is held in a
  Merkle trie, and a state is named by the hash of its root. A deploy runs Wasm contracts against a
  tracking copy of a state. Contracts reach the state only through host functions, which check the access
  rights of the running contract in its runtime context. The copy records an effect, a transform for each
  key, and a commit applies the effect to the trie and returns a new root. Two system contracts hold the
  tokens (motes): the mint keeps purses and balances, and the proof of stake keeps the stakes of the
  validators and settles the payment of a deploy.

  \<^bold>\<open>Conventions.\<close> A Rust struct is a record and an enum a datatype. Machine integers are words of their
  width; lengths and sums of lengths of type usize are natural numbers. \<^verbatim>\<open>BTreeMap\<close> and \<^verbatim>\<open>BTreeSet\<close> are
  finite maps and sets, iterated in ascending order; a \<^verbatim>\<open>HashMap\<close> that is iterated is a list in any order.
  A fallible function has the result type \<open>Ok\<close>, \<open>Err\<close> or \<open>Panic\<close>, so that every early return and every
  panic is a value. Code with state has the type \<open>exec\<close> of the theory \<open>Exec\<close>: it takes the state and
  returns a result with the new state, or \<open>None\<close> if it does not return. An error keeps the changes made
  before it. Where a function of the source returns a \<^verbatim>\<open>Result\<close> and may also revert the contract,
  the former is a value \<open>Inl\<close> or \<open>Inr\<close> and the latter an \<open>Err\<close>.

  \<^bold>\<open>Foundations.\<close>
  \<^item> \<open>Prelude\<close>, \<open>Rust_Data\<close>, \<open>Exec\<close>: results, little-endian bytes, 32-byte arrays, strings, ordered maps and
    computations with state. The locale \<open>state_order\<close> carries the frame arguments: a reflexive and
    transitive relation of states that single steps keep is kept by every composition of steps.
  \<^item> \<open>Bytesrepr\<close> (\<^verbatim>\<open>types/src/bytesrepr.rs\<close>): serialization. The locale \<open>codec\<close> states what a writer and a
    reader promise each other; it is interpreted for every serialized type of the development, so that
    round trips, injectivity and prefix-freeness are proved once.
  \<^item> \<open>Uint\<close> (\<^verbatim>\<open>types/src/uint.rs\<close>, gas, motes), \<open>Keys\<close> (access rights, references, keys), \<open>Versions\<close>,
    \<open>CL_Types\<close> (\<^verbatim>\<open>cl_type.rs\<close>, \<^verbatim>\<open>cl_value.rs\<close>), \<open>Accounts\<close>, \<open>Stored_Values\<close>, \<open>Protocol_Data\<close>,
    \<open>System_Errors\<close>: the values of the state and of the interface. Lemmas: round trips, canonical and
    bounded encodings, totality of the parser of types, the invariant of accounts (thresholds stay within
    the weight of the keys, no account locks itself out), and the codes of errors.
  \<^item> \<open>Transforms\<close> (\<^verbatim>\<open>engine-shared/src/transform.rs\<close>): effects, and when the sum of two transforms acts as
    their sequence.

  \<^bold>\<open>Storage\<close> (\<^verbatim>\<open>engine-storage/src\<close>).
  \<^item> \<open>Trie\<close>, \<open>Trie_Ops\<close>: elements of the trie and the loops of \<^verbatim>\<open>read\<close>, \<^verbatim>\<open>scan\<close> and \<^verbatim>\<open>write\<close>, statement by statement.
  \<^item> \<open>Trie_Correct\<close>, \<open>Trie_Write\<close>, \<open>Trie_Store\<close>: the relation of an element to the map it represents, the
    locales \<open>trie_keys\<close>, \<open>trie_writer\<close> and \<open>trie_store\<close>, and the correctness of reading and writing in them.
  \<^item> \<open>Store\<close>, \<open>Global_State\<close>: the in-memory environment, transactions, stores, commit and checkout. \<open>Store\<close>
    interprets the locales of the trie on the in-memory store.
  \<^item> \<open>Commit_Props\<close>: reading, writing and committing refine a map; roots are determined by contents.
  \<^item> \<open>Writers\<close>: threads that open write transactions, as a step relation: the lock is exclusive, and a commit
    can nevertheless undo that of another writer.

  \<^bold>\<open>Execution\<close> (\<^verbatim>\<open>engine-core/src\<close>).
  \<^item> \<open>Tracking_Copy\<close>, \<open>Copy_Refine\<close>, \<open>Copy_Props\<close> (\<^verbatim>\<open>tracking_copy\<close>): the copy refines a map whatever its cache
    drops, queries follow paths of names, and committing the recorded effects gives the state that was
    read through the copy.
  \<^item> \<open>Runtime_Context\<close>, \<open>Context_Safety\<close>, \<open>Context_Props\<close> (\<^verbatim>\<open>runtime_context\<close>, \<^verbatim>\<open>execution/address_generator.rs\<close>):
    every operation of the context; a run of a contract changes only keys it has authority over and gains
    no rights but to the references it creates.
  \<^item> \<open>Call_Rights\<close>, \<open>Runtime\<close>, \<open>Host_Calls\<close>, \<open>Host_Dispatch\<close> (\<^verbatim>\<open>execution/runtime\<close>, \<^verbatim>\<open>resolvers\<close>): the host
    functions, calls between contracts, gas, the host buffer and the dispatch of indices.
  \<^item> \<open>Host_Rights\<close>, \<open>Host_Frame\<close>, \<open>Host_Props\<close>: what calls and returns hand over, and what host functions
    leave alone. \<open>Host_Frame\<close> has the locales \<open>context_frame\<close> and \<open>runtime_frame\<close>, interpreted in \<open>Host_Props\<close>.

  \<^bold>\<open>System contracts.\<close>
  \<^item> \<open>Contract_Api\<close> (\<^verbatim>\<open>contract/src/contract_api\<close>): storage as a contract sees it.
  \<^item> \<open>Mint\<close>, \<open>Mint_Contract\<close> (\<^verbatim>\<open>mint/src\<close>, \<^verbatim>\<open>contracts/system/mint-token/src\<close>): purses over the methods of the
    provider traits. The locale \<open>mint_store\<close> states what the providers promise, transfers refine the
    specification \<open>spec_transfer\<close> in it, and \<open>Mint_Contract\<close> interprets it on the runtime context.
  \<^item> \<open>Stakes\<close>, \<open>Proof_Of_Stake\<close>, \<open>Pos_Contract\<close> (\<^verbatim>\<open>proof-of-stake/src\<close>, \<^verbatim>\<open>contracts/system/pos/src\<close>): stakes, queues,
    bonding, unbonding and payment, with the locale \<open>pos_store\<close>, interpreted on the runtime context with the
    queues in local storage and the stakes in the names of keys.
  \<^item> \<open>System_Props\<close>: transfers conserve motes, only the system account creates them, bonded motes are
    accounted for over every run, and what a successful payment leaves in the payment purse.

  \<^bold>\<open>Loops.\<close> The loops of the trie (\<open>read_loop\<close>, \<open>scan_loop\<close>) and the eviction of the cache (\<open>evict\<close>) are
  partial functions whose value is \<open>None\<close> when the loop does not end; the properties prove that they end.
  The parser of types recurses with one unit of fuel more than the input has bytes. Every recursive call
  consumes a byte, so more fuel gives the same result, which \<open>CL_Types\<close> proves. All other loops are
  structural recursions over the list they traverse.

  \<^bold>\<open>Parameters.\<close> Code of third-party libraries is an argument of the model: the BLAKE2b hash, base16, the
  ChaCha generator, \<^verbatim>\<open>linked_hash_map\<close> (\<open>linked_map_laws\<close>), \<^verbatim>\<open>mem::size_of\<close>, the grouping of \<^verbatim>\<open>itertools\<close>
  (\<open>group_by_law\<close>), the reading of arguments of \<^verbatim>\<open>wasmi\<close> (\<open>nth_law\<close>), Wasm modules, instances and their
  memory, and the decimal and hexadecimal digits in the names of stakes (\<open>stake_laws\<close>). The proof of stake
  is generic over its providers; \<open>payment_laws\<close> states what the payment relies on. Each property with such a
  hypothesis is applied to concrete functions that satisfy it.

  \<^bold>\<open>Not modelled.\<close> The Wasm interpreter and the preparation of modules (libraries); the engine state, the
  executor and genesis, which order the runs of contracts; the dispatch on method names in the system
  contracts, and the three calls of \<^verbatim>\<open>ContractMint\<close> into the host, which are arguments of \<open>pos_contract\<close>; the
  rest of the contract API, which passes pointers to the host; LMDB, in whose place the in-memory
  environment stands; the operation \<^verbatim>\<open>keys\<close> of the trie; failures of memory allocation
  (\<^verbatim>\<open>try_reserve_exact\<close>) and the variants \<^verbatim>\<open>into_bytes\<close> and \<^verbatim>\<open>from_vec\<close>; correlation identifiers, metrics and
  logging, which have no effect on the state; the gRPC server and its conversions, the node and clients in
  Scala, the explorer, and tests with their support.
\<close>

end
